(* ===== verification/Py_Base.thy ===== *)
theory Py_Base
  imports Main "HOL-Library.Word"
begin

text \<open>
  Prelude of the development: the exceptions of the emulator, the effect type in which its
  methods are written, Python's list indexing, slicing and integer bit operations, and the
  lemmas on these that the component theories share.

  Python's integers are unbounded, so every register, address and instruction word is an
  \<^typ>\<open>int\<close>; \<open>&\<close>, \<open>|\<close>, \<open>^\<close>, \<open><<\<close> and \<open>>>\<close> are \<open>AND\<close>, \<open>OR\<close>, \<open>XOR\<close>, \<open>push_bit\<close> and
  \<open>drop_bit\<close> on \<^typ>\<open>int\<close>, which agree with Python on negative operands too. The cells of a
  \<open>bytearray\<close> are \<open>8 word\<close>s.
\<close>

unbundle bit_operations_syntax

section \<open>Exceptions\<close>

text \<open>
  The exception classes of \<open>machine.py\<close>, \<open>ram.py\<close> and \<open>syscalls.py\<close>. The formatted message of
  an exception is kept as data: the values the f-string interpolates.
\<close>

datatype mem_fault =
    OutOfBounds int int          \<comment> \<open>address, access size in the message\<close>
  | RangeOutOfBounds int int     \<comment> \<open>first address, end address\<close>
  | CStringTooLong int
  | CStringBadStart int
  | BadMMIORead int
  | BadMMIOWrite int

datatype machine_fault = NoEcallHandler | MisalignedInitialPC int

datatype setup_fault =
    TraceNeedsLogger
  | BadInitRegs string
  | MainChecksOnFlatBinary
  | BadStartChecks string
  | UnknownRegister string

datatype invariant_fault =
    X0NotZero | PcOutOfBounds int | SpAboveStackTop int int | SpBelowStackBottom int int
  | HeapTooClose int int | HeapNotAligned int | TextModified

datatype stop_reason =
    TrapWithoutHandler int int   \<comment> \<open>PC, mcause\<close>
  | BreakpointAt int
  | ExitCode int
  | KilledByGdb

datatype exn =
    MachineError machine_fault
  | SetupError setup_fault
  | InvariantViolationError invariant_fault
  | ExecutionTerminated stop_reason
  | DebugBreak int               \<comment> \<open>GDB signal\<close>
  | MemoryAccessError mem_fault
  | InvalidSyscallError
  | IndexError | ValueError | TypeError | BufferError | AttributeError | RuntimeError | OverflowError | OSError int

section \<open>Effects\<close>

text \<open>
  A method that reads and writes the state \<open>'s\<close>, returns an \<open>'a\<close> or raises. The state is part
  of the result in both cases: what was written before an exception stays written.
\<close>

type_synonym ('s, 'a) py = "'s \<Rightarrow> (exn + 'a) \<times> 's"

definition py_return :: "'a \<Rightarrow> ('s, 'a) py" where
  "py_return x s = (Inr x, s)"

definition py_raise :: "exn \<Rightarrow> ('s, 'a) py" where
  "py_raise e s = (Inl e, s)"

definition py_bind :: "('s, 'a) py \<Rightarrow> ('a \<Rightarrow> ('s, 'b) py) \<Rightarrow> ('s, 'b) py" where
  "py_bind m f s = (case m s of (Inl e, s') \<Rightarrow> (Inl e, s') | (Inr x, s') \<Rightarrow> f x s')"

definition py_then :: "('s, unit) py \<Rightarrow> ('s, 'b) py \<Rightarrow> ('s, 'b) py" where
  "py_then m k = py_bind m (\<lambda>_. k)"

definition py_modify :: "('s \<Rightarrow> 's) \<Rightarrow> ('s, unit) py" where
  "py_modify f s = (Inr (), f s)"

text \<open>\<open>try: m except P: h\<close>\<close>

definition py_except :: "(exn \<Rightarrow> bool) \<Rightarrow> ('s, 'a) py \<Rightarrow> ('s, 'a) py \<Rightarrow> ('s, 'a) py" where
  "py_except P m h s =
     (case m s of
        (Inl e, s') \<Rightarrow> (if P e then h s' else (Inl e, s'))
      | (Inr x, s') \<Rightarrow> (Inr x, s'))"

definition py_lift :: "('s \<Rightarrow> exn + 'a) \<Rightarrow> ('s, 'a) py" where
  "py_lift f s = (f s, s)"

text \<open>Run a computation on a part of the state, given by its getter and setter.\<close>

definition py_zoom :: "('s \<Rightarrow> 't) \<Rightarrow> ('t \<Rightarrow> 's \<Rightarrow> 's) \<Rightarrow> ('t, 'a) py \<Rightarrow> ('s, 'a) py" where
  "py_zoom get put m s = (case m (get s) of (r, t) \<Rightarrow> (r, put t s))"

named_theorems py_defs \<open>unfolding of the effect combinators\<close>

lemmas [py_defs] =
  py_return_def py_raise_def py_bind_def py_then_def py_modify_def py_lift_def py_zoom_def

lemma py_bind_return [simp]: "py_bind (py_return x) f = f x"
  by (rule ext) (simp add: py_defs)

lemma py_bind_raise [simp]: "py_bind (py_raise e) f = py_raise e"
  by (rule ext) (simp add: py_defs)

lemma py_return_bind [simp]: "py_bind m py_return = m"
  by (rule ext) (auto simp: py_defs split: prod.split sum.split)

lemma py_bind_assoc: "py_bind (py_bind m f) g = py_bind m (\<lambda>x. py_bind (f x) g)"
  by (rule ext) (auto simp: py_defs split: prod.split sum.split)

text \<open>
  \<open>py_keeps P m\<close>: whether \<open>m\<close> returns or raises, it keeps \<open>P\<close>. This is how the invariants of
  the development are stated, and the combinators below carry them through a method body.
\<close>

definition py_keeps :: "('s \<Rightarrow> bool) \<Rightarrow> ('s, 'a) py \<Rightarrow> bool" where
  "py_keeps P m \<longleftrightarrow> (\<forall>s. P s \<longrightarrow> P (snd (m s)))"

named_theorems py_keeps_intros \<open>invariants carried through the effect combinators\<close>

lemma py_keepsD: "py_keeps P m \<Longrightarrow> P s \<Longrightarrow> P (snd (m s))"
  by (simp add: py_keeps_def)

lemma py_keepsI: "(\<And>s. P s \<Longrightarrow> P (snd (m s))) \<Longrightarrow> py_keeps P m"
  by (simp add: py_keeps_def)

lemma py_keeps_return [py_keeps_intros]: "py_keeps P (py_return x)"
  by (simp add: py_keeps_def py_defs)

lemma py_keeps_raise [py_keeps_intros]: "py_keeps P (py_raise e)"
  by (simp add: py_keeps_def py_defs)

lemma py_keeps_lift [py_keeps_intros]: "py_keeps P (py_lift f)"
  by (simp add: py_keeps_def py_defs)

lemma py_keeps_modify: "(\<And>s. P s \<Longrightarrow> P (f s)) \<Longrightarrow> py_keeps P (py_modify f)"
  by (simp add: py_keeps_def py_defs)

lemma py_keeps_bind [py_keeps_intros]:
  assumes "py_keeps P m" and "\<And>x. py_keeps P (f x)"
  shows "py_keeps P (py_bind m f)"
  unfolding py_keeps_def
proof (intro allI impI)
  fix s assume "P s"
  then have "P (snd (m s))" using assms(1) by (simp add: py_keeps_def)
  then show "P (snd (py_bind m f s))"
    using assms(2) by (auto simp: py_bind_def py_keeps_def split: prod.split sum.split)
qed

lemma py_keeps_then [py_keeps_intros]:
  "py_keeps P m \<Longrightarrow> py_keeps P k \<Longrightarrow> py_keeps P (py_then m k)"
  by (simp add: py_then_def py_keeps_bind)

lemma py_keeps_if [py_keeps_intros]:
  "(b \<Longrightarrow> py_keeps P m) \<Longrightarrow> (\<not> b \<Longrightarrow> py_keeps P k) \<Longrightarrow> py_keeps P (if b then m else k)"
  by simp

lemma keeps_case_sum [py_keeps_intros]:
  "(\<And>x. py_keeps P (f x)) \<Longrightarrow> (\<And>y. py_keeps P (g y)) \<Longrightarrow> py_keeps P (case z of Inl x \<Rightarrow> f x | Inr y \<Rightarrow> g y)"
  by (cases z) simp_all

lemma keeps_case_option [py_keeps_intros]:
  "py_keeps P m \<Longrightarrow> (\<And>y. py_keeps P (g y)) \<Longrightarrow> py_keeps P (case z of None \<Rightarrow> m | Some y \<Rightarrow> g y)"
  by (cases z) simp_all

lemma py_keeps_except [py_keeps_intros]:
  "py_keeps P m \<Longrightarrow> py_keeps P h \<Longrightarrow> py_keeps P (py_except Q m h)"
  by (fastforce simp: py_keeps_def py_except_def split: prod.split sum.split)

section \<open>Python sequences\<close>

text \<open>\<open>xs[i]\<close>: a negative index counts from the end; \<open>None\<close> stands for \<open>IndexError\<close>.\<close>

definition py_index :: "nat \<Rightarrow> int \<Rightarrow> nat option" where
  "py_index n i =
     (let j = (if i < 0 then int n + i else i)
      in if 0 \<le> j \<and> j < int n then Some (nat j) else None)"

definition py_get :: "'a list \<Rightarrow> int \<Rightarrow> 'a option" where
  "py_get xs i = map_option ((!) xs) (py_index (length xs) i)"

definition py_set :: "'a list \<Rightarrow> int \<Rightarrow> 'a \<Rightarrow> 'a list option" where
  "py_set xs i v = map_option (\<lambda>j. xs[j := v]) (py_index (length xs) i)"

text \<open>The bounds of \<open>xs[lo:hi]\<close>, clipped as Python clips them.\<close>

definition py_clip :: "nat \<Rightarrow> int \<Rightarrow> nat" where
  "py_clip n i = (if i < 0 then nat (max 0 (int n + i)) else nat (min (int n) i))"

definition py_slice :: "'a list \<Rightarrow> int \<Rightarrow> int \<Rightarrow> 'a list" where
  "py_slice xs lo hi =
     take (py_clip (length xs) hi - py_clip (length xs) lo) (drop (py_clip (length xs) lo) xs)"

lemma py_index_in [simp]: "0 \<le> i \<Longrightarrow> i < int n \<Longrightarrow> py_index n i = Some (nat i)"
  by (simp add: py_index_def)

lemma py_index_out [simp]: "int n \<le> i \<Longrightarrow> py_index n i = None"
  by (simp add: py_index_def)

lemma py_index_lt: "py_index n i = Some j \<Longrightarrow> j < n"
  by (auto simp: py_index_def Let_def split: if_splits)

lemma py_get_in: "0 \<le> i \<Longrightarrow> i < int (length xs) \<Longrightarrow> py_get xs i = Some (xs ! nat i)"
  by (simp add: py_get_def)

lemma py_set_in: "0 \<le> i \<Longrightarrow> i < int (length xs) \<Longrightarrow> py_set xs i v = Some (xs[nat i := v])"
  by (simp add: py_set_def)

lemma py_get_out: "int (length xs) \<le> i \<Longrightarrow> py_get xs i = None"
  by (simp add: py_get_def)

lemma py_set_out: "int (length xs) \<le> i \<Longrightarrow> py_set xs i v = None"
  by (simp add: py_set_def)

lemma py_set_length: "py_set xs i v = Some ys \<Longrightarrow> length ys = length xs"
  by (auto simp: py_set_def)

lemma py_clip_in [simp]: "0 \<le> i \<Longrightarrow> i \<le> int n \<Longrightarrow> py_clip n i = nat i"
  by (simp add: py_clip_def)

lemma py_clip_le: "py_clip n i \<le> n"
  by (auto simp: py_clip_def)

lemma py_slice_in:
  assumes "0 \<le> a" and "a + int n \<le> int (length xs)"
  shows "py_slice xs a (a + int n) = take n (drop (nat a) xs)"
  using assms by (simp add: py_slice_def nat_add_distrib)

section \<open>Integers and bits\<close>

named_theorems bits \<open>masks as \<open>take_bit\<close>\<close>

lemma and_mask_take_bit [bits]:
  fixes x :: int
  shows "x AND 1 = take_bit 1 x" and "x AND 3 = take_bit 2 x" and "x AND 7 = take_bit 3 x"
    and "x AND 15 = take_bit 4 x" and "x AND 1023 = take_bit 10 x"
    and "x AND 31 = take_bit 5 x" and "x AND 63 = take_bit 6 x" and "x AND 127 = take_bit 7 x"
    and "x AND 255 = take_bit 8 x" and "x AND 4095 = take_bit 12 x"
    and "x AND 65535 = take_bit 16 x" and "x AND 1048575 = take_bit 20 x"
    and "x AND 4294967295 = take_bit 32 x"
  by (simp_all add: take_bit_eq_mask mask_eq_exp_minus_1)

section \<open>Bit fields\<close>

text \<open>\<open>fld hi lo x\<close> is the field \<open>x[hi:lo]\<close> of the manuals.\<close>

definition fld :: "nat \<Rightarrow> nat \<Rightarrow> int \<Rightarrow> int" where
  "fld hi lo x = take_bit (Suc hi - lo) (drop_bit lo x)"

text \<open>\<open>fits n x\<close>: \<open>x\<close> is an unsigned number of \<open>n\<close> bits.\<close>

definition fits :: "nat \<Rightarrow> int \<Rightarrow> bool" where
  "fits n x \<longleftrightarrow> 0 \<le> x \<and> x < 2 ^ n"

named_theorems fits_intros \<open>widths of composed bit fields\<close>

lemma fits_iff_take_bit: "fits n x \<longleftrightarrow> take_bit n x = x"
  by (auto simp: fits_def take_bit_int_eq_self_iff)

lemma fits_or [fits_intros]: "fits n x \<Longrightarrow> fits n y \<Longrightarrow> fits n (x OR y)"
  by (simp add: fits_iff_take_bit)

lemma fits_and [fits_intros]: "fits n y \<Longrightarrow> fits n (x AND y)"
proof -
  have "take_bit n (x AND y) = x AND take_bit n y" by (auto simp: bit_eq_iff bit_simps)
  then show "fits n y \<Longrightarrow> fits n (x AND y)" by (simp add: fits_iff_take_bit)
qed

lemma fits_push_bit [fits_intros]: "k \<le> n \<Longrightarrow> fits (n - k) x \<Longrightarrow> fits n (push_bit k x)"
  by (simp add: fits_iff_take_bit take_bit_push_bit)

lemma fits_take_bit [fits_intros]: "k \<le> n \<Longrightarrow> fits n (take_bit k x)"
  by (simp add: fits_iff_take_bit min_def)

lemma fits_fld [fits_intros]: "Suc hi - lo \<le> n \<Longrightarrow> fits n (fld hi lo x)"
  by (simp add: fld_def fits_take_bit)

lemma fits_zero [fits_intros]: "fits n 0"
  by (simp add: fits_def)

lemma fits_numeral: "(numeral k :: int) < 2 ^ n \<Longrightarrow> fits n (numeral k)"
  by (simp add: fits_def)

lemma bit_fld [bit_simps]: "bit (fld hi lo x) n \<longleftrightarrow> n < Suc hi - lo \<and> bit x (lo + n)"
  by (simp add: fld_def bit_simps)

lemma all_lt32:
  "(\<forall>n<32::nat. P n) \<longleftrightarrow> P 0 \<and> P 1 \<and> P 2 \<and> P 3 \<and> P 4 \<and> P 5 \<and> P 6 \<and> P 7
    \<and> P 8 \<and> P 9 \<and> P 10 \<and> P 11 \<and> P 12 \<and> P 13 \<and> P 14 \<and> P 15
    \<and> P 16 \<and> P 17 \<and> P 18 \<and> P 19 \<and> P 20 \<and> P 21 \<and> P 22 \<and> P 23
    \<and> P 24 \<and> P 25 \<and> P 26 \<and> P 27 \<and> P 28 \<and> P 29 \<and> P 30 \<and> P 31"
  unfolding numeral_eq_Suc pred_numeral_simps
  by (simp only: All_less_Suc BitM.simps pred_numeral_simps numeral_eq_Suc) auto

lemma int_eq_bits32:
  fixes x y :: int
  assumes "fits 32 x" "fits 32 y" "\<forall>n<32. bit x n = bit y n"
  shows "x = y"
proof -
  have "take_bit 32 x = take_bit 32 y"
    using assms(3) by (auto simp: bit_eq_iff bit_take_bit_iff)
  then show ?thesis using assms(1,2) by (simp add: fits_iff_take_bit)
qed

lemma signed_take_bit_sub:
  fixes x :: int
  assumes "fits (Suc n) x"
  shows "signed_take_bit n x = (if bit x n then x - 2 ^ Suc n else x)"
  using assms by (simp add: signed_take_bit_eq_take_bit_minus fits_iff_take_bit)

lemma and_exp_iff_bit: "x AND 2 ^ n \<noteq> 0 \<longleftrightarrow> bit x n" for x :: int
  by (simp add: bit_iff_and_push_bit_not_eq_0 push_bit_eq_mult)

lemma bit_double_right [bit_simps]: "bit (x * 2 :: int) n \<longleftrightarrow> n \<noteq> 0 \<and> bit x (n - 1)"
  using bit_double_iff [of x n] by (simp add: mult.commute)

lemma fits_one: "0 < n \<Longrightarrow> fits n (1 :: int)"
  by (simp add: fits_def)

lemma bits32I:
  fixes x y :: int
  assumes "fits 32 x" "fits 32 y"
    and "bit x 0 = bit y 0 \<and> bit x 1 = bit y 1 \<and> bit x 2 = bit y 2 \<and> bit x 3 = bit y 3
      \<and> bit x 4 = bit y 4 \<and> bit x 5 = bit y 5 \<and> bit x 6 = bit y 6 \<and> bit x 7 = bit y 7
      \<and> bit x 8 = bit y 8 \<and> bit x 9 = bit y 9 \<and> bit x 10 = bit y 10 \<and> bit x 11 = bit y 11
      \<and> bit x 12 = bit y 12 \<and> bit x 13 = bit y 13 \<and> bit x 14 = bit y 14 \<and> bit x 15 = bit y 15
      \<and> bit x 16 = bit y 16 \<and> bit x 17 = bit y 17 \<and> bit x 18 = bit y 18 \<and> bit x 19 = bit y 19
      \<and> bit x 20 = bit y 20 \<and> bit x 21 = bit y 21 \<and> bit x 22 = bit y 22 \<and> bit x 23 = bit y 23
      \<and> bit x 24 = bit y 24 \<and> bit x 25 = bit y 25 \<and> bit x 26 = bit y 26 \<and> bit x 27 = bit y 27
      \<and> bit x 28 = bit y 28 \<and> bit x 29 = bit y 29 \<and> bit x 30 = bit y 30 \<and> bit x 31 = bit y 31"
  shows "x = y"
proof (rule int_eq_bits32)
  show "\<forall>n<32. bit x n = bit y n" using assms(3) unfolding all_lt32 .
qed (fact assms)+

lemma fld_low: "fits n x \<Longrightarrow> n \<le> Suc hi \<Longrightarrow> fld hi 0 x = x"
  by (simp add: fld_def fits_def take_bit_int_eq_self_iff del: power_Suc)
     (meson less_le_trans one_le_numeral power_increasing)

end
