(* ===== verification/Py_Int.thy ===== *)
theory Py_Int
  imports Main
begin

text \<open>
  Python's \<open>int(s, base)\<close> on a string, for the bases the emulator uses: 16 in the GDB stub, 0 for
  the command line options. Surrounding white space, a sign, the base prefixes and single
  underscores between digits are accepted as CPython accepts them; \<open>None\<close> is \<open>ValueError\<close>.
  A character is a code point below 256.
\<close>

definition is_space :: "char \<Rightarrow> bool" where
  "is_space c = (let n = of_char c :: nat in
     9 \<le> n \<and> n \<le> 13 \<or> 28 \<le> n \<and> n \<le> 32 \<or> n = 0x85 \<or> n = 0xA0)"

definition digit_val :: "char \<Rightarrow> nat" where
  "digit_val c = (let n = of_char c :: nat in
     if 48 \<le> n \<and> n \<le> 57 then n - 48
     else if 65 \<le> n \<and> n \<le> 90 then n - 55
     else if 97 \<le> n \<and> n \<le> 122 then n - 87
     else 37)"

text \<open>
  The digits of a number. \<open>sep\<close> says that an underscore (or nothing) precedes, so that neither
  another underscore nor the end of the number may follow.
\<close>

fun scan_digits :: "nat \<Rightarrow> bool \<Rightarrow> nat \<Rightarrow> string \<Rightarrow> (nat \<times> string) option" where
  "scan_digits base sep acc [] = (if sep then None else Some (acc, []))"
| "scan_digits base sep acc (c # cs) =
     (if c = CHR ''_'' then (if sep then None else scan_digits base True acc cs)
      else if digit_val c < base then scan_digits base False (acc * base + digit_val c) cs
      else if sep then None else Some (acc, c # cs))"

text \<open>After the digits only white space may follow.\<close>

definition finish_int :: "(nat \<times> string) option \<Rightarrow> nat option" where
  "finish_int r = (case r of
     Some (n, rest) \<Rightarrow> (if list_all is_space rest then Some n else None)
   | None \<Rightarrow> None)"

definition after_prefix :: "string \<Rightarrow> string" where
  "after_prefix cs = (case cs of c # cs' \<Rightarrow> if c = CHR ''_'' then cs' else cs | [] \<Rightarrow> [])"

definition unsigned16 :: "string \<Rightarrow> nat option" where
  "unsigned16 s =
     (if take 2 s \<in> {''0x'', ''0X''}
      then finish_int (scan_digits 16 True 0 (after_prefix (drop 2 s)))
      else finish_int (scan_digits 16 True 0 s))"

text \<open>Base 0: the prefix selects the base; a decimal number other than zero has no leading zero.\<close>

definition unsigned0 :: "string \<Rightarrow> nat option" where
  "unsigned0 s =
     (if take 2 s \<in> {''0x'', ''0X''}
      then finish_int (scan_digits 16 True 0 (after_prefix (drop 2 s)))
      else if take 2 s \<in> {''0o'', ''0O''}
      then finish_int (scan_digits 8 True 0 (after_prefix (drop 2 s)))
      else if take 2 s \<in> {''0b'', ''0B''}
      then finish_int (scan_digits 2 True 0 (after_prefix (drop 2 s)))
      else (case finish_int (scan_digits 10 True 0 s) of
              Some n \<Rightarrow> (if take 1 s = ''0'' \<and> n \<noteq> 0 then None else Some n)
            | None \<Rightarrow> None))"

definition signed_int :: "(string \<Rightarrow> nat option) \<Rightarrow> string \<Rightarrow> int option" where
  "signed_int f s =
     (if take 1 s = ''-'' then map_option (\<lambda>n. - int n) (f (drop 1 s))
      else if take 1 s = ''+'' then map_option int (f (drop 1 s))
      else map_option int (f s))"

definition py_int16 :: "string \<Rightarrow> int option" where
  "py_int16 s = signed_int unsigned16 (dropWhile is_space s)"

definition py_int0 :: "string \<Rightarrow> int option" where
  "py_int0 s = signed_int unsigned0 (dropWhile is_space s)"

end
