(* ===== verification/Ram.thy ===== *)
theory Ram
  imports Py_Base Py_Int "HOL-Library.Monad_Syntax"
begin

text \<open>
  The memory component, \<open>ram.py\<close>: the classes \<open>RAM\<close>, \<open>SafeRAM\<close> and \<open>SafeRAMOffset\<close>. The two
  MMIO classes share the code of their byte, half-word and binary accesses with them; their word
  accesses go through the peripherals and are in the theory \<open>Bus\<close>.

  \<open>memory\<close> is the \<open>bytearray\<close>; the word view \<open>memory32\<close> (\<open>memoryview.cast("I")\<close>) shares its bytes,
  so it is no field of its own but the pair \<open>mem32_get\<close>, \<open>mem32_set\<close>. The format \<open>"I"\<close> is the
  host's native one; the model has a little-endian host, as the byte-wise path of the code assumes.
\<close>

unbundle bit_operations_syntax

section \<open>State\<close>

datatype ram_class = RAM | SafeRAM | SafeRAMOffset | RAM_MMIO | SafeRAM_MMIO

record ram =
  memory :: "8 word list"
  ram_size :: int
  ram_class :: ram_class
  base_addr :: int

abbreviation byte :: "int \<Rightarrow> 8 word" where
  "byte v \<equiv> word_of_int v"

definition le16 :: "8 word \<Rightarrow> 8 word \<Rightarrow> int" where
  "le16 b0 b1 = uint b0 OR push_bit 8 (uint b1)"

definition le32 :: "8 word \<Rightarrow> 8 word \<Rightarrow> 8 word \<Rightarrow> 8 word \<Rightarrow> int" where
  "le32 b0 b1 b2 b3 =
     uint b0 OR push_bit 8 (uint b1) OR push_bit 16 (uint b2) OR push_bit 24 (uint b3)"

definition sign8 :: "bool \<Rightarrow> int \<Rightarrow> int" where
  "sign8 sgnd val = (if \<not> sgnd \<or> val < 0x80 then val else val - 0x100)"

definition sign16 :: "bool \<Rightarrow> int \<Rightarrow> int" where
  "sign16 sgnd val = (if \<not> sgnd \<or> val < 0x8000 then val else val - 0x10000)"

section \<open>Construction\<close>

text \<open>
  \<open>initialize_ram\<close>: the pattern of the first \<open>size\<close> bytes, the padding stays zero. \<open>rnd\<close> is the
  random source, \<open>random.getrandbits(8)\<close> at its \<open>i\<close>-th call.
\<close>

definition initialize_ram :: "(nat \<Rightarrow> 8 word) \<Rightarrow> string \<Rightarrow> ram \<Rightarrow> exn + ram" where
  "initialize_ram rnd fill R =
     (let n = nat (ram_size R);
          fill_with = (\<lambda>f. R\<lparr>memory := map f [0..<n] @ drop n (memory R)\<rparr>)
      in if fill = ''random'' then Inr (fill_with rnd)
         else if fill = ''addr'' then Inr (fill_with (\<lambda>i. byte (int i AND 0xFF)))
         else (case py_int0 fill of
                 None \<Rightarrow> Inl ValueError
               | Some v \<Rightarrow> Inr (fill_with (\<lambda>_. byte (v AND 0xFF)))))"

text \<open>
  \<open>RAM.__init__\<close>, with the class of the object and the base address of \<open>SafeRAMOffset\<close>.
  \<open>bytearray\<close> refuses a negative length; the cast to a word view refuses a length that is not a
  multiple of four.
\<close>

definition RAM_init ::
  "(nat \<Rightarrow> 8 word) \<Rightarrow> ram_class \<Rightarrow> int \<Rightarrow> int \<Rightarrow> string option \<Rightarrow> int \<Rightarrow> exn + ram" where
  "RAM_init rnd cls base sz init padding =
     (if sz + padding < 0 then Inl ValueError
      else if (sz + padding) mod 4 \<noteq> 0 then Inl TypeError
      else let R = \<lparr>memory = replicate (nat (sz + padding)) 0, ram_size = sz,
                    ram_class = cls, base_addr = base\<rparr>
           in case init of
                None \<Rightarrow> Inr R
              | Some fill \<Rightarrow> (if fill = ''zero'' then Inr R else initialize_ram rnd fill R))"

section \<open>Accesses to the byte array and to its word view\<close>

definition mem32_get :: "8 word list \<Rightarrow> int \<Rightarrow> int option" where
  "mem32_get m i =
     map_option (\<lambda>j. le32 (m ! (4*j)) (m ! (4*j+1)) (m ! (4*j+2)) (m ! (4*j+3)))
       (py_index (length m div 4) i)"

definition mem32_set :: "8 word list \<Rightarrow> int \<Rightarrow> int \<Rightarrow> 8 word list option" where
  "mem32_set m i v =
     map_option (\<lambda>j. m[4*j := byte v, 4*j+1 := byte (drop_bit 8 v),
                       4*j+2 := byte (drop_bit 16 v), 4*j+3 := byte (drop_bit 24 v)])
       (py_index (length m div 4) i)"

text \<open>Assignments \<open>self.memory[a] = b\<close> one after the other; \<open>False\<close> when one raises.\<close>

fun mem_set_seq :: "8 word list \<Rightarrow> (int \<times> int) list \<Rightarrow> bool \<times> 8 word list" where
  "mem_set_seq m [] = (True, m)"
| "mem_set_seq m ((a, v) # avs) =
     (case py_set m a (byte (v AND 0xFF)) of
        None \<Rightarrow> (False, m)
      | Some m' \<Rightarrow> mem_set_seq m' avs)"

text \<open>
  The bodies the classes share. \<open>err\<close> is what an \<open>IndexError\<close> becomes: \<open>RAM\<close> turns it into a
  \<open>MemoryAccessError\<close>, the checked classes do not catch it.
\<close>

definition mem_load_byte :: "exn \<Rightarrow> int \<Rightarrow> bool \<Rightarrow> (ram, int) py" where
  "mem_load_byte err addr sgnd = py_lift (\<lambda>R.
     case py_get (memory R) addr of
       None \<Rightarrow> Inl err
     | Some b \<Rightarrow> Inr (sign8 sgnd (uint b)))"

definition mem_load_half :: "exn \<Rightarrow> int \<Rightarrow> bool \<Rightarrow> (ram, int) py" where
  "mem_load_half err addr sgnd = py_lift (\<lambda>R.
     case do { b0 \<leftarrow> py_get (memory R) addr; b1 \<leftarrow> py_get (memory R) (addr + 1);
               Some (le16 b0 b1) } of
       None \<Rightarrow> Inl err
     | Some val \<Rightarrow> Inr (sign16 sgnd val))"

definition mem_load_word :: "exn \<Rightarrow> int \<Rightarrow> (ram, int) py" where
  "mem_load_word err addr = py_lift (\<lambda>R.
     case (if addr AND 3 = 0 then mem32_get (memory R) (drop_bit 2 addr)
           else do { b0 \<leftarrow> py_get (memory R) addr; b1 \<leftarrow> py_get (memory R) (addr + 1);
                     b2 \<leftarrow> py_get (memory R) (addr + 2); b3 \<leftarrow> py_get (memory R) (addr + 3);
                     Some (le32 b0 b1 b2 b3) }) of
       None \<Rightarrow> Inl err
     | Some val \<Rightarrow> Inr val)"

definition mem_store_seq :: "exn \<Rightarrow> (int \<times> int) list \<Rightarrow> (ram, unit) py" where
  "mem_store_seq err avs R =
     (case mem_set_seq (memory R) avs of
        (ok, m) \<Rightarrow> (if ok then Inr () else Inl err, R\<lparr>memory := m\<rparr>))"

definition mem_store_byte :: "exn \<Rightarrow> int \<Rightarrow> int \<Rightarrow> (ram, unit) py" where
  "mem_store_byte err addr v = mem_store_seq err [(addr, v)]"

definition mem_store_half :: "exn \<Rightarrow> int \<Rightarrow> int \<Rightarrow> (ram, unit) py" where
  "mem_store_half err addr v =
     (let v = v AND 0xFFFF in mem_store_seq err [(addr, v), (addr + 1, drop_bit 8 v)])"

definition mem_store_word :: "exn \<Rightarrow> int \<Rightarrow> int \<Rightarrow> (ram, unit) py" where
  "mem_store_word err addr v =
     (let v = v AND 0xFFFFFFFF in
      if addr AND 3 = 0 then
        (\<lambda>R. case mem32_set (memory R) (drop_bit 2 addr) v of
               None \<Rightarrow> (Inl err, R)
             | Some m \<Rightarrow> (Inr (), R\<lparr>memory := m\<rparr>))
      else mem_store_seq err
        [(addr, v), (addr + 1, drop_bit 8 v), (addr + 2, drop_bit 16 v), (addr + 3, drop_bit 24 v)])"

text \<open>
  \<open>self.memory[lo:hi] = binary\<close>. The word view exports the buffer, so an assignment that would
  change the length of the array raises \<open>BufferError\<close>.
\<close>

definition mem_store_slice :: "exn \<Rightarrow> int \<Rightarrow> 8 word list \<Rightarrow> (ram, unit) py" where
  "mem_store_slice err addr bs R =
     (let m = memory R; lo = py_clip (length m) addr;
          hi = max lo (py_clip (length m) (addr + int (length bs)))
      in if hi - lo = length bs then (Inr (), R\<lparr>memory := take lo m @ bs @ drop hi m\<rparr>)
         else (Inl err, R))"

text \<open>
  \<open>load_cstring\<close> returns the bytes up to the NUL; the code decodes them as UTF-8, with
  replacement characters, for the logger or the host's file calls.
\<close>

definition mem_load_cstring :: "int \<Rightarrow> int \<Rightarrow> (ram, 8 word list) py" where
  "mem_load_cstring addr max_len = py_lift (\<lambda>R.
     let memory_slice = py_slice (memory R) addr (min (addr + max_len) (ram_size R)) in
     if 0 \<notin> set memory_slice then Inl (MemoryAccessError (CStringTooLong addr))
     else Inr (takeWhile (\<lambda>b. b \<noteq> 0) memory_slice))"

section \<open>Class RAM\<close>

definition RAM_load_byte :: "int \<Rightarrow> bool \<Rightarrow> (ram, int) py" where
  "RAM_load_byte addr = mem_load_byte (MemoryAccessError (OutOfBounds addr 1)) addr"

definition RAM_load_half :: "int \<Rightarrow> bool \<Rightarrow> (ram, int) py" where
  "RAM_load_half addr = mem_load_half (MemoryAccessError (OutOfBounds addr 2)) addr"

definition RAM_load_word :: "int \<Rightarrow> (ram, int) py" where
  "RAM_load_word addr = mem_load_word (MemoryAccessError (OutOfBounds addr 4)) addr"

definition RAM_store_byte :: "int \<Rightarrow> int \<Rightarrow> (ram, unit) py" where
  "RAM_store_byte addr = mem_store_byte (MemoryAccessError (OutOfBounds addr 1)) addr"

definition RAM_store_half :: "int \<Rightarrow> int \<Rightarrow> (ram, unit) py" where
  "RAM_store_half addr = mem_store_half (MemoryAccessError (OutOfBounds addr 2)) addr"

definition RAM_store_word :: "int \<Rightarrow> int \<Rightarrow> (ram, unit) py" where
  "RAM_store_word addr = mem_store_word (MemoryAccessError (OutOfBounds addr 4)) addr"

definition RAM_load_binary :: "int \<Rightarrow> int \<Rightarrow> (ram, 8 word list) py" where
  "RAM_load_binary addr n = py_lift (\<lambda>R. Inr (py_slice (memory R) addr (addr + n)))"

definition RAM_store_binary :: "int \<Rightarrow> 8 word list \<Rightarrow> (ram, unit) py" where
  "RAM_store_binary addr bs =
     mem_store_slice (MemoryAccessError (RangeOutOfBounds addr (addr + int (length bs)))) addr bs"

definition RAM_load_cstring :: "int \<Rightarrow> int \<Rightarrow> (ram, 8 word list) py" where
  "RAM_load_cstring addr max_len = mem_load_cstring addr max_len"

section \<open>Class SafeRAM\<close>

definition SafeRAM_check :: "int \<Rightarrow> int \<Rightarrow> (ram, unit) py" where
  "SafeRAM_check addr n = py_lift (\<lambda>R.
     if addr < 0 \<or> addr + n > ram_size R then Inl (MemoryAccessError (OutOfBounds addr n))
     else Inr ())"

definition SafeRAM_load_byte :: "int \<Rightarrow> bool \<Rightarrow> (ram, int) py" where
  "SafeRAM_load_byte addr sgnd =
     py_then (SafeRAM_check addr 1) (mem_load_byte IndexError addr sgnd)"

definition SafeRAM_load_half :: "int \<Rightarrow> bool \<Rightarrow> (ram, int) py" where
  "SafeRAM_load_half addr sgnd =
     py_then (SafeRAM_check addr 2) (mem_load_half IndexError addr sgnd)"

definition SafeRAM_load_word :: "int \<Rightarrow> (ram, int) py" where
  "SafeRAM_load_word addr = py_then (SafeRAM_check addr 4) (mem_load_word IndexError addr)"

definition SafeRAM_store_byte :: "int \<Rightarrow> int \<Rightarrow> (ram, unit) py" where
  "SafeRAM_store_byte addr v =
     py_then (SafeRAM_check addr 1) (mem_store_byte IndexError addr v)"

definition SafeRAM_store_half :: "int \<Rightarrow> int \<Rightarrow> (ram, unit) py" where
  "SafeRAM_store_half addr v =
     py_then (SafeRAM_check addr 2) (mem_store_half IndexError addr v)"

definition SafeRAM_store_word :: "int \<Rightarrow> int \<Rightarrow> (ram, unit) py" where
  "SafeRAM_store_word addr v =
     py_then (SafeRAM_check addr 4) (mem_store_word IndexError addr v)"

definition SafeRAM_load_binary :: "int \<Rightarrow> int \<Rightarrow> (ram, 8 word list) py" where
  "SafeRAM_load_binary addr n =
     py_then (SafeRAM_check addr n) (py_lift (\<lambda>R. Inr (py_slice (memory R) addr (addr + n))))"

definition SafeRAM_store_binary :: "int \<Rightarrow> 8 word list \<Rightarrow> (ram, unit) py" where
  "SafeRAM_store_binary addr bs =
     py_then (SafeRAM_check addr (int (length bs))) (mem_store_slice BufferError addr bs)"

definition SafeRAM_load_cstring :: "int \<Rightarrow> int \<Rightarrow> (ram, 8 word list) py" where
  "SafeRAM_load_cstring addr max_len =
     py_then (py_lift (\<lambda>R. if addr < 0 \<or> addr \<ge> ram_size R
                            then Inl (MemoryAccessError (CStringBadStart addr)) else Inr ()))
       (mem_load_cstring addr max_len)"

section \<open>Class SafeRAMOffset\<close>

definition SafeRAMOffset_check :: "int \<Rightarrow> int \<Rightarrow> (ram, unit) py" where
  "SafeRAMOffset_check addr n = py_lift (\<lambda>R.
     if addr < 0 \<or> addr + n > ram_size R
     then Inl (MemoryAccessError (OutOfBounds (base_addr R + addr) n)) else Inr ())"

definition SafeRAMOffset_load_byte :: "int \<Rightarrow> bool \<Rightarrow> (ram, int) py" where
  "SafeRAMOffset_load_byte addr sgnd R =
     (let addr = addr - base_addr R in
      py_then (SafeRAMOffset_check addr 1) (mem_load_byte IndexError addr sgnd) R)"

definition SafeRAMOffset_load_half :: "int \<Rightarrow> bool \<Rightarrow> (ram, int) py" where
  "SafeRAMOffset_load_half addr sgnd R =
     (let addr = addr - base_addr R in
      py_then (SafeRAMOffset_check addr 2) (mem_load_half IndexError addr sgnd) R)"

definition SafeRAMOffset_load_word :: "int \<Rightarrow> (ram, int) py" where
  "SafeRAMOffset_load_word addr R =
     (let addr = addr - base_addr R in
      py_then (SafeRAMOffset_check addr 4) (mem_load_word IndexError addr) R)"

definition SafeRAMOffset_store_byte :: "int \<Rightarrow> int \<Rightarrow> (ram, unit) py" where
  "SafeRAMOffset_store_byte addr v R =
     (let addr = addr - base_addr R in
      py_then (SafeRAMOffset_check addr 1) (mem_store_byte IndexError addr v) R)"

definition SafeRAMOffset_store_half :: "int \<Rightarrow> int \<Rightarrow> (ram, unit) py" where
  "SafeRAMOffset_store_half addr v R =
     (let addr = addr - base_addr R in
      py_then (SafeRAMOffset_check addr 2) (mem_store_half IndexError addr v) R)"

definition SafeRAMOffset_store_word :: "int \<Rightarrow> int \<Rightarrow> (ram, unit) py" where
  "SafeRAMOffset_store_word addr v R =
     (let addr = addr - base_addr R in
      py_then (SafeRAMOffset_check addr 4) (mem_store_word IndexError addr v) R)"

definition SafeRAMOffset_load_binary :: "int \<Rightarrow> int \<Rightarrow> (ram, 8 word list) py" where
  "SafeRAMOffset_load_binary addr n R =
     (let addr = addr - base_addr R in
      py_then (SafeRAMOffset_check addr n)
        (py_lift (\<lambda>R. Inr (py_slice (memory R) addr (addr + n)))) R)"

definition SafeRAMOffset_store_binary :: "int \<Rightarrow> 8 word list \<Rightarrow> (ram, unit) py" where
  "SafeRAMOffset_store_binary addr bs R =
     (let addr = addr - base_addr R in
      py_then (SafeRAMOffset_check addr (int (length bs))) (mem_store_slice BufferError addr bs) R)"

definition SafeRAMOffset_load_cstring :: "int \<Rightarrow> int \<Rightarrow> (ram, 8 word list) py" where
  "SafeRAMOffset_load_cstring addr max_len R =
     (let addr = addr - base_addr R in
      py_then (py_lift (\<lambda>R. if addr < 0 \<or> addr \<ge> ram_size R
                             then Inl (MemoryAccessError (CStringBadStart addr)) else Inr ()))
        (mem_load_cstring addr max_len) R)"

section \<open>Bytes and words\<close>

lemma byte_and_FF [simp]: "byte (v AND 0xFF) = byte v"
  by (rule bit_word_eqI) (auto simp: bit_simps bits)

lemma le16_bytes: "le16 (byte v) (byte (drop_bit 8 v)) = take_bit 16 v"
  unfolding le16_def uint_word_of_int_eq
  by (rule bit_eqI) (auto simp: bit_simps)

lemma le32_bytes:
  "le32 (byte v) (byte (drop_bit 8 v)) (byte (drop_bit 16 v)) (byte (drop_bit 24 v)) = take_bit 32 v"
proof (rule bit_eqI)
  fix n :: nat
  consider "n < 8" | "8 \<le> n" "n < 16" | "16 \<le> n" "n < 24" | "24 \<le> n" by linarith
  then show "bit (le32 (byte v) (byte (drop_bit 8 v)) (byte (drop_bit 16 v)) (byte (drop_bit 24 v))) n
    = bit (take_bit 32 v) n"
    unfolding le32_def uint_word_of_int_eq by cases (auto simp: bit_simps)
qed

lemma take_bit_uint_byte: "8 \<le> n \<Longrightarrow> take_bit n (uint (b :: 8 word)) = uint b"
proof -
  assume "8 \<le> n"
  have "uint b < 2 ^ 8" using uint_lt2p [of b] by simp
  also have "(2 ^ 8 :: int) \<le> 2 ^ n" using \<open>8 \<le> n\<close> by (rule power_increasing) simp
  finally show ?thesis by (simp add: take_bit_int_eq_self_iff)
qed

lemma le16_take_bit: "take_bit 16 (le16 b0 b1) = le16 b0 b1"
  by (simp add: le16_def take_bit_push_bit take_bit_uint_byte)
lemma le32_take_bit: "take_bit 32 (le32 b0 b1 b2 b3) = le32 b0 b1 b2 b3"
  by (simp add: le32_def take_bit_push_bit take_bit_uint_byte)

definition put_bytes :: "'a list \<Rightarrow> nat \<Rightarrow> 'a list \<Rightarrow> 'a list" where
  "put_bytes m k bs = take k m @ bs @ drop (k + length bs) m"

lemma length_put_bytes [simp]: "k + length bs \<le> length m \<Longrightarrow> length (put_bytes m k bs) = length m"
  by (simp add: put_bytes_def)

lemma nth_put_bytes:
  "k + length bs \<le> length m \<Longrightarrow> i < length m \<Longrightarrow>
   put_bytes m k bs ! i = (if k \<le> i \<and> i < k + length bs then bs ! (i - k) else m ! i)"
  by (auto simp: put_bytes_def nth_append)

lemma put_bytes_Cons:
  "k + length (b # bs) \<le> length m \<Longrightarrow> put_bytes m k (b # bs) = put_bytes (m[k := b]) (Suc k) bs"
  by (rule nth_equalityI) (auto simp: nth_put_bytes nth_list_update nth_Cons' )

lemma put_bytes_Nil [simp]: "put_bytes m k [] = m"
  by (simp add: put_bytes_def)

lemma mem_set_seq_in:
  "0 \<le> a \<Longrightarrow> a + int (length vs) \<le> int (length m) \<Longrightarrow>
   mem_set_seq m (zip (map (\<lambda>i. a + int i) [0..<length vs]) vs) = (True, put_bytes m (nat a) (map byte vs))"
proof (induction vs arbitrary: a m)
  case Nil then show ?case by simp
next
  case (Cons v vs)
  have eq: "map (\<lambda>i. a + int i) [0..<Suc (length vs)] = a # map (\<lambda>i. (a + 1) + int i) [0..<length vs]"
    by (simp add: map_upt_Suc del: upt_Suc)
  have na: "nat (a + 1) = Suc (nat a)" using Cons.prems by simp
  show ?case
    using Cons.prems Cons.IH [of "a + 1" "m[nat a := byte v]"]
    by (simp add: eq py_set_in put_bytes_Cons na del: upt_Suc)
qed

definition word_bytes :: "int \<Rightarrow> 8 word list" where
  "word_bytes v = [byte v, byte (drop_bit 8 v), byte (drop_bit 16 v), byte (drop_bit 24 v)]"
definition half_bytes :: "int \<Rightarrow> 8 word list" where
  "half_bytes v = [byte v, byte (drop_bit 8 v)]"

lemma length_word_bytes [simp]: "length (word_bytes v) = 4" by (simp add: word_bytes_def)
lemma length_half_bytes [simp]: "length (half_bytes v) = 2" by (simp add: half_bytes_def)

lemma nth_word_bytes [simp]:
  "word_bytes v ! 0 = byte v" "word_bytes v ! Suc 0 = byte (drop_bit 8 v)"
  "word_bytes v ! 2 = byte (drop_bit 16 v)" "word_bytes v ! 3 = byte (drop_bit 24 v)"
  by (simp_all add: word_bytes_def)

lemma nth_half_bytes [simp]:
  "half_bytes v ! 0 = byte v" "half_bytes v ! Suc 0 = byte (drop_bit 8 v)"
  by (simp_all add: half_bytes_def)

lemma byte_take_bit: "n + 8 \<le> k \<Longrightarrow> byte (drop_bit n (take_bit k v)) = byte (drop_bit n v)"
  by (rule bit_word_eqI) (auto simp: bit_simps)

lemma byte_take_bit0: "8 \<le> k \<Longrightarrow> byte (take_bit k v) = byte v"
  using byte_take_bit [of 0 k v] by simp

lemma word_bytes_take_bit [simp]: "word_bytes (take_bit 32 v) = word_bytes v"
  by (simp add: word_bytes_def byte_take_bit byte_take_bit0)

lemma half_bytes_take_bit [simp]: "half_bytes (take_bit 16 v) = half_bytes v"
  by (simp add: half_bytes_def byte_take_bit byte_take_bit0)

lemma put_bytes4:
  "k + 4 \<le> length m \<Longrightarrow> 
   m[k := a, Suc k := b, Suc (Suc k) := c, k + 3 := d] = put_bytes m k [a, b, c, d]"
  by (simp add: put_bytes_Cons numeral_3_eq_3)

lemma aligned_index:
  fixes a :: int
  assumes "0 \<le> a" "a AND 3 = 0"
  shows "4 * nat (drop_bit 2 a) = nat a"
proof -
  have "a mod 4 = 0" using assms(2) by (simp add: bits take_bit_eq_mod)
  then have "4 * (a div 4) = a" by presburger
  with assms(1) have "nat a = nat (4 * (a div 4))" by simp
  also have "\<dots> = 4 * nat (a div 4)" using assms(1) by (simp add: nat_mult_distrib)
  finally show ?thesis by (simp add: drop_bit_eq_div)
qed

lemma aligned_py_index:
  assumes "0 \<le> a" "a AND 3 = 0" "a + 4 \<le> int n"
  shows "py_index (n div 4) (drop_bit 2 a) = Some (nat (drop_bit 2 a))"
proof -
  have "a div 4 < int (n div 4)" using assms(3) by presburger
  then show ?thesis using assms(1) by (simp add: drop_bit_eq_div)
qed


definition ram_valid :: "ram \<Rightarrow> int \<Rightarrow> nat \<Rightarrow> bool" where
  "ram_valid R a n \<longleftrightarrow> 0 \<le> a \<and> a + int n \<le> int (length (memory R))"

definition ram_put :: "ram \<Rightarrow> int \<Rightarrow> 8 word list \<Rightarrow> ram" where
  "ram_put R a bs = R\<lparr>memory := put_bytes (memory R) (nat a) bs\<rparr>"

abbreviation ram_byte :: "ram \<Rightarrow> int \<Rightarrow> 8 word" where
  "ram_byte R a \<equiv> memory R ! nat a"

lemma mem_load_byte_valid:
  "ram_valid R a 1 \<Longrightarrow> mem_load_byte err a s R = (Inr (sign8 s (uint (ram_byte R a))), R)"
  by (simp add: mem_load_byte_def ram_valid_def py_defs py_get_in)

lemma nat_add_numeral: "0 \<le> a \<Longrightarrow> nat (a + 1) = Suc (nat a)"  "0 \<le> a \<Longrightarrow> nat (a + numeral k) = nat a + numeral k"
  by (auto simp: nat_add_distrib)

lemma mem_load_half_valid:
  "ram_valid R a 2 \<Longrightarrow>
   mem_load_half err a s R = (Inr (sign16 s (le16 (ram_byte R a) (ram_byte R (a + 1)))), R)"
  by (simp add: mem_load_half_def ram_valid_def py_defs py_get_in)

lemma mem_load_word_valid:
  assumes "ram_valid R a 4"
  shows "mem_load_word err a R =
    (Inr (le32 (ram_byte R a) (ram_byte R (a + 1)) (ram_byte R (a + 2)) (ram_byte R (a + 3))), R)"
proof (cases "a AND 3 = 0")
  case True
  with assms have "py_index (length (memory R) div 4) (drop_bit 2 a) = Some (nat (drop_bit 2 a))"
    and "4 * nat (drop_bit 2 a) = nat a"
    by (auto simp: ram_valid_def intro: aligned_py_index aligned_index)
  with True assms show ?thesis
    by (simp add: mem_load_word_def mem32_get_def ram_valid_def py_defs nat_add_numeral)
next
  case False
  with assms show ?thesis
    by (simp add: mem_load_word_def ram_valid_def py_defs py_get_in)
qed

lemma mem_store_byte_valid:
  "ram_valid R a 1 \<Longrightarrow> mem_store_byte err a v R = (Inr (), ram_put R a [byte v])"
  using mem_set_seq_in [of a "[v]" "memory R"]
  by (simp add: mem_store_byte_def mem_store_seq_def ram_valid_def ram_put_def)

lemma mem_store_half_valid:
  assumes "ram_valid R a 2"
  shows "mem_store_half err a v R = (Inr (), ram_put R a (half_bytes v))"
  using assms mem_set_seq_in [of a "[v AND 65535, drop_bit 8 (v AND 65535)]" "memory R"]
  by (simp add: mem_store_half_def mem_store_seq_def ram_valid_def ram_put_def half_bytes_def bits
      byte_take_bit byte_take_bit0 upt_rec Let_def)

lemma mem_store_word_valid:
  assumes "ram_valid R a 4"
  shows "mem_store_word err a v R = (Inr (), ram_put R a (word_bytes v))"
proof (cases "a AND 3 = 0")
  case True
  with assms have "py_index (length (memory R) div 4) (drop_bit 2 a) = Some (nat (drop_bit 2 a))"
    and "4 * nat (drop_bit 2 a) = nat a"
    by (auto simp: ram_valid_def intro: aligned_py_index aligned_index)
  moreover have "nat a + 4 \<le> length (memory R)" using assms by (auto simp: ram_valid_def)
  ultimately show ?thesis using True assms
    by (simp add: mem_store_word_def mem32_set_def ram_valid_def ram_put_def word_bytes_def bits
        byte_take_bit byte_take_bit0 put_bytes4 Let_def)
next
  case False
  let ?v = "v AND 4294967295"
  from False assms mem_set_seq_in [of a "[?v, drop_bit 8 ?v, drop_bit 16 ?v, drop_bit 24 ?v]" "memory R"]
  show ?thesis
    by (simp add: mem_store_word_def mem_store_seq_def ram_valid_def ram_put_def word_bytes_def bits
      byte_take_bit byte_take_bit0 upt_rec Let_def)
qed

section \<open>The interface of a little-endian memory\<close>

locale le_memory =
  fixes invar :: "'r \<Rightarrow> bool"
    and valid :: "'r \<Rightarrow> int \<Rightarrow> nat \<Rightarrow> bool"
    and byte_at :: "'r \<Rightarrow> int \<Rightarrow> 8 word"
    and put :: "'r \<Rightarrow> int \<Rightarrow> 8 word list \<Rightarrow> 'r"
    and load_byte :: "int \<Rightarrow> bool \<Rightarrow> ('r, int) py"
    and load_half :: "int \<Rightarrow> bool \<Rightarrow> ('r, int) py"
    and load_word :: "int \<Rightarrow> ('r, int) py"
    and store_byte :: "int \<Rightarrow> int \<Rightarrow> ('r, unit) py"
    and store_half :: "int \<Rightarrow> int \<Rightarrow> ('r, unit) py"
    and store_word :: "int \<Rightarrow> int \<Rightarrow> ('r, unit) py"
  assumes valid_bytes: "0 < n \<Longrightarrow> valid r a n \<longleftrightarrow> (\<forall>i<n. valid r (a + int i) 1)"
    and load_byte: "invar r \<Longrightarrow> valid r a 1 \<Longrightarrow>
      load_byte a s r = (Inr (sign8 s (uint (byte_at r a))), r)"
    and load_half: "invar r \<Longrightarrow> valid r a 2 \<Longrightarrow>
      load_half a s r = (Inr (sign16 s (le16 (byte_at r a) (byte_at r (a + 1)))), r)"
    and load_word: "invar r \<Longrightarrow> valid r a 4 \<Longrightarrow>
      load_word a r = (Inr (le32 (byte_at r a) (byte_at r (a + 1)) (byte_at r (a + 2)) (byte_at r (a + 3))), r)"
    and store_byte: "invar r \<Longrightarrow> valid r a 1 \<Longrightarrow> store_byte a v r = (Inr (), put r a [byte v])"
    and store_half: "invar r \<Longrightarrow> valid r a 2 \<Longrightarrow> store_half a v r = (Inr (), put r a (half_bytes v))"
    and store_word: "invar r \<Longrightarrow> valid r a 4 \<Longrightarrow> store_word a v r = (Inr (), put r a (word_bytes v))"
    and invar_put: "invar r \<Longrightarrow> valid r a (length bs) \<Longrightarrow> invar (put r a bs)"
    and valid_put: "invar r \<Longrightarrow> valid r a (length bs) \<Longrightarrow> valid (put r a bs) = valid r"
    and byte_at_put: "invar r \<Longrightarrow> valid r a (length bs) \<Longrightarrow> valid r x 1 \<Longrightarrow>
      byte_at (put r a bs) x =
        (if a \<le> x \<and> x < a + int (length bs) then bs ! nat (x - a) else byte_at r x)"
begin

lemma valid2: "valid r a 2 \<longleftrightarrow> valid r a 1 \<and> valid r (a + 1) 1"
  using valid_bytes [of 2 r a] by (auto simp: less_2_cases_iff)

lemma valid4: "valid r a 4 \<longleftrightarrow> valid r a 1 \<and> valid r (a + 1) 1 \<and> valid r (a + 2) 1 \<and> valid r (a + 3) 1"
proof -
  have "(\<forall>i<4. valid r (a + int i) 1) \<longleftrightarrow> (\<forall>i\<in>{0,1,2,3}. valid r (a + int i) 1)"
    by (rule iffI) (auto simp: numeral_eq_Suc less_Suc_eq)
  then show ?thesis using valid_bytes [of 4 r a] by simp
qed

lemma load_store_word:
  assumes "invar r" and "valid r a 4"
  shows "load_word a (snd (store_word a v r)) = (Inr (take_bit 32 v), put r a (word_bytes v))"
proof -
  have "invar (put r a (word_bytes v))" "valid (put r a (word_bytes v)) a 4"
    using assms by (simp_all add: invar_put valid_put)
  then show ?thesis
    using assms by (simp add: store_word load_word byte_at_put valid4 le32_bytes)
qed

lemma load_store_half:
  assumes "invar r" and "valid r a 2"
  shows "load_half a s (snd (store_half a v r)) =
    (Inr (sign16 s (take_bit 16 v)), put r a (half_bytes v))"
proof -
  have "invar (put r a (half_bytes v))" "valid (put r a (half_bytes v)) a 2"
    using assms by (simp_all add: invar_put valid_put)
  then show ?thesis
    using assms by (simp add: store_half load_half byte_at_put valid2 le16_bytes)
qed

lemma load_store_byte:
  assumes "invar r" and "valid r a 1"
  shows "load_byte a s (snd (store_byte a v r)) =
    (Inr (sign8 s (take_bit 8 v)), put r a [byte v])"
proof -
  have "invar (put r a [byte v])" "valid (put r a [byte v]) a 1"
    using assms by (simp_all add: invar_put valid_put)
  then show ?thesis
    using assms by (simp add: store_byte load_byte byte_at_put uint_word_of_int_eq)
qed

lemma load_word_put_frame:
  assumes "invar r" and "valid r a (length bs)" and "valid r b 4" and "b + 4 \<le> a \<or> a + int (length bs) \<le> b"
  shows "fst (load_word b (put r a bs)) = fst (load_word b r)"
proof -
  have "invar (put r a bs)" "valid (put r a bs) b 4"
    using assms by (simp_all add: invar_put valid_put)
  moreover have "byte_at (put r a bs) x = byte_at r x" if "x \<in> {b, b + 1, b + 2, b + 3}" for x
    using that assms by (auto simp: byte_at_put valid4)
  ultimately show ?thesis
    using assms by (simp add: load_word)
qed

lemma load_byte_of_word:
  assumes "invar r" and "valid r a 4" and "i < 4"
  shows "fst (load_byte (a + int i) False (snd (store_word a v r))) = Inr (take_bit 8 (drop_bit (8 * i) v))"
proof -
  have iv: "invar (put r a (word_bytes v))" and vi: "valid r (a + int i) 1"
    using assms valid_bytes [of 4 r a] by (simp_all add: invar_put)
  then have "valid (put r a (word_bytes v)) (a + int i) 1"
    using assms by (simp add: valid_put)
  moreover have "word_bytes v ! i = byte (drop_bit (8 * i) v)"
    using assms(3) by (auto simp: word_bytes_def numeral_eq_Suc less_Suc_eq)
  ultimately show ?thesis
    using assms iv vi by (simp add: store_word load_byte byte_at_put sign8_def uint_word_of_int_eq)
qed

end

text \<open>The contract of a memory that checks its bounds: an invalid access raises and changes nothing.\<close>

locale checked_memory = le_memory +
  assumes load_byte_bad: "invar r \<Longrightarrow> \<not> valid r a 1 \<Longrightarrow>
      load_byte a s r = (Inl (MemoryAccessError (OutOfBounds a 1)), r)"
    and load_half_bad: "invar r \<Longrightarrow> \<not> valid r a 2 \<Longrightarrow>
      load_half a s r = (Inl (MemoryAccessError (OutOfBounds a 2)), r)"
    and load_word_bad: "invar r \<Longrightarrow> \<not> valid r a 4 \<Longrightarrow>
      load_word a r = (Inl (MemoryAccessError (OutOfBounds a 4)), r)"
    and store_byte_bad: "invar r \<Longrightarrow> \<not> valid r a 1 \<Longrightarrow>
      store_byte a v r = (Inl (MemoryAccessError (OutOfBounds a 1)), r)"
    and store_half_bad: "invar r \<Longrightarrow> \<not> valid r a 2 \<Longrightarrow>
      store_half a v r = (Inl (MemoryAccessError (OutOfBounds a 2)), r)"
    and store_word_bad: "invar r \<Longrightarrow> \<not> valid r a 4 \<Longrightarrow>
      store_word a v r = (Inl (MemoryAccessError (OutOfBounds a 4)), r)"
begin

lemma load_word_total: "invar r \<Longrightarrow>
    fst (load_word a r) = (if valid r a 4 then Inr (le32 (byte_at r a) (byte_at r (a + 1)) (byte_at r (a + 2)) (byte_at r (a + 3)))
      else Inl (MemoryAccessError (OutOfBounds a 4)))"
  by (simp add: load_word load_word_bad)

lemma store_word_fault_iff:
  assumes "invar r"
  shows "fst (store_word a v r) = Inr () \<longleftrightarrow> valid r a 4"
    and "fst (store_word a v r) \<noteq> Inr () \<Longrightarrow> snd (store_word a v r) = r"
  using assms by (cases "valid r a 4"; simp add: store_word store_word_bad)+

lemma invar_store_word: "invar r \<Longrightarrow> invar (snd (store_word a v r))"
  by (cases "valid r a 4") (simp_all add: store_word store_word_bad invar_put)

lemma invar_store_half: "invar r \<Longrightarrow> invar (snd (store_half a v r))"
  by (cases "valid r a 2") (simp_all add: store_half store_half_bad invar_put)

lemma invar_store_byte: "invar r \<Longrightarrow> invar (snd (store_byte a v r))"
  by (cases "valid r a 1") (simp_all add: store_byte store_byte_bad invar_put)

end

definition ram_wf :: "ram \<Rightarrow> bool" where
  "ram_wf R \<longleftrightarrow> 0 \<le> ram_size R \<and> int (length (memory R)) = ram_size R + 4 \<and> 4 dvd length (memory R)"

definition safe_valid :: "ram \<Rightarrow> int \<Rightarrow> nat \<Rightarrow> bool" where
  "safe_valid R a n \<longleftrightarrow> 0 \<le> a \<and> a + int n \<le> ram_size R"

definition offset_valid :: "ram \<Rightarrow> int \<Rightarrow> nat \<Rightarrow> bool" where
  "offset_valid R a n \<longleftrightarrow> safe_valid R (a - base_addr R) n"

lemma range_bytes: "0 < n \<Longrightarrow> (0 \<le> a \<and> a + int n \<le> L) \<longleftrightarrow> (\<forall>i<n. 0 \<le> a + int i \<and> a + int i + 1 \<le> L)"
proof
  assume "0 < n" and "\<forall>i<n. 0 \<le> a + int i \<and> a + int i + 1 \<le> L"
  from this(1) spec [OF this(2), of 0] spec [OF this(2), of "n - 1"]
  show "0 \<le> a \<and> a + int n \<le> L" by (auto simp: of_nat_diff)
qed auto

lemma ram_put_simps [simp]:
  "ram_size (ram_put R a bs) = ram_size R" "base_addr (ram_put R a bs) = base_addr R"
  "ram_class (ram_put R a bs) = ram_class R"
  by (simp_all add: ram_put_def)

lemma length_ram_put [simp]:
  "ram_valid R a (length bs) \<Longrightarrow> length (memory (ram_put R a bs)) = length (memory R)"
  by (auto simp: ram_put_def ram_valid_def)

lemma ram_byte_put:
  "ram_valid R a (length bs) \<Longrightarrow> ram_valid R x 1 \<Longrightarrow>
   ram_byte (ram_put R a bs) x = (if a \<le> x \<and> x < a + int (length bs) then bs ! nat (x - a) else ram_byte R x)"
  by (auto simp: ram_put_def ram_valid_def nth_put_bytes nat_diff_distrib)

lemma safe_imp_ram_valid: "ram_wf R \<Longrightarrow> safe_valid R a n \<Longrightarrow> ram_valid R a n"
  by (simp add: ram_wf_def safe_valid_def ram_valid_def)

lemmas RAM_defs = RAM_load_byte_def RAM_load_half_def RAM_load_word_def
  RAM_store_byte_def RAM_store_half_def RAM_store_word_def
lemmas SafeRAM_defs = SafeRAM_load_byte_def SafeRAM_load_half_def SafeRAM_load_word_def
  SafeRAM_store_byte_def SafeRAM_store_half_def SafeRAM_store_word_def SafeRAM_check_def
lemmas SafeRAMOffset_defs = SafeRAMOffset_load_byte_def SafeRAMOffset_load_half_def SafeRAMOffset_load_word_def
  SafeRAMOffset_store_byte_def SafeRAMOffset_store_half_def SafeRAMOffset_store_word_def SafeRAMOffset_check_def
lemmas mem_valid = mem_load_byte_valid mem_load_half_valid mem_load_word_valid
  mem_store_byte_valid mem_store_half_valid mem_store_word_valid

interpretation base_ram: le_memory ram_wf ram_valid ram_byte ram_put
  RAM_load_byte RAM_load_half RAM_load_word RAM_store_byte RAM_store_half RAM_store_word
proof (unfold_locales, goal_cases)
  case (1 n r a) then show ?case unfolding ram_valid_def by (simp add: range_bytes)
next
  case (8 r a bs) then show ?case by (simp add: ram_wf_def)
next
  case (9 r a bs) then show ?case by (intro ext) (simp only: ram_valid_def length_ram_put)
qed (simp_all add: RAM_defs mem_valid ram_byte_put)

interpretation safe_ram: checked_memory ram_wf safe_valid ram_byte ram_put
  SafeRAM_load_byte SafeRAM_load_half SafeRAM_load_word
  SafeRAM_store_byte SafeRAM_store_half SafeRAM_store_word
proof (unfold_locales, goal_cases)
  case (1 n r a) then show ?case unfolding safe_valid_def by (simp add: range_bytes)
next
  case (8 r a bs) then show ?case using safe_imp_ram_valid [of r a "length bs"] by (simp add: ram_wf_def)
next
  case (9 r a bs) then show ?case by (intro ext) (simp add: safe_valid_def)
next
  case (10 r a bs x) then show ?case by (intro ram_byte_put safe_imp_ram_valid)
qed (auto simp: SafeRAM_defs py_defs mem_valid safe_valid_def ram_wf_def ram_valid_def)

interpretation offset_ram: checked_memory ram_wf offset_valid "\<lambda>R a. ram_byte R (a - base_addr R)"
  "\<lambda>R a. ram_put R (a - base_addr R)"
  SafeRAMOffset_load_byte SafeRAMOffset_load_half SafeRAMOffset_load_word
  SafeRAMOffset_store_byte SafeRAMOffset_store_half SafeRAMOffset_store_word
proof (unfold_locales, goal_cases)
  case (1 n r a) then show ?case unfolding offset_valid_def safe_valid_def
    using range_bytes [of n "a - base_addr r" "ram_size r"] by (simp add: algebra_simps)
next
  case (8 r a bs) then show ?case
    using safe_imp_ram_valid [of r "a - base_addr r" "length bs"] by (simp add: ram_wf_def offset_valid_def)
next
  case (9 r a bs) then show ?case by (intro ext) (simp add: offset_valid_def safe_valid_def)
next
  case (10 r a bs x) then show ?case
    using ram_byte_put [of r "a - base_addr r" bs "x - base_addr r"]
    by (simp add: safe_imp_ram_valid offset_valid_def)
qed (auto simp: SafeRAMOffset_defs py_defs mem_valid offset_valid_def safe_valid_def ram_wf_def ram_valid_def algebra_simps Let_def)

section \<open>Invariants of the memory operations\<close>

text \<open>
  What no operation may change, raising or not: the length of the byte array (which the exported
  word view fixes), the nominal size, the class and the base address.
\<close>

definition ram_shape :: "ram \<Rightarrow> nat \<times> int \<times> ram_class \<times> int" where
  "ram_shape R = (length (memory R), ram_size R, ram_class R, base_addr R)"

abbreviation keeps_shape :: "(ram, 'a) py \<Rightarrow> bool" where
  "keeps_shape m \<equiv> \<forall>sh. py_keeps (\<lambda>R. ram_shape R = sh) m"

lemma keeps_shapeI: "(\<And>R. ram_shape (snd (m R)) = ram_shape R) \<Longrightarrow> keeps_shape m"
  by (simp add: py_keeps_def)

lemma keeps_shapeD: "keeps_shape m \<Longrightarrow> ram_shape (snd (m R)) = ram_shape R"
  unfolding py_keeps_def by blast

lemma keeps_shape_at:
  assumes "\<And>R. keeps_shape (g R)" shows "keeps_shape (\<lambda>R. g R R)"
  using assms by (intro keeps_shapeI) (rule keeps_shapeD)

lemma mem_set_seq_length: "length (snd (mem_set_seq m avs)) = length m"
  by (induction m avs rule: mem_set_seq.induct)
     (auto split: option.split dest: py_set_length)

lemma keeps_shape_mem:
  "keeps_shape (mem_load_byte err a s)" "keeps_shape (mem_load_half err a s)"
  "keeps_shape (mem_load_word err a)" "keeps_shape (mem_store_seq err avs)"
  "keeps_shape (mem_store_byte err a v)" "keeps_shape (mem_store_half err a v)"
  "keeps_shape (mem_load_cstring a n)"
proof -
  show seq: "keeps_shape (mem_store_seq err avs)" for err avs
    by (rule keeps_shapeI)
       (simp add: mem_store_seq_def ram_shape_def mem_set_seq_length split_beta)
  show "keeps_shape (mem_store_byte err a v)" "keeps_shape (mem_store_half err a v)"
    unfolding mem_store_byte_def mem_store_half_def Let_def by (rule seq)+
qed (simp_all add: mem_load_byte_def mem_load_half_def mem_load_word_def mem_load_cstring_def
       py_keeps_lift)

lemma keeps_shape_store_word: "keeps_shape (mem_store_word err a v)"
proof (cases "a AND 3 = 0")
  case True
  then show ?thesis
    by (intro keeps_shapeI)
       (auto simp: mem_store_word_def mem32_set_def ram_shape_def Let_def split: option.split)
next
  case False
  then have eq: "mem_store_word err a v = mem_store_seq err
      [(a, v AND 0xFFFFFFFF), (a + 1, drop_bit 8 (v AND 0xFFFFFFFF)),
       (a + 2, drop_bit 16 (v AND 0xFFFFFFFF)), (a + 3, drop_bit 24 (v AND 0xFFFFFFFF))]"
    by (simp add: mem_store_word_def Let_def)
  show ?thesis unfolding eq by (rule keeps_shape_mem(4))
qed

lemma keeps_shape_store_slice: "keeps_shape (mem_store_slice err a bs)"
proof (rule keeps_shapeI)
  fix R
  show "ram_shape (snd (mem_store_slice err a bs R)) = ram_shape R"
    using py_clip_le [of "length (memory R)" a]
      py_clip_le [of "length (memory R)" "a + int (length bs)"]
    by (auto simp: mem_store_slice_def ram_shape_def Let_def)
qed

lemmas keeps_shape_raw = keeps_shape_mem keeps_shape_store_word keeps_shape_store_slice

lemma keeps_shape_RAM:
  "keeps_shape (RAM_load_byte a s)" "keeps_shape (RAM_load_half a s)" "keeps_shape (RAM_load_word a)"
  "keeps_shape (RAM_store_byte a v)" "keeps_shape (RAM_store_half a v)" "keeps_shape (RAM_store_word a v)"
  "keeps_shape (RAM_load_binary a n)" "keeps_shape (RAM_store_binary a bs)"
  "keeps_shape (RAM_load_cstring a n)"
  by (simp_all add: RAM_defs RAM_load_binary_def RAM_store_binary_def RAM_load_cstring_def
      keeps_shape_raw py_keeps_lift)

lemma keeps_shape_SafeRAM:
  "keeps_shape (SafeRAM_load_byte a s)" "keeps_shape (SafeRAM_load_half a s)" "keeps_shape (SafeRAM_load_word a)"
  "keeps_shape (SafeRAM_store_byte a v)" "keeps_shape (SafeRAM_store_half a v)" "keeps_shape (SafeRAM_store_word a v)"
  "keeps_shape (SafeRAM_load_binary a n)" "keeps_shape (SafeRAM_store_binary a bs)"
  "keeps_shape (SafeRAM_load_cstring a n)"
  by (simp_all add: SafeRAM_defs SafeRAM_load_binary_def SafeRAM_store_binary_def SafeRAM_load_cstring_def
      keeps_shape_raw py_keeps_lift py_keeps_then)

lemma keeps_shape_Offset:
  "keeps_shape (SafeRAMOffset_load_byte a s)" "keeps_shape (SafeRAMOffset_load_half a s)" "keeps_shape (SafeRAMOffset_load_word a)"
  "keeps_shape (SafeRAMOffset_store_byte a v)" "keeps_shape (SafeRAMOffset_store_half a v)" "keeps_shape (SafeRAMOffset_store_word a v)"
  "keeps_shape (SafeRAMOffset_load_binary a n)" "keeps_shape (SafeRAMOffset_store_binary a bs)"
  "keeps_shape (SafeRAMOffset_load_cstring a n)"
  unfolding SafeRAMOffset_defs [abs_def] SafeRAMOffset_load_binary_def [abs_def]
    SafeRAMOffset_store_binary_def [abs_def] SafeRAMOffset_load_cstring_def [abs_def] Let_def
  by (rule keeps_shape_at, simp add: keeps_shape_raw py_keeps_lift py_keeps_then)+

lemma ram_wf_shape: "ram_shape R = ram_shape R' \<Longrightarrow> ram_wf R = ram_wf R'"
  by (auto simp: ram_shape_def ram_wf_def)

lemma four_dvd_nat: "4 dvd z \<Longrightarrow> 4 dvd nat z"
  by (cases "0 \<le> z") (auto simp: nat_mult_distrib )

lemma RAM_init_wf:
  "RAM_init rnd cls base sz init 4 = Inr R \<Longrightarrow> 0 \<le> sz \<Longrightarrow> ram_wf R"
  by (auto simp: RAM_init_def initialize_ram_def ram_wf_def Let_def nat_add_distrib four_dvd_nat split: if_splits option.splits)

lemma mem_store_slice_valid:
  "ram_valid R a (length bs) \<Longrightarrow> mem_store_slice err a bs R = (Inr (), ram_put R a bs)"
  by (simp add: mem_store_slice_def ram_valid_def ram_put_def put_bytes_def nat_add_distrib Let_def)

lemma mem_store_slice_bad:
  assumes "0 \<le> a" and "\<not> ram_valid R a (length bs)" and "bs \<noteq> []"
  shows "mem_store_slice err a bs R = (Inl err, R)"
  using assms by (auto simp: mem_store_slice_def ram_valid_def py_clip_def min_def Let_def split: if_splits)

lemma slice_ram_put:
  assumes "ram_valid R a (length bs)"
  shows "py_slice (memory (ram_put R a bs)) a (a + int (length bs)) = bs"
proof -
  have v: "0 \<le> a" "a + int (length bs) \<le> int (length (memory (ram_put R a bs)))"
    using assms by (auto simp: ram_valid_def)
  have "nat a \<le> length (memory R)" using assms by (auto simp: ram_valid_def)
  then show ?thesis
    by (simp add: py_slice_in [OF v]) (simp add: ram_put_def put_bytes_def min_absorb2)
qed

lemma takeWhile_in_list:
  assumes "x \<in> set xs"
  shows "\<exists>k < length xs. takeWhile (\<lambda>y. y \<noteq> x) xs = take k xs \<and> xs ! k = x \<and> x \<notin> set (take k xs)"
  using assms
proof (induction xs)
  case (Cons y ys)
  show ?case
  proof (cases "y = x")
    case True then show ?thesis by (intro exI [of _ 0]) simp
  next
    case False
    with Cons obtain k where "k < length ys" "takeWhile (\<lambda>y. y \<noteq> x) ys = take k ys" "ys ! k = x" "x \<notin> set (take k ys)" by auto
    with False show ?thesis by (intro exI [of _ "Suc k"]) simp
  qed
qed simp

lemma mem_load_cstring_ok:
  assumes "ram_wf R" and "0 \<le> a" and "0 \<le> n" and "fst (mem_load_cstring a n R) = Inr bs"
  shows "0 \<notin> set bs \<and> a + int (length bs) < ram_size R \<and> int (length bs) < n
    \<and> (\<forall>i < length bs. ram_byte R (a + int i) = bs ! i) \<and> ram_byte R (a + int (length bs)) = 0"
proof -
  let ?hi = "min (a + n) (ram_size R)"
  let ?sl = "py_slice (memory R) a ?hi"
  from assms(4) have z: "0 \<in> set ?sl" and bs: "bs = takeWhile (\<lambda>b. b \<noteq> 0) ?sl"
    by (auto simp: mem_load_cstring_def py_defs Let_def split: if_splits)
  obtain k where k: "k < length ?sl" "bs = take k ?sl" "?sl ! k = 0" "0 \<notin> set (take k ?sl)"
    using takeWhile_in_list [OF z] bs by auto
  have "py_clip (length (memory R)) a < py_clip (length (memory R)) ?hi"
  proof (rule ccontr)
    assume "\<not> py_clip (length (memory R)) a < py_clip (length (memory R)) ?hi"
    then have "?sl = []" by (simp add: py_slice_def)
    with z show False by simp
  qed
  moreover have hi0: "0 \<le> ?hi" "?hi \<le> int (length (memory R))"
    using assms(1-3) by (simp_all add: ram_wf_def)
  moreover have "py_clip (length (memory R)) a = nat (min (int (length (memory R))) a)"
    using assms(2) by (simp add: py_clip_def)
  ultimately have hi: "a < ?hi" "?hi \<le> int (length (memory R))"
    by (simp_all only: py_clip_in)
  have sl: "?sl = take (nat (?hi - a)) (drop (nat a) (memory R))"
    using py_slice_in [of a "nat (?hi - a)" "memory R"] hi assms(2) by simp
  have nth: "?sl ! i = ram_byte R (a + int i)" if "i < length ?sl" for i
    using that assms(2) sl hi by (simp add: nat_add_distrib)
  have len: "length ?sl = nat (?hi - a)" using hi assms(2) sl by simp
  show ?thesis using k nth len hi by auto
qed

section \<open>Properties\<close>

definition demo_ram :: "ram_class \<Rightarrow> ram" where
  "demo_ram cls = \<lparr>memory = replicate 20 0, ram_size = 16, ram_class = cls, base_addr = 0x80000000\<rparr>"

lemma demo_ram_wf [simp]: "ram_wf (demo_ram cls)"
  by (simp add: demo_ram_def ram_wf_def)

definition shift_fault :: "int \<Rightarrow> exn \<Rightarrow> exn" where
  "shift_fault d e = (case e of MemoryAccessError (OutOfBounds a n) \<Rightarrow> MemoryAccessError (OutOfBounds (d + a) n) | _ \<Rightarrow> e)"

text \<open>A word stored in a \<open>RAM\<close> at any in-range address, aligned (through the word view) or not
  (byte by byte), is read back modulo \<open>2 ^ 32\<close>, and every word that does not overlap it still reads
  as before.\<close>

lemma ram_word_roundtrip:
  assumes "ram_wf R" and "ram_valid R a 4"
  shows "fst (RAM_store_word a v R) = Inr ()
    \<and> fst (RAM_load_word a (snd (RAM_store_word a v R))) = Inr (v mod 2 ^ 32)
    \<and> (\<forall>b. ram_valid R b 4 \<and> (b + 4 \<le> a \<or> a + 4 \<le> b) \<longrightarrow>
          fst (RAM_load_word b (snd (RAM_store_word a v R))) = fst (RAM_load_word b R))"
proof -
  have "fst (RAM_load_word b (snd (RAM_store_word a v R))) = fst (RAM_load_word b R)"
    if "ram_valid R b 4" "b + 4 \<le> a \<or> a + 4 \<le> b" for b
    using assms that base_ram.load_word_put_frame [of R a "word_bytes v" b]
    by (simp add: base_ram.store_word)
  moreover have "fst (RAM_load_word a (snd (RAM_store_word a v R))) = Inr (v mod 2 ^ 32)"
    using base_ram.load_store_word [OF assms, of v] by (simp add: take_bit_eq_mod)
  ultimately show ?thesis
    using assms base_ram.store_word [OF assms, of v] by simp
qed

text \<open>C32. \<open>SafeRAM\<close> is safe: a load or store of any width succeeds exactly when all its bytes are
  inside the nominal size; otherwise it raises \<open>MemoryAccessError\<close> naming the address and the
  width, and the memory is unchanged.\<close>

theorem safe_ram_checked:
  assumes "ram_wf R"
  shows "(0 \<le> a \<and> a + 1 \<le> ram_size R \<longrightarrow> (\<exists>v. SafeRAM_load_byte a s R = (Inr v, R)) \<and> fst (SafeRAM_store_byte a w R) = Inr ())
    \<and> (0 \<le> a \<and> a + 2 \<le> ram_size R \<longrightarrow> (\<exists>v. SafeRAM_load_half a s R = (Inr v, R)) \<and> fst (SafeRAM_store_half a w R) = Inr ())
    \<and> (0 \<le> a \<and> a + 4 \<le> ram_size R \<longrightarrow> (\<exists>v. SafeRAM_load_word a R = (Inr v, R)) \<and> fst (SafeRAM_store_word a w R) = Inr ())
    \<and> (a < 0 \<or> ram_size R < a + 1 \<longrightarrow> SafeRAM_load_byte a s R = (Inl (MemoryAccessError (OutOfBounds a 1)), R)
          \<and> SafeRAM_store_byte a w R = (Inl (MemoryAccessError (OutOfBounds a 1)), R))
    \<and> (a < 0 \<or> ram_size R < a + 2 \<longrightarrow> SafeRAM_load_half a s R = (Inl (MemoryAccessError (OutOfBounds a 2)), R)
          \<and> SafeRAM_store_half a w R = (Inl (MemoryAccessError (OutOfBounds a 2)), R))
    \<and> (a < 0 \<or> ram_size R < a + 4 \<longrightarrow> SafeRAM_load_word a R = (Inl (MemoryAccessError (OutOfBounds a 4)), R)
          \<and> SafeRAM_store_word a w R = (Inl (MemoryAccessError (OutOfBounds a 4)), R))"
proof -
  have v: "safe_valid R a (Suc 0) = (0 \<le> a \<and> a + 1 \<le> ram_size R)" "safe_valid R a 2 = (0 \<le> a \<and> a + 2 \<le> ram_size R)"
    "safe_valid R a 4 = (0 \<le> a \<and> a + 4 \<le> ram_size R)"
    by (simp_all add: safe_valid_def)
  note ok = safe_ram.load_byte [OF assms] safe_ram.load_half [OF assms] safe_ram.load_word [OF assms]
    safe_ram.store_byte [OF assms] safe_ram.store_half [OF assms] safe_ram.store_word [OF assms]
  note bad = safe_ram.load_byte_bad [OF assms] safe_ram.load_half_bad [OF assms] safe_ram.load_word_bad [OF assms]
    safe_ram.store_byte_bad [OF assms] safe_ram.store_half_bad [OF assms] safe_ram.store_word_bad [OF assms]
  show ?thesis by (intro conjI impI) (simp_all add: ok bad v not_le)
qed

theorem safe_ram_checked_witness:
  "SafeRAM_store_word 13 7 (demo_ram SafeRAM) = (Inl (MemoryAccessError (OutOfBounds 13 4)), demo_ram SafeRAM)"
  using safe_ram_checked [OF demo_ram_wf, of 13 SafeRAM False 7] by (simp add: demo_ram_def)

text \<open>C31. \<open>SafeRAMOffset\<close> refines \<open>SafeRAM\<close>: an access at \<open>a\<close> is the access of a \<open>SafeRAM\<close> at
  \<open>a - base_addr\<close>, with the same value and the same new memory; only the address in the exception
  is the unshifted one.\<close>

theorem offset_ram_refines_safe_ram:
  assumes "ram_wf R" and "b = base_addr R"
  shows "SafeRAMOffset_load_byte a s R = map_prod (map_sum (shift_fault b) id) id (SafeRAM_load_byte (a - b) s R)
    \<and> SafeRAMOffset_load_half a s R = map_prod (map_sum (shift_fault b) id) id (SafeRAM_load_half (a - b) s R)
    \<and> SafeRAMOffset_load_word a R = map_prod (map_sum (shift_fault b) id) id (SafeRAM_load_word (a - b) R)
    \<and> SafeRAMOffset_store_byte a v R = map_prod (map_sum (shift_fault b) id) id (SafeRAM_store_byte (a - b) v R)
    \<and> SafeRAMOffset_store_half a v R = map_prod (map_sum (shift_fault b) id) id (SafeRAM_store_half (a - b) v R)
    \<and> SafeRAMOffset_store_word a v R = map_prod (map_sum (shift_fault b) id) id (SafeRAM_store_word (a - b) v R)"
proof -
  have v: "offset_valid R a n = safe_valid R (a - b) n" for n
    using assms(2) by (simp add: offset_valid_def)
  note O = offset_ram.load_byte [OF assms(1)] offset_ram.load_half [OF assms(1)] offset_ram.load_word [OF assms(1)]
    offset_ram.store_byte [OF assms(1)] offset_ram.store_half [OF assms(1)] offset_ram.store_word [OF assms(1)]
    offset_ram.load_byte_bad [OF assms(1)] offset_ram.load_half_bad [OF assms(1)] offset_ram.load_word_bad [OF assms(1)]
    offset_ram.store_byte_bad [OF assms(1)] offset_ram.store_half_bad [OF assms(1)] offset_ram.store_word_bad [OF assms(1)]
  note S = safe_ram.load_byte [OF assms(1)] safe_ram.load_half [OF assms(1)] safe_ram.load_word [OF assms(1)]
    safe_ram.store_byte [OF assms(1)] safe_ram.store_half [OF assms(1)] safe_ram.store_word [OF assms(1)]
    safe_ram.load_byte_bad [OF assms(1)] safe_ram.load_half_bad [OF assms(1)] safe_ram.load_word_bad [OF assms(1)]
    safe_ram.store_byte_bad [OF assms(1)] safe_ram.store_half_bad [OF assms(1)] safe_ram.store_word_bad [OF assms(1)]
  show ?thesis
    by (cases "safe_valid R (a - b) 1"; cases "safe_valid R (a - b) 2"; cases "safe_valid R (a - b) 4")
       (simp_all add: O S v shift_fault_def assms(2) [symmetric] algebra_simps)
qed

theorem offset_ram_refines_safe_ram_witness:
  "SafeRAMOffset_load_word 0x80000004 (demo_ram SafeRAMOffset)
     = map_prod (map_sum (shift_fault 0x80000000) id) id (SafeRAM_load_word 4 (demo_ram SafeRAMOffset))"
proof -
  have "0x80000000 = base_addr (demo_ram SafeRAMOffset)" by (simp add: demo_ram_def)
  from offset_ram_refines_safe_ram [OF demo_ram_wf this, of "0x80000004"] show ?thesis by simp
qed

text \<open>A block written by \<open>store_binary\<close> is what \<open>load_binary\<close> reads back; a non-empty block that
  does not fit raises \<open>MemoryAccessError\<close> (the exported word view forbids resizing) and leaves the
  memory as it was.\<close>

lemma ram_binary_roundtrip:
  assumes "0 \<le> a"
  shows "(a + int (length bs) \<le> int (length (memory R)) \<longrightarrow>
            fst (RAM_store_binary a bs R) = Inr ()
            \<and> fst (RAM_load_binary a (int (length bs)) (snd (RAM_store_binary a bs R))) = Inr bs)
    \<and> (int (length (memory R)) < a + int (length bs) \<and> bs \<noteq> [] \<longrightarrow>
            RAM_store_binary a bs R = (Inl (MemoryAccessError (RangeOutOfBounds a (a + int (length bs)))), R))"
proof -
  have v: "ram_valid R a (length bs) = (a + int (length bs) \<le> int (length (memory R)))"
    using assms by (simp add: ram_valid_def)
  show ?thesis
    using assms mem_store_slice_bad [of a R bs] slice_ram_put [of R a bs]
    by (auto simp: RAM_store_binary_def RAM_load_binary_def mem_store_slice_valid v py_defs)
qed

text \<open>\<open>load_cstring\<close> of the checked memory: when it returns, the bytes lie inside the memory, none
  of them is NUL, fewer than \<open>max_len\<close> were read and the next byte of the memory is the NUL.\<close>

lemma safe_ram_cstring:
  assumes "ram_wf R" and "0 \<le> n" and "fst (SafeRAM_load_cstring a n R) = Inr bs"
  shows "0 \<le> a \<and> a + int (length bs) < ram_size R \<and> int (length bs) < n \<and> 0 \<notin> set bs
    \<and> (\<forall>i < length bs. memory R ! nat (a + int i) = bs ! i)
    \<and> memory R ! nat (a + int (length bs)) = 0"
proof -
  from assms(3) have a: "0 \<le> a" and b: "fst (mem_load_cstring a n R) = Inr bs"
    by (auto simp: SafeRAM_load_cstring_def py_then_def py_bind_def py_lift_def split: if_splits)
  from mem_load_cstring_ok [OF assms(1) a assms(2) b] a show ?thesis by simp
qed

text \<open>Construction: for a size that is a multiple of four, every valid fill pattern gives a
  well-formed memory (nominal size plus four bytes of zero padding); the \<open>addr\<close> pattern puts the low
  byte of its address in each cell; another size is refused with \<open>TypeError\<close> by the word view.\<close>

lemma ram_init_correct:
  assumes "0 \<le> sz"
  shows "(RAM_init rnd cls base sz init 4 = Inr R \<longrightarrow> ram_wf R \<and> ram_size R = sz \<and> drop (nat sz) (memory R) = replicate 4 0)
    \<and> (sz mod 4 \<noteq> 0 \<longrightarrow> RAM_init rnd cls base sz init 4 = Inl TypeError)
    \<and> (sz mod 4 = 0 \<longrightarrow> (\<exists>R. RAM_init rnd cls base sz (Some ''addr'') 4 = Inr R \<and> (\<forall>i < nat sz. memory R ! i = word_of_nat i)))"
proof (intro conjI impI)
  assume h: "RAM_init rnd cls base sz init 4 = Inr R"
  from RAM_init_wf [OF h assms] show "ram_wf R" .
  from h assms show "ram_size R = sz"
    by (auto simp: RAM_init_def initialize_ram_def Let_def split: if_splits option.splits)
  from h assms show "drop (nat sz) (memory R) = replicate 4 0"
    by (auto simp: RAM_init_def initialize_ram_def Let_def nat_add_distrib split: if_splits option.splits)
next
  assume "sz mod 4 \<noteq> 0"
  then have "(sz + 4) mod 4 \<noteq> 0" by simp
  with assms show "RAM_init rnd cls base sz init 4 = Inl TypeError"
    by (simp add: RAM_init_def)
next
  assume "sz mod 4 = 0"
  then have "(sz + 4) mod 4 = 0" by simp
  with assms show "\<exists>R. RAM_init rnd cls base sz (Some ''addr'') 4 = Inr R \<and> (\<forall>i < nat sz. memory R ! i = word_of_nat i)"
    by (auto simp: RAM_init_def initialize_ram_def Let_def nth_append)
qed

end
