(* ===== verification/Cpu_State.thy ===== *)
theory Cpu_State
  imports Py_Base Py_Int
begin

text \<open>
  The state of the class \<open>CPU\<close> of \<open>cpu.py\<close>, its constructor and the methods that only touch that
  state: \<open>init_registers\<close>, \<open>trap\<close>, \<open>bypassed_trap_return\<close> and \<open>timer_update\<close>.

  \<open>registers\<close> and \<open>csrs\<close> are Python lists of 32 and 4096 entries, indexed by 5-bit and 12-bit fields
  of an instruction or by constants, so an index is never out of range; they are functions on
  \<^typ>\<open>int\<close>. \<open>logger\<close> says whether a logger is installed: the text it is given is output only.
  \<open>self.ram\<close> and \<open>self.handle_ecall\<close> are not fields: the memory is the other half of the system state
  (theory \<open>Bus\<close>), and the handler is an argument of the execution functions.
\<close>

unbundle bit_operations_syntax

section \<open>State\<close>

type_synonym decoded = "int \<times> int \<times> int \<times> int \<times> int \<times> int"
  \<comment> \<open>opcode, rd, funct3, rs1, rs2, funct7\<close>

record cpu =
  registers :: "int \<Rightarrow> int"
  pc :: int
  next_pc :: int
  csrs :: "int \<Rightarrow> int"
  mtime :: int
  mtimecmp :: int
  mtime_lo_updated :: bool
  mtime_hi_updated :: bool
  mtimecmp_lo_updated :: bool
  mtimecmp_hi_updated :: bool
  mtime_countdown :: "int option"   \<comment> \<open>the attribute exists once \<open>mtimecmp\<close> was written\<close>
  mtip :: bool
  reservation_valid :: bool
  reservation_addr :: int
  rvc_enabled :: bool
  alignment_mask :: int
  logger :: bool
  trace_traps :: bool
  decode_cache :: "int \<rightharpoonup> decoded"
  decode_cache_compressed :: "int \<rightharpoonup> decoded \<times> int"

definition CSR_RO :: "int list" where
  "CSR_RO = [0xF11, 0xF12, 0xF13, 0xF14]"

definition CSR_NOWRITE :: "int list" where
  "CSR_NOWRITE = [0x301, 0xB02, 0xB82, 0x7A0, 0x7A1, 0x7A2]"

section \<open>Construction\<close>

text \<open>\<open>rnd i\<close> is \<open>random.getrandbits(32)\<close> for register \<open>i\<close>.\<close>

definition init_registers :: "(int \<Rightarrow> 32 word) \<Rightarrow> string \<Rightarrow> (int \<Rightarrow> int) \<Rightarrow> exn + (int \<Rightarrow> int)" where
  "init_registers rnd mode regs =
     (let fill = (\<lambda>f i. if i = 0 then 0 else if 1 \<le> i \<and> i < 32 then f i else regs i)
      in if mode = ''random'' then Inr (fill (\<lambda>i. uint (rnd i)))
         else (case py_int0 mode of
                 None \<Rightarrow> Inl (SetupError (BadInitRegs mode))
               | Some v \<Rightarrow> Inr (fill (\<lambda>_. v AND 0xFFFFFFFF))))"

definition initial_csrs :: "bool \<Rightarrow> int \<Rightarrow> int" where
  "initial_csrs rvc = (\<lambda>_. 0)
     (0x301 := 0x40001101 OR (if rvc then push_bit 2 1 else 0),
      0x300 := 0x00001800,
      0x7C2 := 0xFFFFFFFF,
      0x7C3 := 0xFFFFFFFF,
      0xF12 := 0x00000001,
      0xF13 := 0x20250400)"

definition CPU_init :: "(int \<Rightarrow> 32 word) \<Rightarrow> bool \<Rightarrow> string option \<Rightarrow> bool \<Rightarrow> bool \<Rightarrow> exn + cpu" where
  "CPU_init rnd rvc init_regs log trace =
     (case (case init_regs of
              None \<Rightarrow> Inr (\<lambda>_. 0)
            | Some mode \<Rightarrow> (if mode = ''zero'' then Inr (\<lambda>_. 0) else init_registers rnd mode (\<lambda>_. 0))) of
        Inl e \<Rightarrow> Inl e
      | Inr regs \<Rightarrow> Inr
          \<lparr>registers = regs, pc = 0, next_pc = 0, csrs = initial_csrs rvc,
           mtime = 0, mtimecmp = 0xFFFFFFFFFFFFFFFF,
           mtime_lo_updated = False, mtime_hi_updated = False,
           mtimecmp_lo_updated = False, mtimecmp_hi_updated = False,
           mtime_countdown = None, mtip = False,
           reservation_valid = False, reservation_addr = 0,
           rvc_enabled = rvc, alignment_mask = (if rvc then 0x1 else 0x3),
           logger = log, trace_traps = trace,
           decode_cache = Map.empty, decode_cache_compressed = Map.empty\<rparr>)"

section \<open>Registers, traps and the timer\<close>

definition set_reg :: "int \<Rightarrow> int \<Rightarrow> (cpu, unit) py" where
  "set_reg rd v = py_modify (\<lambda>c. c\<lparr>registers := (registers c)(rd := v)\<rparr>)"

definition set_csr :: "int \<Rightarrow> int \<Rightarrow> cpu \<Rightarrow> cpu" where
  "set_csr a v c = c\<lparr>csrs := (csrs c)(a := v)\<rparr>"

definition set_next_pc :: "int \<Rightarrow> (cpu, unit) py" where
  "set_next_pc a = py_modify (\<lambda>c. c\<lparr>next_pc := a\<rparr>)"

text \<open>\<open>MPIE <- MIE\<close>, \<open>MIE <- 0\<close> on a trap.\<close>

definition trap_mstatus :: "int \<Rightarrow> int" where
  "trap_mstatus mstatus =
     (let mie = drop_bit 3 mstatus AND 1;
          mstatus = mstatus AND NOT (push_bit 3 1 OR push_bit 7 1)
      in mstatus OR push_bit 7 mie)"

definition trap_state :: "int \<Rightarrow> int \<Rightarrow> bool \<Rightarrow> cpu \<Rightarrow> cpu" where
  "trap_state cause mtval sync c =
     (let c = set_csr 0x341 (if sync then pc c else next_pc c) c;
          c = set_csr 0x342 cause c;
          c = set_csr 0x343 mtval c;
          c = set_csr 0x300 (trap_mstatus (csrs c 0x300)) c
      in c\<lparr>next_pc := csrs c 0x305 AND NOT 0x3\<rparr>)"

definition trap :: "int \<Rightarrow> int \<Rightarrow> bool \<Rightarrow> (cpu, unit) py" where
  "trap cause mtval sync c =
     (if csrs c 0x305 = 0 then (Inl (ExecutionTerminated (TrapWithoutHandler (pc c) cause)), c)
      else (Inr (), trap_state cause mtval sync c))"

definition bypassed_trap_return :: "int \<Rightarrow> int \<Rightarrow> cpu \<Rightarrow> cpu" where
  "bypassed_trap_return cause mtval c =
     (let c = set_csr 0x341 (pc c) c;
          c = set_csr 0x342 cause c;
          c = set_csr 0x343 mtval c
      in set_csr 0x300 (csrs c 0x300 OR push_bit 7 1) c)"

definition timer_update :: "(cpu, unit) py" where
  "timer_update c =
     (let mt = mtime c;
          c = c\<lparr>mtime := mt + 1\<rparr>;
          mtip_asserted = (mt \<ge> mtimecmp c);
          c = (if mtip_asserted \<noteq> mtip c then
                 (if mtip_asserted then set_csr 0x344 (csrs c 0x344 OR push_bit 7 1) c
                  else set_csr 0x344 (csrs c 0x344 AND NOT (push_bit 7 1)) c)
                 \<lparr>mtip := mtip_asserted\<rparr>
               else c)
      in if \<not> mtip_asserted then (Inr (), c)
         else if csrs c 0x300 AND push_bit 3 1 = 0 then (Inr (), c)
         else if csrs c 0x304 AND push_bit 7 1 \<noteq> 0 then trap 0x80000007 0 False c
         else (Inr (), c))"

end
