(* ===== verification/Peripherals.thy ===== *)
theory Peripherals
  imports Ram Cpu_State
begin

text \<open>
  The memory-mapped peripherals of \<open>peripherals.py\<close>: the machine timer, the UART on a
  pseudo-terminal and the block device. A peripheral is a record of the fields its object has; a
  register access is a function on that record and on the object the peripheral refers to (the CPU
  for the timer, the memory for the block device).

  The host side is part of a record: for the UART the bytes waiting on the master side of the
  pseudo-terminal, those written to it, and how many of them the terminal holds before a
  non-blocking write fails; for the block device the bytes of the image file.
\<close>

unbundle bit_operations_syntax

section \<open>Accesses to the memory object that do not go through peripherals\<close>

text \<open>
  Method calls \<open>self.ram.load_byte(...)\<close> are resolved by the class of the object. The MMIO classes
  have the code of \<open>RAM\<close> and \<open>SafeRAM\<close> for everything but word accesses.
\<close>

definition ram_load_byte :: "int \<Rightarrow> bool \<Rightarrow> (ram, int) py" where
  "ram_load_byte addr sgnd R =
     (case ram_class R of
        RAM \<Rightarrow> RAM_load_byte addr sgnd R
      | RAM_MMIO \<Rightarrow> RAM_load_byte addr sgnd R
      | SafeRAM \<Rightarrow> SafeRAM_load_byte addr sgnd R
      | SafeRAM_MMIO \<Rightarrow> SafeRAM_load_byte addr sgnd R
      | SafeRAMOffset \<Rightarrow> SafeRAMOffset_load_byte addr sgnd R)"

definition ram_load_half :: "int \<Rightarrow> bool \<Rightarrow> (ram, int) py" where
  "ram_load_half addr sgnd R =
     (case ram_class R of
        RAM \<Rightarrow> RAM_load_half addr sgnd R
      | RAM_MMIO \<Rightarrow> RAM_load_half addr sgnd R
      | SafeRAM \<Rightarrow> SafeRAM_load_half addr sgnd R
      | SafeRAM_MMIO \<Rightarrow> SafeRAM_load_half addr sgnd R
      | SafeRAMOffset \<Rightarrow> SafeRAMOffset_load_half addr sgnd R)"

definition ram_store_byte :: "int \<Rightarrow> int \<Rightarrow> (ram, unit) py" where
  "ram_store_byte addr v R =
     (case ram_class R of
        RAM \<Rightarrow> RAM_store_byte addr v R
      | RAM_MMIO \<Rightarrow> RAM_store_byte addr v R
      | SafeRAM \<Rightarrow> SafeRAM_store_byte addr v R
      | SafeRAM_MMIO \<Rightarrow> SafeRAM_store_byte addr v R
      | SafeRAMOffset \<Rightarrow> SafeRAMOffset_store_byte addr v R)"

definition ram_store_half :: "int \<Rightarrow> int \<Rightarrow> (ram, unit) py" where
  "ram_store_half addr v R =
     (case ram_class R of
        RAM \<Rightarrow> RAM_store_half addr v R
      | RAM_MMIO \<Rightarrow> RAM_store_half addr v R
      | SafeRAM \<Rightarrow> SafeRAM_store_half addr v R
      | SafeRAM_MMIO \<Rightarrow> SafeRAM_store_half addr v R
      | SafeRAMOffset \<Rightarrow> SafeRAMOffset_store_half addr v R)"

definition ram_load_binary :: "int \<Rightarrow> int \<Rightarrow> (ram, 8 word list) py" where
  "ram_load_binary addr n R =
     (case ram_class R of
        RAM \<Rightarrow> RAM_load_binary addr n R
      | RAM_MMIO \<Rightarrow> RAM_load_binary addr n R
      | SafeRAM \<Rightarrow> SafeRAM_load_binary addr n R
      | SafeRAM_MMIO \<Rightarrow> SafeRAM_load_binary addr n R
      | SafeRAMOffset \<Rightarrow> SafeRAMOffset_load_binary addr n R)"

definition ram_store_binary :: "int \<Rightarrow> 8 word list \<Rightarrow> (ram, unit) py" where
  "ram_store_binary addr bs R =
     (case ram_class R of
        RAM \<Rightarrow> RAM_store_binary addr bs R
      | RAM_MMIO \<Rightarrow> RAM_store_binary addr bs R
      | SafeRAM \<Rightarrow> SafeRAM_store_binary addr bs R
      | SafeRAM_MMIO \<Rightarrow> SafeRAM_store_binary addr bs R
      | SafeRAMOffset \<Rightarrow> SafeRAMOffset_store_binary addr bs R)"

definition ram_load_cstring :: "int \<Rightarrow> int \<Rightarrow> (ram, 8 word list) py" where
  "ram_load_cstring addr max_len R =
     (case ram_class R of
        RAM \<Rightarrow> RAM_load_cstring addr max_len R
      | RAM_MMIO \<Rightarrow> RAM_load_cstring addr max_len R
      | SafeRAM \<Rightarrow> SafeRAM_load_cstring addr max_len R
      | SafeRAM_MMIO \<Rightarrow> SafeRAM_load_cstring addr max_len R
      | SafeRAMOffset \<Rightarrow> SafeRAMOffset_load_cstring addr max_len R)"

section \<open>Class MMIOTimer\<close>

record mmio_timer =
  tmr_mtime_lo :: int
  tmr_mtime_hi :: int
  tmr_lo_updated :: bool
  tmr_hi_updated :: bool

definition MMIOTimer_init :: mmio_timer where
  "MMIOTimer_init = \<lparr>tmr_mtime_lo = 0, tmr_mtime_hi = 0, tmr_lo_updated = False, tmr_hi_updated = False\<rparr>"

definition REG_MTIMECMP_LO :: int where "REG_MTIMECMP_LO = 0x02004000 + 0x00"
definition REG_MTIMECMP_HI :: int where "REG_MTIMECMP_HI = REG_MTIMECMP_LO + 0x04"
definition REG_MTIME_LO :: int where "REG_MTIME_LO = 0x0200BFF8"
definition REG_MTIME_HI :: int where "REG_MTIME_HI = REG_MTIME_LO + 0x04"
definition TIMER_REG_END :: int where "TIMER_REG_END = REG_MTIME_HI + 0x04"

lemmas timer_regs = REG_MTIMECMP_LO_def REG_MTIMECMP_HI_def REG_MTIME_LO_def REG_MTIME_HI_def
  TIMER_REG_END_def

definition MMIOTimer_read32 :: "int \<Rightarrow> (mmio_timer \<times> cpu, int) py" where
  "MMIOTimer_read32 addr = py_lift (\<lambda>(t, c).
     if addr = REG_MTIME_LO then Inr (mtime c AND 0xFFFFFFFF)
     else if addr = REG_MTIME_HI then Inr (drop_bit 32 (mtime c))
     else if addr = REG_MTIMECMP_LO then Inr (mtimecmp c AND 0xFFFFFFFF)
     else if addr = REG_MTIMECMP_HI then Inr (drop_bit 32 (mtimecmp c))
     else Inl (MemoryAccessError (BadMMIORead addr)))"

definition timer_commit :: "mmio_timer \<times> cpu \<Rightarrow> mmio_timer \<times> cpu" where
  "timer_commit = (\<lambda>(t, c).
     if tmr_lo_updated t \<and> tmr_hi_updated t then
       (t\<lparr>tmr_lo_updated := False, tmr_hi_updated := False\<rparr>,
        c\<lparr>mtime := push_bit 32 (tmr_mtime_hi t) OR tmr_mtime_lo t\<rparr>)
     else (t, c))"

definition MMIOTimer_write32 :: "int \<Rightarrow> int \<Rightarrow> (mmio_timer \<times> cpu, unit) py" where
  "MMIOTimer_write32 addr v = (\<lambda>(t, c).
     if addr = REG_MTIMECMP_LO then
       (Inr (), timer_commit (t, c\<lparr>mtimecmp := (mtimecmp c AND 0xFFFFFFFF00000000) OR (v AND 0xFFFFFFFF)\<rparr>))
     else if addr = REG_MTIMECMP_HI then
       (Inr (), timer_commit (t, c\<lparr>mtimecmp := (mtimecmp c AND 0x00000000FFFFFFFF) OR push_bit 32 (v AND 0xFFFFFFFF)\<rparr>))
     else if addr = REG_MTIME_LO then
       (Inr (), timer_commit (t\<lparr>tmr_mtime_lo := v, tmr_lo_updated := True\<rparr>, c))
     else if addr = REG_MTIME_HI then
       (Inr (), timer_commit (t\<lparr>tmr_mtime_hi := v, tmr_hi_updated := True\<rparr>, c))
     else (Inl (MemoryAccessError (BadMMIOWrite addr)), (t, c)))"

section \<open>Class PtyUART\<close>

record pty_uart =
  uart_base :: int
  rx_buf :: "8 word list"
  pty_rx :: "8 word list"      \<comment> \<open>bytes the host terminal has sent and the master has not read\<close>
  pty_tx :: "8 word list"      \<comment> \<open>bytes written to the master and not read by the host terminal\<close>
  pty_room :: nat              \<comment> \<open>bytes the master takes before a write would block\<close>

definition PtyUART_init :: "int \<Rightarrow> nat \<Rightarrow> pty_uart" where
  "PtyUART_init reg_base room =
     \<lparr>uart_base = reg_base, rx_buf = [], pty_rx = [], pty_tx = [], pty_room = room\<rparr>"

text \<open>\<open>select\<close> reports the master readable when bytes wait; \<open>os.read\<close> takes at most 64 of them.\<close>

definition PtyUART_run :: "pty_uart \<Rightarrow> pty_uart" where
  "PtyUART_run u =
     (if pty_rx u = [] then u
      else u\<lparr>rx_buf := rx_buf u @ take 64 (pty_rx u), pty_rx := drop 64 (pty_rx u)\<rparr>)"

definition PtyUART_read32 :: "int \<Rightarrow> (pty_uart, int) py" where
  "PtyUART_read32 addr u =
     (if addr = uart_base u + 0x04 then
        let u = PtyUART_run u
        in case rx_buf u of
             ch # rest \<Rightarrow> (Inr (uint ch), u\<lparr>rx_buf := rest\<rparr>)
           | [] \<Rightarrow> (Inr (push_bit 31 1), u)
      else if addr = uart_base u + 0x00 then (Inr 0, u)
      else (Inl (MemoryAccessError (BadMMIORead addr)), u))"

definition PtyUART_write32 :: "int \<Rightarrow> int \<Rightarrow> (pty_uart, unit) py" where
  "PtyUART_write32 addr v u =
     (if addr = uart_base u + 0x00 then
        if length (pty_tx u) < pty_room u then (Inr (), u\<lparr>pty_tx := pty_tx u @ [byte (v AND 0xFF)]\<rparr>)
        else (Inr (), u)
      else (Inl (MemoryAccessError (BadMMIOWrite addr)), u))"

section \<open>Class MMIOBlockDevice\<close>

record block_dev =
  blk_base :: int
  block_size :: int
  num_blocks :: int
  blk_cmd :: int
  blk_no :: int
  blk_ptr :: int
  blk_status :: int
  image :: "8 word list"

text \<open>\<open>existing\<close> are the contents of the image file if there is one.\<close>

definition MMIOBlockDevice_init :: "int \<Rightarrow> 8 word list option \<Rightarrow> int \<Rightarrow> int \<Rightarrow> block_dev" where
  "MMIOBlockDevice_init reg_base existing bsize sz =
     \<lparr>blk_base = reg_base, block_size = bsize, num_blocks = sz,
      blk_cmd = 0, blk_no = 0, blk_ptr = 0, blk_status = 1,
      image = (case existing of None \<Rightarrow> replicate (nat (sz * bsize)) 0xFF | Some bs \<Rightarrow> bs)\<rparr>"

text \<open>
  \<open>seek\<close> and \<open>read\<close>, \<open>seek\<close> and \<open>write\<close> on the image file: a read stops at the end of the file, a
  write past it fills the gap with zeros.
\<close>

definition file_read :: "8 word list \<Rightarrow> nat \<Rightarrow> int \<Rightarrow> 8 word list" where
  "file_read f off n = (if n < 0 then drop off f else take (nat n) (drop off f))"

definition file_write :: "8 word list \<Rightarrow> nat \<Rightarrow> 8 word list \<Rightarrow> 8 word list" where
  "file_write f off bs =
     (if bs = [] then f
      else take off (f @ replicate (off - length f) 0) @ bs @ drop (off + length bs) f)"

definition execute_cmd :: "(block_dev \<times> ram, unit) py" where
  "execute_cmd = (\<lambda>(d, R).
     let offset = blk_no d * block_size d in
     if offset \<ge> num_blocks d * block_size d then (Inr (), (d\<lparr>blk_status := 1\<rparr>, R))
     else if blk_cmd d = 0 then
       if offset < 0 then (Inl (OSError 22), (d, R))
       else let data = file_read (image d) (nat offset) (block_size d)
            in case ram_store_binary (blk_ptr d) data R of
                 (Inl e, R') \<Rightarrow> (Inl e, (d, R'))
               | (Inr _, R') \<Rightarrow> (Inr (), (d\<lparr>blk_status := 1\<rparr>, R'))
     else if blk_cmd d = 1 then
       case ram_load_binary (blk_ptr d) (block_size d) R of
         (Inl e, R') \<Rightarrow> (Inl e, (d, R'))
       | (Inr data, R') \<Rightarrow>
           if offset < 0 then (Inl (OSError 22), (d, R'))
           else (Inr (), (d\<lparr>image := file_write (image d) (nat offset) data, blk_status := 1\<rparr>, R'))
     else (Inr (), (d\<lparr>blk_status := 1\<rparr>, R)))"

definition MMIOBlockDevice_read32 :: "int \<Rightarrow> (block_dev \<times> ram, int) py" where
  "MMIOBlockDevice_read32 addr = py_lift (\<lambda>(d, R).
     if addr = blk_base d + 0x00 then Inr (blk_cmd d)
     else if addr = blk_base d + 0x04 then Inr (blk_no d)
     else if addr = blk_base d + 0x08 then Inr (blk_ptr d)
     else if addr = blk_base d + 0x0C then Inr 0
     else if addr = blk_base d + 0x10 then Inr (blk_status d)
     else Inl (MemoryAccessError (BadMMIORead addr)))"

definition MMIOBlockDevice_write32 :: "int \<Rightarrow> int \<Rightarrow> (block_dev \<times> ram, unit) py" where
  "MMIOBlockDevice_write32 addr v = (\<lambda>(d, R).
     if addr = blk_base d + 0x00 then (Inr (), (d\<lparr>blk_cmd := v\<rparr>, R))
     else if addr = blk_base d + 0x04 then (Inr (), (d\<lparr>blk_no := v\<rparr>, R))
     else if addr = blk_base d + 0x08 then (Inr (), (d\<lparr>blk_ptr := v\<rparr>, R))
     else if addr = blk_base d + 0x0C then (if v = 1 then execute_cmd (d, R) else (Inr (), (d, R)))
     else (Inl (MemoryAccessError (BadMMIOWrite addr)), (d, R)))"

end
