(* ===== verification/Bus.thy ===== *)
theory Bus
  imports Peripherals
begin

text \<open>
  The system state and the memory bus: the CPU, the memory object, the peripherals registered with
  it, and the accesses of the classes \<open>RAM_MMIO\<close> and \<open>SafeRAM_MMIO\<close> that go through them.

  \<open>mmio_ranges\<close> holds, in the order of registration, the address range of a peripheral and its
  position in \<open>devices\<close>: the bound methods \<open>read32\<close> and \<open>write32\<close> of the source are the device and the
  operations below on it. \<open>runners\<close> are the \<open>run\<close> methods the machine polls. \<open>host\<close> is the state of
  everything behind the \<open>ecall\<close> handler, which this layer does not read.
\<close>

unbundle bit_operations_syntax

section \<open>State\<close>

datatype device = Timer mmio_timer | Uart pty_uart | BlockDev block_dev

record 'h sys =
  cpu :: cpu
  ram :: ram
  devices :: "device list"
  mmio_ranges :: "(int \<times> int \<times> nat) list"
  runners :: "nat list"
  host :: 'h

definition on_cpu :: "(cpu, 'a) py \<Rightarrow> ('h sys, 'a) py" where
  "on_cpu = py_zoom cpu (\<lambda>c s. s\<lparr>cpu := c\<rparr>)"

definition on_ram :: "(ram, 'a) py \<Rightarrow> ('h sys, 'a) py" where
  "on_ram = py_zoom ram (\<lambda>R s. s\<lparr>ram := R\<rparr>)"

definition on_timer :: "nat \<Rightarrow> mmio_timer \<Rightarrow> (mmio_timer \<times> cpu, 'a) py \<Rightarrow> ('h sys, 'a) py" where
  "on_timer i t m s =
     (case m (t, cpu s) of (r, t', c) \<Rightarrow> (r, s\<lparr>cpu := c, devices := (devices s)[i := Timer t']\<rparr>))"

definition on_uart :: "nat \<Rightarrow> pty_uart \<Rightarrow> (pty_uart, 'a) py \<Rightarrow> ('h sys, 'a) py" where
  "on_uart i u m s = (case m u of (r, u') \<Rightarrow> (r, s\<lparr>devices := (devices s)[i := Uart u']\<rparr>))"

definition on_block :: "nat \<Rightarrow> block_dev \<Rightarrow> (block_dev \<times> ram, 'a) py \<Rightarrow> ('h sys, 'a) py" where
  "on_block i d m s =
     (case m (d, ram s) of (r, d', R) \<Rightarrow> (r, s\<lparr>ram := R, devices := (devices s)[i := BlockDev d']\<rparr>))"

section \<open>Peripherals on the bus\<close>

definition device_base :: "device \<Rightarrow> int" where
  "device_base d = (case d of Timer _ \<Rightarrow> REG_MTIMECMP_LO | Uart u \<Rightarrow> uart_base u | BlockDev b \<Rightarrow> blk_base b)"

definition device_end :: "device \<Rightarrow> int" where
  "device_end d =
     (case d of Timer _ \<Rightarrow> TIMER_REG_END | Uart u \<Rightarrow> uart_base u + 0x08 | BlockDev b \<Rightarrow> blk_base b + 0x14)"

definition device_read32 :: "nat \<Rightarrow> int \<Rightarrow> ('h sys, int) py" where
  "device_read32 i addr s =
     (case devices s ! i of
        Timer t \<Rightarrow> on_timer i t (MMIOTimer_read32 addr) s
      | Uart u \<Rightarrow> on_uart i u (PtyUART_read32 addr) s
      | BlockDev d \<Rightarrow> on_block i d (MMIOBlockDevice_read32 addr) s)"

definition device_write32 :: "nat \<Rightarrow> int \<Rightarrow> int \<Rightarrow> ('h sys, unit) py" where
  "device_write32 i addr v s =
     (case devices s ! i of
        Timer t \<Rightarrow> on_timer i t (MMIOTimer_write32 addr v) s
      | Uart u \<Rightarrow> on_uart i u (PtyUART_write32 addr v) s
      | BlockDev d \<Rightarrow> on_block i d (MMIOBlockDevice_write32 addr v) s)"

text \<open>
  A peripheral is registered with the memory object (\<open>ram.register_peripheral\<close>) and with the machine
  (\<open>machine.register_peripheral\<close>), which keeps its \<open>run\<close> method if it has one: only the UART does.
\<close>

definition ram_register_peripheral :: "nat \<Rightarrow> 'h sys \<Rightarrow> 'h sys" where
  "ram_register_peripheral i s =
     s\<lparr>mmio_ranges := mmio_ranges s @ [(device_base (devices s ! i), device_end (devices s ! i), i)]\<rparr>"

definition has_run :: "device \<Rightarrow> bool" where
  "has_run d = (case d of Uart _ \<Rightarrow> True | _ \<Rightarrow> False)"

definition machine_register_peripheral :: "nat \<Rightarrow> 'h sys \<Rightarrow> 'h sys" where
  "machine_register_peripheral i s =
     (if has_run (devices s ! i) then s\<lparr>runners := runners s @ [i]\<rparr> else s)"

definition device_run :: "device \<Rightarrow> device" where
  "device_run d = (case d of Uart u \<Rightarrow> Uart (PtyUART_run u) | _ \<Rightarrow> d)"

definition peripherals_run :: "'h sys \<Rightarrow> 'h sys" where
  "peripherals_run s =
     fold (\<lambda>i s. s\<lparr>devices := (devices s)[i := device_run (devices s ! i)]\<rparr>) (runners s) s"

section \<open>Word accesses\<close>

text \<open>The first registered range that contains the address.\<close>

definition mmio_hit :: "int \<Rightarrow> 'h sys \<Rightarrow> nat option" where
  "mmio_hit addr s =
     map_option (\<lambda>(lo, hi, i). i) (List.find (\<lambda>(lo, hi, i). lo \<le> addr \<and> addr < hi) (mmio_ranges s))"

definition MMIO_load_word :: "('h sys, int) py \<Rightarrow> int \<Rightarrow> ('h sys, int) py" where
  "MMIO_load_word plain addr s =
     (case mmio_hit addr s of Some i \<Rightarrow> device_read32 i addr s | None \<Rightarrow> plain s)"

definition MMIO_store_word :: "(int \<Rightarrow> ('h sys, unit) py) \<Rightarrow> int \<Rightarrow> int \<Rightarrow> ('h sys, unit) py" where
  "MMIO_store_word plain addr v s =
     (let v = v AND 0xFFFFFFFF
      in case mmio_hit addr s of Some i \<Rightarrow> device_write32 i addr v s | None \<Rightarrow> plain v s)"

text \<open>The access size in the message of \<open>RAM_MMIO.load_word\<close> is 1, unlike the other word accesses.\<close>

definition RAM_MMIO_load_word :: "int \<Rightarrow> ('h sys, int) py" where
  "RAM_MMIO_load_word addr =
     MMIO_load_word (on_ram (mem_load_word (MemoryAccessError (OutOfBounds addr 1)) addr)) addr"

definition RAM_MMIO_store_word :: "int \<Rightarrow> int \<Rightarrow> ('h sys, unit) py" where
  "RAM_MMIO_store_word addr v = MMIO_store_word (\<lambda>v. on_ram (RAM_store_word addr v)) addr v"

definition SafeRAM_MMIO_load_word :: "int \<Rightarrow> ('h sys, int) py" where
  "SafeRAM_MMIO_load_word addr = MMIO_load_word (on_ram (SafeRAM_load_word addr)) addr"

definition SafeRAM_MMIO_store_word :: "int \<Rightarrow> int \<Rightarrow> ('h sys, unit) py" where
  "SafeRAM_MMIO_store_word addr v = MMIO_store_word (\<lambda>v. on_ram (SafeRAM_store_word addr v)) addr v"

section \<open>Method calls on the memory object\<close>

definition load_word :: "int \<Rightarrow> ('h sys, int) py" where
  "load_word addr s =
     (case ram_class (ram s) of
        RAM \<Rightarrow> on_ram (RAM_load_word addr) s
      | SafeRAM \<Rightarrow> on_ram (SafeRAM_load_word addr) s
      | SafeRAMOffset \<Rightarrow> on_ram (SafeRAMOffset_load_word addr) s
      | RAM_MMIO \<Rightarrow> RAM_MMIO_load_word addr s
      | SafeRAM_MMIO \<Rightarrow> SafeRAM_MMIO_load_word addr s)"

definition store_word :: "int \<Rightarrow> int \<Rightarrow> ('h sys, unit) py" where
  "store_word addr v s =
     (case ram_class (ram s) of
        RAM \<Rightarrow> on_ram (RAM_store_word addr v) s
      | SafeRAM \<Rightarrow> on_ram (SafeRAM_store_word addr v) s
      | SafeRAMOffset \<Rightarrow> on_ram (SafeRAMOffset_store_word addr v) s
      | RAM_MMIO \<Rightarrow> RAM_MMIO_store_word addr v s
      | SafeRAM_MMIO \<Rightarrow> SafeRAM_MMIO_store_word addr v s)"

definition load_byte :: "int \<Rightarrow> bool \<Rightarrow> ('h sys, int) py" where
  "load_byte addr sgnd = on_ram (ram_load_byte addr sgnd)"

definition load_half :: "int \<Rightarrow> bool \<Rightarrow> ('h sys, int) py" where
  "load_half addr sgnd = on_ram (ram_load_half addr sgnd)"

definition store_byte :: "int \<Rightarrow> int \<Rightarrow> ('h sys, unit) py" where
  "store_byte addr v = on_ram (ram_store_byte addr v)"

definition store_half :: "int \<Rightarrow> int \<Rightarrow> ('h sys, unit) py" where
  "store_half addr v = on_ram (ram_store_half addr v)"

definition load_binary :: "int \<Rightarrow> int \<Rightarrow> ('h sys, 8 word list) py" where
  "load_binary addr n = on_ram (ram_load_binary addr n)"

definition store_binary :: "int \<Rightarrow> 8 word list \<Rightarrow> ('h sys, unit) py" where
  "store_binary addr bs = on_ram (ram_store_binary addr bs)"

definition load_cstring :: "int \<Rightarrow> int \<Rightarrow> ('h sys, 8 word list) py" where
  "load_cstring addr max_len = on_ram (ram_load_cstring addr max_len)"

end
