(* ===== verification/Mem_Access.thy ===== *)
theory Mem_Access
  imports Bus
begin

text \<open>
  Reasoning about memory at the level of the system: on checked memory the accesses of the bus are reads
  and writes of bytes. The properties of the instructions, of the loaders and of the system calls rest on
  these lemmas, not on the definitions of the memory classes.
\<close>

unbundle bit_operations_syntax

section \<open>Accesses to checked memory\<close>

text \<open>
  The accesses of the CPU and the machine on a memory of class \<open>SafeRAM\<close>, or \<open>SafeRAM_MMIO\<close> outside the
  ranges of the peripherals, as functions on the bytes.
\<close>

definition checked :: "'h sys \<Rightarrow> bool" where
  "checked s \<longleftrightarrow> ram_wf (ram s) \<and> (ram_class (ram s) = SafeRAM \<or> ram_class (ram s) = SafeRAM_MMIO)"

definition plain_word :: "'h sys \<Rightarrow> int \<Rightarrow> bool" where
  "plain_word s a \<longleftrightarrow> checked s \<and> (ram_class (ram s) = SafeRAM_MMIO \<longrightarrow> mmio_hit a s = None)"

abbreviation sbyte :: "'h sys \<Rightarrow> int \<Rightarrow> 8 word" where
  "sbyte s a \<equiv> ram_byte (ram s) a"

definition sput :: "'h sys \<Rightarrow> int \<Rightarrow> 8 word list \<Rightarrow> 'h sys" where
  "sput s a bs = s\<lparr>ram := ram_put (ram s) a bs\<rparr>"

lemma sput_simps [simp]:
  "cpu (sput s a bs) = cpu s" "host (sput s a bs) = host s" "devices (sput s a bs) = devices s"
  "mmio_ranges (sput s a bs) = mmio_ranges s" "runners (sput s a bs) = runners s"
  "ram (sput s a bs) = ram_put (ram s) a bs" "mmio_hit x (sput s a bs) = mmio_hit x s"
  by (simp_all add: sput_def mmio_hit_def)

lemma checked_sput: "checked s \<Longrightarrow> safe_valid (ram s) a (length bs) \<Longrightarrow> checked (sput s a bs)"
  using safe_ram.invar_put [of "ram s" a bs] by (auto simp: checked_def)

lemma plain_word_sput: "plain_word s x \<Longrightarrow> safe_valid (ram s) a (length bs) \<Longrightarrow> plain_word (sput s a bs) x"
  by (simp add: plain_word_def checked_sput)

lemma safe_valid_put [simp]: "safe_valid (ram_put R a bs) = safe_valid R"
  by (intro ext) (simp add: safe_valid_def)

lemma load_word_plain:
  assumes "plain_word s a" "safe_valid (ram s) a 4"
  shows "load_word a s = (Inr (le32 (sbyte s a) (sbyte s (a + 1)) (sbyte s (a + 2)) (sbyte s (a + 3))), s)"
  using assms safe_ram.load_word [of "ram s" a]
  by (auto simp: plain_word_def checked_def load_word_def SafeRAM_MMIO_load_word_def MMIO_load_word_def on_ram_def py_zoom_def)

lemma store_word_plain:
  assumes "plain_word s a" "safe_valid (ram s) a 4"
  shows "store_word a v s = (Inr (), sput s a (word_bytes v))"
  using assms safe_ram.store_word [of "ram s" a v] safe_ram.store_word [of "ram s" a "v AND 0xFFFFFFFF"]
  by (auto simp: plain_word_def checked_def store_word_def SafeRAM_MMIO_store_word_def MMIO_store_word_def on_ram_def
    py_zoom_def Let_def sput_def bits)

lemma load_half_plain:
  assumes "checked s" "safe_valid (ram s) a 2"
  shows "load_half a sg s = (Inr (sign16 sg (le16 (sbyte s a) (sbyte s (a + 1)))), s)"
  using assms safe_ram.load_half [of "ram s" a sg]
  by (auto simp: checked_def load_half_def ram_load_half_def on_ram_def py_zoom_def)

lemma load_byte_plain:
  assumes "checked s" "safe_valid (ram s) a 1"
  shows "load_byte a sg s = (Inr (sign8 sg (uint (sbyte s a))), s)"
  using assms safe_ram.load_byte [of "ram s" a sg]
  by (auto simp: checked_def load_byte_def ram_load_byte_def on_ram_def py_zoom_def)

lemma store_half_plain:
  assumes "checked s" "safe_valid (ram s) a 2"
  shows "store_half a v s = (Inr (), sput s a (half_bytes v))"
  using assms safe_ram.store_half [of "ram s" a v]
  by (auto simp: checked_def store_half_def ram_store_half_def on_ram_def py_zoom_def sput_def)

lemma store_byte_plain:
  assumes "checked s" "safe_valid (ram s) a 1"
  shows "store_byte a v s = (Inr (), sput s a [byte v])"
  using assms safe_ram.store_byte [of "ram s" a v]
  by (auto simp: checked_def store_byte_def ram_store_byte_def on_ram_def py_zoom_def sput_def)

text \<open>Outside the memory every access raises and changes nothing.\<close>

lemma load_byte_bad:
  assumes "checked s" "\<not> safe_valid (ram s) a 1"
  shows "load_byte a sg s = (Inl (MemoryAccessError (OutOfBounds a 1)), s)"
  using assms safe_ram.load_byte_bad [of "ram s" a sg]
  by (auto simp: checked_def load_byte_def ram_load_byte_def on_ram_def py_zoom_def)

lemma load_half_bad:
  assumes "checked s" "\<not> safe_valid (ram s) a 2"
  shows "load_half a sg s = (Inl (MemoryAccessError (OutOfBounds a 2)), s)"
  using assms safe_ram.load_half_bad [of "ram s" a sg]
  by (auto simp: checked_def load_half_def ram_load_half_def on_ram_def py_zoom_def)

lemma load_word_bad:
  assumes "plain_word s a" "\<not> safe_valid (ram s) a 4"
  shows "load_word a s = (Inl (MemoryAccessError (OutOfBounds a 4)), s)"
  using assms safe_ram.load_word_bad [of "ram s" a]
  by (auto simp: plain_word_def checked_def load_word_def SafeRAM_MMIO_load_word_def MMIO_load_word_def on_ram_def py_zoom_def)

lemma store_byte_bad:
  assumes "checked s" "\<not> safe_valid (ram s) a 1"
  shows "store_byte a v s = (Inl (MemoryAccessError (OutOfBounds a 1)), s)"
  using assms safe_ram.store_byte_bad [of "ram s" a v]
  by (auto simp: checked_def store_byte_def ram_store_byte_def on_ram_def py_zoom_def)

lemma store_half_bad:
  assumes "checked s" "\<not> safe_valid (ram s) a 2"
  shows "store_half a v s = (Inl (MemoryAccessError (OutOfBounds a 2)), s)"
  using assms safe_ram.store_half_bad [of "ram s" a v]
  by (auto simp: checked_def store_half_def ram_store_half_def on_ram_def py_zoom_def)

lemma store_word_bad:
  assumes "plain_word s a" "\<not> safe_valid (ram s) a 4"
  shows "store_word a v s = (Inl (MemoryAccessError (OutOfBounds a 4)), s)"
  using assms safe_ram.store_word_bad [of "ram s" a v] safe_ram.store_word_bad [of "ram s" a "v AND 0xFFFFFFFF"]
  by (auto simp: plain_word_def checked_def store_word_def SafeRAM_MMIO_store_word_def MMIO_store_word_def on_ram_def
    py_zoom_def Let_def bits)

lemma safe_store_binary:
  assumes "ram_wf R" "safe_valid R a (length bs)"
  shows "SafeRAM_store_binary a bs R = (Inr (), ram_put R a bs)"
  using assms mem_store_slice_valid [OF safe_imp_ram_valid [OF assms]]
  by (auto simp: SafeRAM_store_binary_def SafeRAM_check_def safe_valid_def py_defs)

lemma safe_load_binary:
  assumes "ram_wf R" "safe_valid R a n"
  shows "SafeRAM_load_binary a (int n) R = (Inr (take n (drop (nat a) (memory R))), R)"
  using assms py_slice_in [of a n "memory R"]
  by (auto simp: SafeRAM_load_binary_def SafeRAM_check_def safe_valid_def ram_wf_def py_defs)

lemma store_binary_plain:
  assumes "checked s" "safe_valid (ram s) a (length bs)"
  shows "store_binary a bs s = (Inr (), sput s a bs)"
  using assms safe_store_binary [of "ram s" a bs]
  by (auto simp: checked_def store_binary_def ram_store_binary_def on_ram_def py_zoom_def sput_def)

lemma load_binary_plain:
  assumes "checked s" "safe_valid (ram s) a n"
  shows "load_binary a (int n) s = (Inr (take n (drop (nat a) (memory (ram s)))), s)"
  using assms safe_load_binary [of "ram s" a n]
  by (auto simp: checked_def load_binary_def ram_load_binary_def on_ram_def py_zoom_def)

lemma sbyte_sput:
  assumes "checked s" "safe_valid (ram s) a (length bs)" "safe_valid (ram s) x 1"
  shows "sbyte (sput s a bs) x = (if a \<le> x \<and> x < a + int (length bs) then bs ! nat (x - a) else sbyte s x)"
  using assms safe_ram.byte_at_put [of "ram s" a bs x] by (simp add: checked_def)

lemma le32_halves: "le32 b0 b1 b2 b3 = le16 b0 b1 OR push_bit 16 (le16 b2 b3)"
  by (simp add: le32_def le16_def push_bit_or or.assoc)

lemma le32_low:
  "le32 b0 b1 b2 b3 AND 0xFFFF = le16 b0 b1" "le32 b0 b1 b2 b3 AND 0x3 = le16 b0 b1 AND 0x3"
proof -
  show 1: "le32 b0 b1 b2 b3 AND 0xFFFF = le16 b0 b1"
    using le16_take_bit [of b0 b1] by (simp add: le32_halves bits take_bit_push_bit take_bit_or)
  have "le32 b0 b1 b2 b3 AND 0x3 = (le32 b0 b1 b2 b3 AND 0xFFFF) AND 0x3" by (simp add: and.assoc)
  then show "le32 b0 b1 b2 b3 AND 0x3 = le16 b0 b1 AND 0x3" by (simp add: 1)
qed

end
