(* ===== verification/Isa.thy ===== *)
theory Isa
  imports Py_Base
begin

text \<open>
  The abstract instruction formats of RV32 against which the decoders of the emulator are proved:
  an instruction is given by its format and its fields (register numbers, function codes and the
  immediate as a signed number), and \<open>encode32\<close> is the bit layout of the RISC-V manual.
\<close>

unbundle bit_operations_syntax

datatype rv_inst =
    IType int int int int int       \<comment> \<open>opcode, rd, funct3, rs1, imm[11:0]\<close>
  | RType int int int int int int             \<comment> \<open>opcode, rd, funct3, rs1, rs2, funct7\<close>
  | SType int int int int                     \<comment> \<open>funct3, rs1, rs2, imm[11:0]\<close>
  | BType int int int int                     \<comment> \<open>funct3, rs1, rs2, imm[12:1]\<close>
  | UType int int int                         \<comment> \<open>opcode, rd, imm[31:12] as a 20-bit number\<close>
  | JType int int                             \<comment> \<open>rd, imm[20:1]\<close>

fun encode32 :: "rv_inst \<Rightarrow> int" where
  "encode32 (IType op rd f3 rs1 imm) =
     op OR push_bit 7 rd OR push_bit 12 f3 OR push_bit 15 rs1 OR push_bit 20 (fld 11 0 imm)"
| "encode32 (RType op rd f3 rs1 rs2 f7) =
     op OR push_bit 7 rd OR push_bit 12 f3 OR push_bit 15 rs1 OR push_bit 20 rs2 OR push_bit 25 f7"
| "encode32 (SType f3 rs1 rs2 imm) =
     0x23 OR push_bit 7 (fld 4 0 imm) OR push_bit 12 f3 OR push_bit 15 rs1 OR push_bit 20 rs2
     OR push_bit 25 (fld 11 5 imm)"
| "encode32 (BType f3 rs1 rs2 imm) =
     0x63 OR push_bit 7 (fld 11 11 imm) OR push_bit 8 (fld 4 1 imm) OR push_bit 12 f3
     OR push_bit 15 rs1 OR push_bit 20 rs2 OR push_bit 25 (fld 10 5 imm) OR push_bit 31 (fld 12 12 imm)"
| "encode32 (UType op rd imm) = op OR push_bit 7 rd OR push_bit 12 (fld 19 0 imm)"
| "encode32 (JType rd imm) =
     0x6F OR push_bit 7 rd OR push_bit 12 (fld 19 12 imm) OR push_bit 20 (fld 11 11 imm)
     OR push_bit 21 (fld 10 1 imm) OR push_bit 31 (fld 20 20 imm)"

text \<open>The fields have their widths; the two lowest bits of the opcode of a 32-bit instruction are set.\<close>

definition wf_opcode :: "int \<Rightarrow> bool" where
  "wf_opcode op \<longleftrightarrow> fits 7 op \<and> op AND 3 = 3"

fun wf_inst :: "rv_inst \<Rightarrow> bool" where
  "wf_inst (IType op rd f3 rs1 imm) \<longleftrightarrow>
     wf_opcode op \<and> fits 5 rd \<and> fits 3 f3 \<and> fits 5 rs1 \<and> -2048 \<le> imm \<and> imm < 2048"
| "wf_inst (RType op rd f3 rs1 rs2 f7) \<longleftrightarrow>
     wf_opcode op \<and> fits 5 rd \<and> fits 3 f3 \<and> fits 5 rs1 \<and> fits 5 rs2 \<and> fits 7 f7"
| "wf_inst (SType f3 rs1 rs2 imm) \<longleftrightarrow>
     fits 3 f3 \<and> fits 5 rs1 \<and> fits 5 rs2 \<and> -2048 \<le> imm \<and> imm < 2048"
| "wf_inst (BType f3 rs1 rs2 imm) \<longleftrightarrow>
     fits 3 f3 \<and> fits 5 rs1 \<and> fits 5 rs2 \<and> -4096 \<le> imm \<and> imm < 4096 \<and> even imm"
| "wf_inst (UType op rd imm) \<longleftrightarrow> wf_opcode op \<and> fits 5 rd"
| "wf_inst (JType rd imm) \<longleftrightarrow> fits 5 rd \<and> -1048576 \<le> imm \<and> imm < 1048576 \<and> even imm"

lemma encode32_fits:
  assumes "wf_inst i"
  shows "fits 32 (encode32 i)"
proof -
  have mono: "fits n x \<Longrightarrow> n \<le> m \<Longrightarrow> fits m x" for n m x
    by (auto simp: fits_def intro: less_le_trans power_increasing)
  show ?thesis
    using assms by (cases i) (auto simp: wf_opcode_def intro!: fits_intros fits_numeral elim!: mono)
qed

lemma encode32_low_bits:
  assumes "wf_inst i"
  shows "encode32 i AND 3 = 3"
proof -
  have three: "(3 :: int) = take_bit 2 3" by simp
  show ?thesis
    using assms by (cases i) (auto simp: wf_opcode_def bits take_bit_or take_bit_push_bit)
qed

end
