(* ===== verification/Cpu_Ops.thy ===== *)
theory Cpu_Ops
  imports Cpu_State Isa "HOL-Library.Signed_Division"
begin

text \<open>
  The opcode handlers of \<open>cpu.py\<close> that touch the CPU state only: register-register and
  register-immediate arithmetic with the M extension, branches, \<open>LUI\<close>, \<open>AUIPC\<close>, \<open>JAL\<close>, \<open>JALR\<close> and
  \<open>MISC-MEM\<close>. Each has the parameters of the Python handler except \<open>cpu\<close> (the state) and \<open>ram\<close>
  (unused by these). The logger calls before a trap are left out: they only write to the log.
\<close>

unbundle bit_operations_syntax

section \<open>Signed values and division\<close>

definition signed32 :: "int \<Rightarrow> int" where
  "signed32 val = (if val < 0x80000000 then val else val - 0x100000000)"

text \<open>
  \<open>int(a / b)\<close>: Python's true division of two integers is the binary64 number nearest to the
  quotient, ties to an even significand, and \<open>int\<close> drops its fraction. \<open>k\<close> is the number of bits of
  the integer part of \<open>|a| / |b|\<close>, so the significand of 53 bits is the quotient scaled by
  \<open>2 ^ (53 - k)\<close> and rounded. (Below one the scale is coarser than the one of binary64 for quotients
  under one half, which does not change the integer part.)
\<close>

fun bit_length :: "nat \<Rightarrow> nat" where
  "bit_length n = (if n = 0 then 0 else Suc (bit_length (n div 2)))"

declare bit_length.simps [simp del]

definition round_half_even :: "int \<Rightarrow> int \<Rightarrow> int" where
  "round_half_even n d =
     (let q = n div d; r = n mod d
      in if 2 * r < d then q else if d < 2 * r then q + 1 else if even q then q else q + 1)"

definition float_quot_trunc :: "int \<Rightarrow> int \<Rightarrow> int" where
  "float_quot_trunc a b =
     (let k = bit_length (nat (a div b))
      in if k \<le> 53 then round_half_even (a * 2 ^ (53 - k)) b div 2 ^ (53 - k)
         else round_half_even a (b * 2 ^ (k - 53)) * 2 ^ (k - 53))"

definition py_int_truediv :: "int \<Rightarrow> int \<Rightarrow> int" where
  "py_int_truediv a b = sgn a * sgn b * float_quot_trunc \<bar>a\<bar> \<bar>b\<bar>"

text \<open>\<open>int(b)\<close> of a \<open>bool\<close>.\<close>

definition py_bool :: "bool \<Rightarrow> int" where
  "py_bool b = (if b then 1 else 0)"

section \<open>Arithmetic handlers\<close>

definition exec_Rtype :: "int \<Rightarrow> int \<Rightarrow> int \<Rightarrow> int \<Rightarrow> int \<Rightarrow> int \<Rightarrow> int \<Rightarrow> (cpu, unit) py" where
  "exec_Rtype inst inst_size rd funct3 rs1 rs2 funct7 c =
    (let a = registers c rs1; b = registers c rs2 in
     (if funct3 = 0x0 then
        if funct7 = 0x00 then set_reg rd ((a + b) AND 0xFFFFFFFF)
        else if funct7 = 0x20 then set_reg rd ((a - b) AND 0xFFFFFFFF)
        else if funct7 = 0x01 then set_reg rd ((signed32 a * signed32 b) AND 0xFFFFFFFF)
        else trap 2 inst True
      else if funct3 = 0x1 then
        if funct7 = 0x00 then set_reg rd (push_bit (nat (b AND 0x1F)) a AND 0xFFFFFFFF)
        else if funct7 = 0x01 then set_reg rd (drop_bit 32 (signed32 a * signed32 b) AND 0xFFFFFFFF)
        else trap 2 inst True
      else if funct3 = 0x2 then
        if funct7 = 0x00 then set_reg rd (py_bool (signed32 a < signed32 b))
        else if funct7 = 0x01 then
          set_reg rd (drop_bit 32 (signed32 a * (b AND 0xFFFFFFFF)) AND 0xFFFFFFFF)
        else trap 2 inst True
      else if funct3 = 0x3 then
        if funct7 = 0x00 then set_reg rd (py_bool (a AND 0xFFFFFFFF < b AND 0xFFFFFFFF))
        else if funct7 = 0x01 then
          set_reg rd (drop_bit 32 ((a AND 0xFFFFFFFF) * (b AND 0xFFFFFFFF)) AND 0xFFFFFFFF)
        else trap 2 inst True
      else if funct3 = 0x4 then
        if funct7 = 0x00 then set_reg rd (a XOR b)
        else if funct7 = 0x01 then
          let dividend = signed32 a; divisor = signed32 b
          in if divisor = 0 then set_reg rd 0xFFFFFFFF
             else if dividend = -0x80000000 \<and> divisor = -1 then set_reg rd 0x80000000
             else set_reg rd (py_int_truediv dividend divisor AND 0xFFFFFFFF)
        else trap 2 inst True
      else if funct3 = 0x5 then
        let shamt = nat (b AND 0x1F)
        in if funct7 = 0x00 then set_reg rd (drop_bit shamt (a AND 0xFFFFFFFF))
           else if funct7 = 0x20 then set_reg rd (drop_bit shamt (signed32 a) AND 0xFFFFFFFF)
           else if funct7 = 0x01 then
             let dividend = a AND 0xFFFFFFFF; divisor = b AND 0xFFFFFFFF
             in if divisor = 0 then set_reg rd 0xFFFFFFFF
                else set_reg rd ((dividend div divisor) AND 0xFFFFFFFF)
           else trap 2 inst True
      else if funct3 = 0x6 then
        if funct7 = 0x00 then set_reg rd (a OR b)
        else if funct7 = 0x01 then
          let dividend = signed32 a; divisor = signed32 b
          in if divisor = 0 then set_reg rd (a AND 0xFFFFFFFF)
             else if dividend = -0x80000000 \<and> divisor = -1 then set_reg rd 0
             else set_reg rd ((dividend - py_int_truediv dividend divisor * divisor) AND 0xFFFFFFFF)
        else trap 2 inst True
      else if funct3 = 0x7 then
        if funct7 = 0x00 then set_reg rd (a AND b)
        else if funct7 = 0x01 then
          let dividend = a AND 0xFFFFFFFF; divisor = b AND 0xFFFFFFFF
          in if divisor = 0 then set_reg rd (a AND 0xFFFFFFFF)
             else set_reg rd ((dividend mod divisor) AND 0xFFFFFFFF)
        else trap 2 inst True
      else py_return ()) c)"

text \<open>\<open>inst >> 20\<close>, sign-extended from 12 bits.\<close>

definition imm_i :: "int \<Rightarrow> int" where
  "imm_i inst = (let i = drop_bit 20 inst in if i \<ge> 0x800 then i - 0x1000 else i)"

definition exec_Itype :: "int \<Rightarrow> int \<Rightarrow> int \<Rightarrow> int \<Rightarrow> int \<Rightarrow> int \<Rightarrow> int \<Rightarrow> (cpu, unit) py" where
  "exec_Itype inst inst_size rd funct3 rs1 rs2 funct7 c =
    (let imm = imm_i inst; a = registers c rs1 in
     (if funct3 = 0x0 then set_reg rd ((a + imm) AND 0xFFFFFFFF)
      else if funct3 = 0x1 then
        if funct7 = 0x00 then set_reg rd (push_bit (nat (imm AND 0x1F)) a AND 0xFFFFFFFF)
        else trap 2 inst True
      else if funct3 = 0x2 then set_reg rd (py_bool (signed32 a < signed32 imm))
      else if funct3 = 0x3 then set_reg rd (py_bool (a AND 0xFFFFFFFF < imm AND 0xFFFFFFFF))
      else if funct3 = 0x4 then set_reg rd ((a XOR imm) AND 0xFFFFFFFF)
      else if funct3 = 0x5 then
        let shamt = nat (imm AND 0x1F)
        in if funct7 = 0x00 then set_reg rd (drop_bit shamt (a AND 0xFFFFFFFF))
           else if funct7 = 0x20 then set_reg rd (drop_bit shamt (signed32 a) AND 0xFFFFFFFF)
           else trap 2 inst True
      else if funct3 = 0x6 then set_reg rd ((a OR imm) AND 0xFFFFFFFF)
      else if funct3 = 0x7 then set_reg rd ((a AND imm) AND 0xFFFFFFFF)
      else py_return ()) c)"

definition exec_LUI :: "int \<Rightarrow> int \<Rightarrow> int \<Rightarrow> int \<Rightarrow> int \<Rightarrow> int \<Rightarrow> int \<Rightarrow> (cpu, unit) py" where
  "exec_LUI inst inst_size rd funct3 rs1 rs2 funct7 =
     (let imm_u = drop_bit 12 inst in set_reg rd (push_bit 12 imm_u AND 0xFFFFFFFF))"

definition exec_AUIPC :: "int \<Rightarrow> int \<Rightarrow> int \<Rightarrow> int \<Rightarrow> int \<Rightarrow> int \<Rightarrow> int \<Rightarrow> (cpu, unit) py" where
  "exec_AUIPC inst inst_size rd funct3 rs1 rs2 funct7 c =
     (let imm_u = drop_bit 12 inst in set_reg rd ((pc c + push_bit 12 imm_u) AND 0xFFFFFFFF) c)"

section \<open>Control transfer\<close>

definition imm_b :: "int \<Rightarrow> int" where
  "imm_b inst =
     (let i = push_bit 11 (drop_bit 7 inst AND 0x1) OR push_bit 1 (drop_bit 8 inst AND 0xF) OR
              push_bit 5 (drop_bit 25 inst AND 0x3F) OR push_bit 12 (drop_bit 31 inst)
      in if i \<ge> 0x1000 then i - 0x2000 else i)"

definition branch_taken :: "int \<Rightarrow> int \<Rightarrow> int \<Rightarrow> bool" where
  "branch_taken funct3 a b \<longleftrightarrow>
     (funct3 = 0x0 \<and> a = b) \<or>
     (funct3 = 0x1 \<and> a \<noteq> b) \<or>
     (funct3 = 0x4 \<and> signed32 a < signed32 b) \<or>
     (funct3 = 0x5 \<and> signed32 a \<ge> signed32 b) \<or>
     (funct3 = 0x6 \<and> a AND 0xFFFFFFFF < b AND 0xFFFFFFFF) \<or>
     (funct3 = 0x7 \<and> a AND 0xFFFFFFFF \<ge> b AND 0xFFFFFFFF)"

definition exec_branches :: "int \<Rightarrow> int \<Rightarrow> int \<Rightarrow> int \<Rightarrow> int \<Rightarrow> int \<Rightarrow> int \<Rightarrow> (cpu, unit) py" where
  "exec_branches inst inst_size rd funct3 rs1 rs2 funct7 c =
     (if branch_taken funct3 (registers c rs1) (registers c rs2) then
        let addr_target = (pc c + imm_b inst) AND 0xFFFFFFFF
        in if addr_target AND alignment_mask c \<noteq> 0 then trap 0 addr_target True c
           else set_next_pc addr_target c
      else if funct3 = 0x2 \<or> funct3 = 0x3 then trap 2 inst True c
      else (Inr (), c))"

definition imm_j :: "int \<Rightarrow> int" where
  "imm_j inst =
     (let i = push_bit 1 (drop_bit 21 inst AND 0x3FF) OR push_bit 11 (drop_bit 20 inst AND 0x1) OR
              push_bit 12 (drop_bit 12 inst AND 0xFF) OR push_bit 20 (drop_bit 31 inst)
      in if i \<ge> 0x100000 then i - 0x200000 else i)"

definition exec_JAL :: "int \<Rightarrow> int \<Rightarrow> int \<Rightarrow> int \<Rightarrow> int \<Rightarrow> int \<Rightarrow> int \<Rightarrow> (cpu, unit) py" where
  "exec_JAL inst inst_size rd funct3 rs1 rs2 funct7 c =
     (let addr_target = (pc c + imm_j inst) AND 0xFFFFFFFF
      in if addr_target AND alignment_mask c \<noteq> 0 then trap 0 addr_target True c
         else py_then (if rd \<noteq> 0 then set_reg rd ((pc c + inst_size) AND 0xFFFFFFFF) else py_return ())
                (set_next_pc addr_target) c)"

definition exec_JALR :: "int \<Rightarrow> int \<Rightarrow> int \<Rightarrow> int \<Rightarrow> int \<Rightarrow> int \<Rightarrow> int \<Rightarrow> (cpu, unit) py" where
  "exec_JALR inst inst_size rd funct3 rs1 rs2 funct7 c =
     (if funct3 \<noteq> 0x0 then trap 2 inst True c
      else let addr_target = (registers c rs1 + imm_i inst) AND 0xFFFFFFFE
           in if addr_target AND alignment_mask c \<noteq> 0 then trap 0 addr_target True c
              else py_then (if rd \<noteq> 0 then set_reg rd ((pc c + inst_size) AND 0xFFFFFFFF) else py_return ())
                     (set_next_pc addr_target) c)"

definition exec_MISCMEM :: "int \<Rightarrow> int \<Rightarrow> int \<Rightarrow> int \<Rightarrow> int \<Rightarrow> int \<Rightarrow> int \<Rightarrow> (cpu, unit) py" where
  "exec_MISCMEM inst inst_size rd funct3 rs1 rs2 funct7 =
     (if funct3 = 0 \<or> funct3 = 1 then py_return () else trap 2 inst True)"

section \<open>Division through floating point is exact\<close>

lemma bit_length_0 [simp]: "bit_length 0 = 0"
  by (subst bit_length.simps) simp

lemma bit_length_bounds:
  "n < 2 ^ bit_length n \<and> (0 < n \<longrightarrow> 2 ^ bit_length n \<le> 2 * n)"
proof (induction n rule: bit_length.induct)
  case (1 n)
  show ?case
  proof (cases "n = 0")
    case False
    with 1 have "n div 2 < 2 ^ bit_length (n div 2)" "0 < n div 2 \<longrightarrow> 2 ^ bit_length (n div 2) \<le> 2 * (n div 2)"
      by auto
    moreover have "bit_length n = Suc (bit_length (n div 2))"
      using False by (subst bit_length.simps) simp
    ultimately show ?thesis using False by (cases "n div 2 = 0") auto
  qed simp
qed

text \<open>Rounding does not reach the next integer when the scale exceeds half the divisor.\<close>

lemma round_half_even_trunc:
  assumes "0 \<le> a" and "0 < b" and "b < 2 * (2 ^ s)"
  shows "round_half_even (a * 2 ^ s) b div 2 ^ s = a div b"
proof -
  define q r where "q = a div b" and "r = a mod b"
  have r: "0 \<le> r" "r < b" and a: "a = q * b + r"
    using assms(2) by (simp_all add: q_def r_def)
  define q' r' where "q' = (r * 2 ^ s) div b" and "r' = (r * 2 ^ s) mod b"
  have r': "0 \<le> r'" "r' < b" "r * 2 ^ s = q' * b + r'"
    using assms(2) by (simp_all add: q'_def r'_def)
  have n: "a * 2 ^ s = q * 2 ^ s * b + r * 2 ^ s" by (simp add: a algebra_simps)
  have div_n: "(a * 2 ^ s) div b = q * 2 ^ s + q'" and mod_n: "(a * 2 ^ s) mod b = r'"
    using assms(2) by (simp_all add: n q'_def r'_def)
  have q'0: "0 \<le> q'" using r assms(2) by (simp add: q'_def pos_imp_zdiv_nonneg_iff)
  have up: "q' + (if b \<le> 2 * r' then 1 else 0) < 2 ^ s"
  proof (rule ccontr)
    assume "\<not> ?thesis"
    then have "2 ^ s - (if b \<le> 2 * r' then 1 else 0) \<le> q'" by linarith
    then have "(2 ^ s - (if b \<le> 2 * r' then 1 else 0)) * b \<le> q' * b"
      using assms(2) by (intro mult_right_mono) auto
    moreover have "r * 2 ^ s \<le> (b - 1) * 2 ^ s" using r by (intro mult_right_mono) auto
    ultimately show False using r'(1,3) assms(3) by (auto simp: algebra_simps split: if_splits)
  qed
  define e :: int where "e = round_half_even (a * 2 ^ s) b - q * 2 ^ s"
  have "0 \<le> e" "e < 2 ^ s"
    using up q'0 by (auto simp: e_def round_half_even_def Let_def div_n mod_n split: if_splits)
  then have "(q * 2 ^ s + e) div 2 ^ s = q"
    by simp
  then show ?thesis by (simp add: e_def q_def)
qed

lemma float_quot_trunc_exact:
  assumes "0 \<le> a" "a \<le> 2 ^ 32" "0 < b" "b \<le> 2 ^ 32"
  shows "float_quot_trunc a b = a div b"
proof -
  define k where "k = bit_length (nat (a div b))"
  have q0: "0 \<le> a div b" using assms by (simp add: pos_imp_zdiv_nonneg_iff)
  have scale: "k \<le> 33 \<and> b * 2 ^ k \<le> 2 ^ 33"
  proof (cases "a div b = 0")
    case True
    then show ?thesis using assms(4) by (simp add: k_def)
  next
    case False
    then have "(2 :: nat) ^ k \<le> 2 * nat (a div b)"
      using bit_length_bounds [of "nat (a div b)"] q0 by (simp add: k_def)
    then have k: "(2 :: int) ^ k \<le> 2 * (a div b)"
      using q0 by (simp add: nat_le_eq_zle flip: nat_mult_distrib nat_power_eq of_nat_le_iff [where 'a = int])
    have "b * 2 ^ k \<le> b * (2 * (a div b))" using k assms(3) by (intro mult_left_mono) auto
    also have "\<dots> \<le> 2 * a"
      using minus_mod_eq_mult_div [of a b] pos_mod_sign [OF assms(3), of a] by linarith
    finally have b: "b * 2 ^ k \<le> 2 ^ 33" using assms(2) by simp
    have "(2 :: int) ^ k \<le> b * 2 ^ k" using assms(3) by simp
    with b have "(2 :: int) ^ k \<le> 2 ^ 33" by linarith
    then have "k \<le> 33" by (rule power_le_imp_le_exp [rotated]) simp
    then show ?thesis using b by simp
  qed
  have "b < 2 * (2 ^ (53 - k))"
  proof (rule ccontr)
    assume "\<not> ?thesis"
    then have "2 * 2 ^ (53 - k) * 2 ^ k \<le> b * 2 ^ k" by (intro mult_right_mono) auto
    moreover have "(2 :: int) * 2 ^ (53 - k) * 2 ^ k = 2 ^ 54"
      using scale by (simp flip: power_add power_Suc)
    ultimately show False using scale by simp
  qed
  with scale show ?thesis
    using round_half_even_trunc [of a b "53 - k"] assms by (simp add: float_quot_trunc_def Let_def flip: k_def)
qed

lemma py_int_truediv_sdiv:
  assumes "\<bar>a\<bar> \<le> 2 ^ 32" "b \<noteq> 0" "\<bar>b\<bar> \<le> 2 ^ 32"
  shows "py_int_truediv a b = a sdiv b"
  using assms by (simp add: py_int_truediv_def float_quot_trunc_exact signed_divide_int_def)


section \<open>Word-level instruction semantics\<close>

definition rtype_spec :: "int \<Rightarrow> int \<Rightarrow> 32 word \<Rightarrow> 32 word \<Rightarrow> 32 word option" where
  "rtype_spec f3 f7 a b =
    (if f7 = 0 then
       (if f3 = 0 then Some (a + b)
        else if f3 = 1 then Some (push_bit (unat b mod 32) a)
        else if f3 = 2 then Some (if a <s b then 1 else 0)
        else if f3 = 3 then Some (if a < b then 1 else 0)
        else if f3 = 4 then Some (a XOR b)
        else if f3 = 5 then Some (drop_bit (unat b mod 32) a)
        else if f3 = 6 then Some (a OR b)
        else Some (a AND b))
     else if f7 = 0x20 then
       (if f3 = 0 then Some (a - b)
        else if f3 = 5 then Some (signed_drop_bit (unat b mod 32) a)
        else None)
     else if f7 = 1 then
       (if f3 = 0 then Some (a * b)
        else if f3 = 1 then Some (word_of_int (sint a * sint b div 2 ^ 32))
        else if f3 = 2 then Some (word_of_int (sint a * uint b div 2 ^ 32))
        else if f3 = 3 then Some (word_of_int (uint a * uint b div 2 ^ 32))
        else if f3 = 4 then Some (if b = 0 then - 1 else word_of_int (sint a sdiv sint b))
        else if f3 = 5 then Some (if b = 0 then - 1 else a div b)
        else if f3 = 6 then Some (if b = 0 then a else word_of_int (sint a smod sint b))
        else Some (a mod b))
     else None)"

lemma bit_top_iff:
  fixes x :: int
  assumes "0 \<le> x" "x < 2 * 2 ^ n"
  shows "bit x n \<longleftrightarrow> 2 ^ n \<le> x"
proof (cases "2 ^ n \<le> x")
  case True
  then have "x div 2 ^ n = 1" using assms by (intro int_div_pos_eq [where r = "x - 2 ^ n"]) auto
  then show ?thesis using True by (simp add: bit_iff_odd)
next
  case False
  then show ?thesis using assms by (simp add: bit_iff_odd)
qed

lemma signed32_uint: "signed32 (uint (a :: 32 word)) = sint a"
proof -
  have "fits (Suc 31) (uint a)" using uint_lt2p [of a] by (simp add: fits_def)
  then have "signed_take_bit 31 (uint a) = (if bit (uint a) 31 then uint a - 2 ^ 32 else uint a)"
    by (simp add: signed_take_bit_sub)
  moreover have "bit (uint a) 31 \<longleftrightarrow> 0x80000000 \<le> uint a"
    using uint_lt2p [of a] bit_top_iff [of "uint a" 31] by simp
  ultimately show ?thesis
    by (simp add: signed32_def sint_uint)
qed


text \<open>The 32-bit results as the unsigned value of a word.\<close>

lemma uint_word_of_int_and: "uint (word_of_int z :: 32 word) = z AND 0xFFFFFFFF"
  by (simp add: bits uint_word_of_int_eq)

lemma uint_arith:
  fixes a b :: "32 word"
  shows "(uint a + uint b) AND 0xFFFFFFFF = uint (a + b)"
    and "(uint a - uint b) AND 0xFFFFFFFF = uint (a - b)"
    and "(sint a * sint b) AND 0xFFFFFFFF = uint (a * b)"
  by (simp_all flip: uint_word_of_int_and)

lemma uint_add_imm: "(uint a + z) AND 0xFFFFFFFF = uint (a + word_of_int z :: 32 word)"
  by (simp flip: uint_word_of_int_and)

lemma uint_bitwise:
  fixes a b :: "32 word"
  shows "uint a XOR uint b = uint (a XOR b)"
    and "uint a OR uint b = uint (a OR b)"
    and "uint a AND uint b = uint (a AND b)"
  by (simp_all add: unsigned_xor_eq unsigned_or_eq unsigned_and_eq)

lemma uint_bitwise_mask:
  fixes a :: "32 word"
  shows "(uint a XOR z) AND 0xFFFFFFFF = uint (a XOR word_of_int z)"
    and "(uint a OR z) AND 0xFFFFFFFF = uint (a OR word_of_int z)"
    and "(uint a AND z) AND 0xFFFFFFFF = uint (a AND word_of_int z)"
  unfolding uint_word_of_int_and [symmetric]
  by (rule arg_cong [where f = uint], rule bit_word_eqI, simp add: bit_simps)+

lemma uint_and_mask [simp]: "uint (a :: 32 word) AND 0xFFFFFFFF = uint a"
  by (simp flip: uint_word_of_int_and)

lemma nat_and_1F: "nat (uint (b :: 32 word) AND 0x1F) = unat b mod 32"
  by (simp add: bits take_bit_eq_mod nat_mod_distrib)

lemma uint_shift:
  fixes a b :: "32 word"
  shows "push_bit n (uint a) AND 0xFFFFFFFF = uint (push_bit n a)"
    and "drop_bit n (uint a) = uint (drop_bit n a)"
    and "drop_bit n (sint a) AND 0xFFFFFFFF = uint (signed_drop_bit n a)"
proof -
  show "push_bit n (uint a) AND 0xFFFFFFFF = uint (push_bit n a)"
    unfolding uint_word_of_int_and [symmetric]
    by (rule arg_cong [where f = uint], rule bit_word_eqI) (auto simp: bit_simps)
  show "drop_bit n (uint a) = uint (drop_bit n a)"
    by (rule bit_eqI) (auto simp: bit_simps dest: bit_imp_le_length)
  show "drop_bit n (sint a) AND 0xFFFFFFFF = uint (signed_drop_bit n a)"
    unfolding uint_word_of_int_and [symmetric]
    by (rule arg_cong [where f = uint], rule bit_word_eqI) (auto simp: bit_simps ac_simps)
qed

lemma uint_less: "uint a < uint b \<longleftrightarrow> a < b" "sint a < sint b \<longleftrightarrow> a <s b" for a b :: "32 word"
  by (simp_all add: word_less_def word_sless_alt)

lemma sint_bounds: "- (2 ^ 31) \<le> sint (a :: 32 word)" "sint a < 2 ^ 31"
  using sint_ge [of a] sint_lt [of a] by simp_all

lemma sint_eq_0: "sint (b :: 32 word) = 0 \<longleftrightarrow> b = 0"
  using signed_word_eqI [of b 0] by auto

lemma uint_eq_0: "uint (b :: 32 word) = 0 \<longleftrightarrow> b = 0"
  by (simp add: unsigned_eq_0_iff)

lemma div_spec:
  fixes a b :: "32 word"
  assumes "b \<noteq> 0"
  shows "py_int_truediv (sint a) (sint b) = sint a sdiv sint b"
    and "sint a - py_int_truediv (sint a) (sint b) * sint b = sint a smod sint b"
proof -
  show *: "py_int_truediv (sint a) (sint b) = sint a sdiv sint b"
    using assms sint_bounds [of a] sint_bounds [of b]
    by (intro py_int_truediv_sdiv) (auto simp: sint_eq_0)
  show "sint a - py_int_truediv (sint a) (sint b) * sint b = sint a smod sint b"
    unfolding * by (rule minus_sdiv_mult_eq_smod)
qed

lemma signed_overflow:
  fixes a b :: "32 word"
  assumes "sint a = - 0x80000000" "sint b = - 1"
  shows "uint (word_of_int (sint a sdiv sint b) :: 32 word) = 0x80000000"
    and "sint a smod sint b = 0"
  unfolding assms by (simp_all add: uint_word_of_int_and signed_divide_int_def signed_modulo_int_def)

lemma uint_minus_1: "uint (- 1 :: 32 word) = 0xFFFFFFFF"
  by (simp add: unsigned_minus_1_eq_mask mask_eq_exp_minus_1)

lemma py_bool_word: "py_bool P = uint (if P then 1 else 0 :: 32 word)"
  by (simp add: py_bool_def)

lemma uint_divmod:
  fixes a b :: "32 word"
  shows "(uint a div uint b) AND 0xFFFFFFFF = uint (a div b)"
    and "(uint a mod uint b) AND 0xFFFFFFFF = uint (a mod b)"
  by (simp_all flip: uint_word_of_int_and add: word_div_def word_mod_def)

lemma smod_1: "k smod (1 :: int) = 0"
  by (simp add: signed_modulo_int_def)

lemmas uint_words = uint_arith uint_bitwise uint_shift uint_less uint_divmod signed32_uint nat_and_1F
  uint_and_mask py_bool_word

lemma f3_cases:
  assumes "0 \<le> f3" "f3 \<le> (7 :: int)"
  shows "f3 = 0 \<or> f3 = 1 \<or> f3 = 2 \<or> f3 = 3 \<or> f3 = 4 \<or> f3 = 5 \<or> f3 = 6 \<or> f3 = 7"
  using assms by linarith

lemma exec_Rtype_words:
  assumes "registers c rs1 = uint a" "registers c rs2 = uint b" "0 \<le> f3" "f3 \<le> 7"
  shows "exec_Rtype inst sz rd f3 rs1 rs2 f7 c =
    (case rtype_spec f3 f7 a b of Some v \<Rightarrow> set_reg rd (uint v) c | None \<Rightarrow> trap 2 inst True c)"
  using f3_cases [OF assms(3,4)]
  apply (elim disjE; hypsubst)
  apply (simp_all only: exec_Rtype_def Let_def assms(1,2) uint_words)
  apply (simp_all add: rtype_spec_def sint_eq_0 uint_eq_0 div_spec signed_overflow uint_word_of_int_and
    drop_bit_eq_div uint_minus_1 minus_sdiv_mult_eq_smod smod_1)
  done

definition itype_spec :: "int \<Rightarrow> int \<Rightarrow> 32 word \<Rightarrow> 32 word \<Rightarrow> 32 word option" where
  "itype_spec f3 f7 a i =
    (if f3 = 0 then Some (a + i)
     else if f3 = 1 then (if f7 = 0 then Some (push_bit (unat i mod 32) a) else None)
     else if f3 = 2 then Some (if a <s i then 1 else 0)
     else if f3 = 3 then Some (if a < i then 1 else 0)
     else if f3 = 4 then Some (a XOR i)
     else if f3 = 5 then
       (if f7 = 0 then Some (drop_bit (unat i mod 32) a)
        else if f7 = 0x20 then Some (signed_drop_bit (unat i mod 32) a)
        else None)
     else if f3 = 6 then Some (a OR i)
     else Some (a AND i))"

lemma fits_drop_bit: "fits n x \<Longrightarrow> fits (n - k) (drop_bit k x)"
  using drop_bit_take_bit [of k n x] by (simp add: fits_iff_take_bit)

lemma imm_i_signed:
  assumes "fits 32 inst"
  shows "imm_i inst = signed_take_bit 11 (drop_bit 20 inst)"
proof -
  have f: "fits (Suc 11) (drop_bit 20 inst)" using fits_drop_bit [OF assms, of 20] by simp
  then show ?thesis
    using bit_top_iff [of "drop_bit 20 inst" 11] signed_take_bit_sub [OF f]
    by (simp add: imm_i_def Let_def fits_def)
qed

lemma imm_i_bounds: "fits 32 inst \<Longrightarrow> - 2048 \<le> imm_i inst \<and> imm_i inst < 2048"
  using signed_take_bit_int_greater_eq_minus_exp [of 11 "drop_bit 20 inst"]
    signed_take_bit_int_less_exp [of 11 "drop_bit 20 inst"]
  by (simp add: imm_i_signed)

lemma sint_small: "- 2048 \<le> z \<Longrightarrow> z < 2048 \<Longrightarrow> sint (word_of_int z :: 32 word) = z"
  by (simp add: signed_of_int signed_take_bit_int_eq_self)

lemma signed32_small: "z < 2048 \<Longrightarrow> signed32 z = z"
  by (simp add: signed32_def)

lemma imm_word:
  "z AND 0xFFFFFFFF = uint (word_of_int z :: 32 word)"
  "nat (z AND 0x1F) = unat (word_of_int z :: 32 word) mod 32"
  using nat_and_1F [of "word_of_int z"] by (simp_all add: bits uint_word_of_int_eq)

lemma exec_Itype_words:
  assumes "registers c rs1 = uint a" "fits 32 inst" "0 \<le> f3" "f3 \<le> 7"
  shows "exec_Itype inst sz rd f3 rs1 rs2 f7 c =
    (case itype_spec f3 f7 a (word_of_int (imm_i inst)) of
       Some v \<Rightarrow> set_reg rd (uint v) c | None \<Rightarrow> trap 2 inst True c)"
  using f3_cases [OF assms(3,4)]
  apply (elim disjE; hypsubst)
  apply (simp_all only: exec_Itype_def Let_def assms(1) uint_words imm_word(2) uint_add_imm uint_bitwise_mask)
  using imm_i_bounds [OF assms(2)]
  apply (simp_all add: itype_spec_def imm_word(1) signed32_small uint_less(1) uint_less(2) [symmetric] sint_small py_bool_word)
  done

end
