(* ===== verification/Rvc.thy ===== *)
theory Rvc
  imports Isa
begin

text \<open>
  The expansion of compressed instructions, \<open>rvc.py\<close>. \<open>expand_compressed\<close> takes the 16-bit
  instruction and returns the 32-bit one and a success flag. The quadrants of the source's one
  function are \<open>expand_c0\<close>, \<open>expand_c1\<close> (with its arithmetic group \<open>expand_c1_arith\<close>) and
  \<open>expand_c2\<close>; falling through a quadrant is the final \<open>return (0, False)\<close>.
\<close>

unbundle bit_operations_syntax

section \<open>expand\_compressed\<close>

definition rvc_illegal :: "int \<times> bool" where
  "rvc_illegal = (0, False)"

text \<open>\<open>if imm & bit: imm -= 2 * bit\<close>\<close>

definition sub_if_set :: "int \<Rightarrow> int \<Rightarrow> int \<Rightarrow> int" where
  "sub_if_set imm m d = (if imm AND m \<noteq> 0 then imm - d else imm)"

definition expand_c0 :: "int \<Rightarrow> int \<times> bool" where
  "expand_c0 c =
    (let funct3 = drop_bit 13 c AND 0x7 in
     if funct3 = 0 then
       let nzuimm = (drop_bit 7 c AND 0x30) OR (drop_bit 1 c AND 0x3C0) OR (drop_bit 4 c AND 0x4) OR (drop_bit 2 c AND 0x8);
           rd' = (drop_bit 2 c AND 0x7) + 8
       in if nzuimm = 0 then rvc_illegal
          else (push_bit 20 nzuimm OR push_bit 15 2 OR push_bit 12 0 OR push_bit 7 rd' OR 0x13, True)
     else if funct3 = 2 then
       let imm = (drop_bit 7 c AND 0x38) OR (drop_bit 4 c AND 0x4) OR (push_bit 1 c AND 0x40);
           rs1' = (drop_bit 7 c AND 0x7) + 8;
           rd' = (drop_bit 2 c AND 0x7) + 8
       in (push_bit 20 imm OR push_bit 15 rs1' OR push_bit 12 0x2 OR push_bit 7 rd' OR 0x03, True)
     else if funct3 = 6 then
       let imm = (drop_bit 7 c AND 0x38) OR (drop_bit 4 c AND 0x4) OR (push_bit 1 c AND 0x40);
           rs1' = (drop_bit 7 c AND 0x7) + 8;
           rs2' = (drop_bit 2 c AND 0x7) + 8;
           imm_low = imm AND 0x1F;
           imm_high = drop_bit 5 imm AND 0x7F
       in (push_bit 25 imm_high OR push_bit 20 rs2' OR push_bit 15 rs1' OR push_bit 12 0x2 OR push_bit 7 imm_low OR 0x23, True)
     else rvc_illegal)"

definition expand_c1_arith :: "int \<Rightarrow> int \<times> bool" where
  "expand_c1_arith c =
    (let funct2 = drop_bit 10 c AND 0x3;
         rd_rs1' = (drop_bit 7 c AND 0x7) + 8
     in if funct2 = 0 then
          let shamt = (drop_bit 7 c AND 0x20) OR (drop_bit 2 c AND 0x1F)
          in if shamt = 0 then rvc_illegal
             else (push_bit 25 0x00 OR push_bit 20 shamt OR push_bit 15 rd_rs1' OR push_bit 12 0x5 OR push_bit 7 rd_rs1' OR 0x13, True)
        else if funct2 = 1 then
          let shamt = (drop_bit 7 c AND 0x20) OR (drop_bit 2 c AND 0x1F)
          in if shamt = 0 then rvc_illegal
             else (push_bit 25 0x20 OR push_bit 20 shamt OR push_bit 15 rd_rs1' OR push_bit 12 0x5 OR push_bit 7 rd_rs1' OR 0x13, True)
        else if funct2 = 2 then
          let imm = sub_if_set ((drop_bit 7 c AND 0x20) OR (drop_bit 2 c AND 0x1F)) 0x20 0x40;
              imm = imm AND 0xFFF
          in (push_bit 20 imm OR push_bit 15 rd_rs1' OR push_bit 12 0x7 OR push_bit 7 rd_rs1' OR 0x13, True)
        else if funct2 = 3 then
          let funct2_low = drop_bit 5 c AND 0x3;
              rs2' = (drop_bit 2 c AND 0x7) + 8;
              bit12 = drop_bit 12 c AND 0x1
          in if bit12 = 0 then
               if funct2_low = 0 then
                 (push_bit 25 0x20 OR push_bit 20 rs2' OR push_bit 15 rd_rs1' OR push_bit 12 0x0 OR push_bit 7 rd_rs1' OR 0x33, True)
               else if funct2_low = 1 then
                 (push_bit 25 0x00 OR push_bit 20 rs2' OR push_bit 15 rd_rs1' OR push_bit 12 0x4 OR push_bit 7 rd_rs1' OR 0x33, True)
               else if funct2_low = 2 then
                 (push_bit 25 0x00 OR push_bit 20 rs2' OR push_bit 15 rd_rs1' OR push_bit 12 0x6 OR push_bit 7 rd_rs1' OR 0x33, True)
               else if funct2_low = 3 then
                 (push_bit 25 0x00 OR push_bit 20 rs2' OR push_bit 15 rd_rs1' OR push_bit 12 0x7 OR push_bit 7 rd_rs1' OR 0x33, True)
               else rvc_illegal
             else rvc_illegal
        else rvc_illegal)"

text \<open>The immediates of \<open>C.J\<close>/\<open>C.JAL\<close> and \<open>C.BEQZ\<close>/\<open>C.BNEZ\<close>, and their place in the expansion.\<close>

definition cj_imm :: "int \<Rightarrow> int" where
  "cj_imm c = sub_if_set
     ((drop_bit 1 c AND 0x800) OR (push_bit 2 c AND 0x400) OR (drop_bit 1 c AND 0x300) OR
      (push_bit 1 c AND 0x80) OR (drop_bit 1 c AND 0x40) OR (push_bit 3 c AND 0x20) OR
      (drop_bit 7 c AND 0x10) OR (drop_bit 2 c AND 0xE)) 0x800 0x1000"

definition cj_imm_bits :: "int \<Rightarrow> int" where
  "cj_imm_bits imm =
     push_bit 11 (imm AND 0x100000) OR push_bit 20 (imm AND 0x7FE) OR push_bit 9 (imm AND 0x800) OR (imm AND 0xFF000)"

definition cb_imm :: "int \<Rightarrow> int" where
  "cb_imm c = sub_if_set
     ((drop_bit 4 c AND 0x100) OR (push_bit 1 c AND 0xC0) OR (push_bit 3 c AND 0x20) OR
      (drop_bit 7 c AND 0x18) OR (drop_bit 2 c AND 0x6)) 0x100 0x200"

definition cb_imm_bits :: "int \<Rightarrow> int" where
  "cb_imm_bits imm =
     push_bit 19 (imm AND 0x1000) OR push_bit 20 (imm AND 0x7E0) OR push_bit 7 (imm AND 0x1E) OR drop_bit 4 (imm AND 0x800)"

definition expand_c1 :: "int \<Rightarrow> int \<times> bool" where
  "expand_c1 c =
    (let funct3 = drop_bit 13 c AND 0x7 in
     if funct3 = 0 then
       let nzimm = sub_if_set ((drop_bit 7 c AND 0x20) OR (drop_bit 2 c AND 0x1F)) 0x20 0x40;
           rd_rs1 = drop_bit 7 c AND 0x1F;
           imm = nzimm AND 0xFFF
       in (push_bit 20 imm OR push_bit 15 rd_rs1 OR push_bit 12 0 OR push_bit 7 rd_rs1 OR 0x13, True)
     else if funct3 = 1 then
       (cj_imm_bits (cj_imm c) OR push_bit 7 1 OR 0x6F, True)
     else if funct3 = 2 then
       let imm = sub_if_set ((drop_bit 7 c AND 0x20) OR (drop_bit 2 c AND 0x1F)) 0x20 0x40;
           rd = drop_bit 7 c AND 0x1F;
           imm = imm AND 0xFFF
       in (push_bit 20 imm OR push_bit 15 0 OR push_bit 12 0 OR push_bit 7 rd OR 0x13, True)
     else if funct3 = 3 then
       let rd = drop_bit 7 c AND 0x1F
       in if rd = 2 then
            let nzimm = sub_if_set
                  ((drop_bit 3 c AND 0x200) OR (drop_bit 2 c AND 0x10) OR (push_bit 1 c AND 0x40) OR
                   (push_bit 4 c AND 0x180) OR (push_bit 3 c AND 0x20)) 0x200 0x400
            in if nzimm = 0 then rvc_illegal
               else let imm = nzimm AND 0xFFF
                    in (push_bit 20 imm OR push_bit 15 2 OR push_bit 12 0 OR push_bit 7 2 OR 0x13, True)
          else
            let nzimm = sub_if_set ((drop_bit 7 c AND 0x20) OR (drop_bit 2 c AND 0x1F)) 0x20 0x40
            in if nzimm = 0 \<or> rd = 0 then rvc_illegal
               else let imm_20bit = nzimm AND 0xFFFFF
                    in (push_bit 12 imm_20bit OR push_bit 7 rd OR 0x37, True)
     else if funct3 = 4 then expand_c1_arith c
     else if funct3 = 5 then
       (cj_imm_bits (cj_imm c) OR push_bit 7 0 OR 0x6F, True)
     else if funct3 = 6 then
       let rs1' = (drop_bit 7 c AND 0x7) + 8
       in (cb_imm_bits (cb_imm c) OR push_bit 20 0 OR push_bit 15 rs1' OR push_bit 12 0x0 OR 0x63, True)
     else if funct3 = 7 then
       let rs1' = (drop_bit 7 c AND 0x7) + 8
       in (cb_imm_bits (cb_imm c) OR push_bit 20 0 OR push_bit 15 rs1' OR push_bit 12 0x1 OR 0x63, True)
     else rvc_illegal)"

definition expand_c2 :: "int \<Rightarrow> int \<times> bool" where
  "expand_c2 c =
    (let funct3 = drop_bit 13 c AND 0x7 in
     if funct3 = 0 then
       let shamt = (drop_bit 7 c AND 0x20) OR (drop_bit 2 c AND 0x1F);
           rd_rs1 = drop_bit 7 c AND 0x1F
       in if shamt = 0 \<or> rd_rs1 = 0 then rvc_illegal
          else (push_bit 25 0x00 OR push_bit 20 shamt OR push_bit 15 rd_rs1 OR push_bit 12 0x1 OR push_bit 7 rd_rs1 OR 0x13, True)
     else if funct3 = 2 then
       let offset_5 = drop_bit 12 c AND 0x1;
           offset_4_2 = drop_bit 4 c AND 0x7;
           offset_7_6 = drop_bit 2 c AND 0x3;
           imm = push_bit 6 offset_7_6 OR push_bit 5 offset_5 OR push_bit 2 offset_4_2;
           rd = drop_bit 7 c AND 0x1F
       in if rd = 0 then rvc_illegal
          else (push_bit 20 imm OR push_bit 15 2 OR push_bit 12 0x2 OR push_bit 7 rd OR 0x03, True)
     else if funct3 = 4 then
       let bit12 = drop_bit 12 c AND 0x1;
           rs1 = drop_bit 7 c AND 0x1F;
           rs2 = drop_bit 2 c AND 0x1F
       in if bit12 = 0 then
            if rs2 = 0 then
              if rs1 = 0 then rvc_illegal
              else (push_bit 20 0 OR push_bit 15 rs1 OR push_bit 12 0 OR push_bit 7 0 OR 0x67, True)
            else if rs1 = 0 then rvc_illegal
            else (push_bit 25 0x00 OR push_bit 20 rs2 OR push_bit 15 0 OR push_bit 12 0x0 OR push_bit 7 rs1 OR 0x33, True)
          else if rs1 = 0 \<and> rs2 = 0 then (0x00100073, True)
          else if rs2 = 0 then
            (push_bit 20 0 OR push_bit 15 rs1 OR push_bit 12 0 OR push_bit 7 1 OR 0x67, True)
          else (push_bit 25 0x00 OR push_bit 20 rs2 OR push_bit 15 rs1 OR push_bit 12 0x0 OR push_bit 7 rs1 OR 0x33, True)
     else if funct3 = 6 then
       let imm = (drop_bit 7 c AND 0x3C) OR (drop_bit 1 c AND 0xC0);
           rs2 = drop_bit 2 c AND 0x1F;
           imm_low = imm AND 0x1F;
           imm_high = drop_bit 5 imm AND 0x7F
       in (push_bit 25 imm_high OR push_bit 20 rs2 OR push_bit 15 2 OR push_bit 12 0x2 OR push_bit 7 imm_low OR 0x23, True)
     else rvc_illegal)"

definition expand_compressed :: "int \<Rightarrow> int \<times> bool" where
  "expand_compressed c =
    (let quadrant = c AND 0x3 in
     if quadrant = 0 then expand_c0 c
     else if quadrant = 1 then expand_c1 c
     else if quadrant = 2 then expand_c2 c
     else rvc_illegal)"

lemma sub_if_set_sign:
  assumes "fits (Suc n) x" "m = 2 ^ n" "d = 2 ^ Suc n"
  shows "sub_if_set x m d = signed_take_bit n x"
  using assms by (simp add: sub_if_set_def signed_take_bit_sub and_exp_iff_bit)

text \<open>The immediates of the compressed formats, as the tables of the manual lay them out.\<close>

definition c_imm6 :: "int \<Rightarrow> int" where
  "c_imm6 c = signed_take_bit 5 (push_bit 5 (fld 12 12 c) OR fld 6 2 c)"
definition c_shamt :: "int \<Rightarrow> int" where
  "c_shamt c = push_bit 5 (fld 12 12 c) OR fld 6 2 c"
definition c_lw_imm :: "int \<Rightarrow> int" where
  "c_lw_imm c = push_bit 3 (fld 12 10 c) OR push_bit 2 (fld 6 6 c) OR push_bit 6 (fld 5 5 c)"
definition c_addi4spn_imm :: "int \<Rightarrow> int" where
  "c_addi4spn_imm c = push_bit 4 (fld 12 11 c) OR push_bit 6 (fld 10 7 c) OR push_bit 2 (fld 6 6 c) OR push_bit 3 (fld 5 5 c)"
definition c_addi16sp_imm :: "int \<Rightarrow> int" where
  "c_addi16sp_imm c = signed_take_bit 9 (push_bit 9 (fld 12 12 c) OR push_bit 4 (fld 6 6 c) OR push_bit 6 (fld 5 5 c)
     OR push_bit 7 (fld 4 3 c) OR push_bit 5 (fld 2 2 c))"
definition c_j_imm :: "int \<Rightarrow> int" where
  "c_j_imm c = signed_take_bit 11 (push_bit 11 (fld 12 12 c) OR push_bit 4 (fld 11 11 c) OR push_bit 8 (fld 10 9 c)
     OR push_bit 10 (fld 8 8 c) OR push_bit 6 (fld 7 7 c) OR push_bit 7 (fld 6 6 c) OR push_bit 1 (fld 5 3 c) OR push_bit 5 (fld 2 2 c))"
definition c_b_imm :: "int \<Rightarrow> int" where
  "c_b_imm c = signed_take_bit 8 (push_bit 8 (fld 12 12 c) OR push_bit 3 (fld 11 10 c) OR push_bit 6 (fld 6 5 c)
     OR push_bit 1 (fld 4 3 c) OR push_bit 5 (fld 2 2 c))"
definition c_lwsp_imm :: "int \<Rightarrow> int" where
  "c_lwsp_imm c = push_bit 5 (fld 12 12 c) OR push_bit 2 (fld 6 4 c) OR push_bit 6 (fld 3 2 c)"
definition c_swsp_imm :: "int \<Rightarrow> int" where
  "c_swsp_imm c = push_bit 2 (fld 12 9 c) OR push_bit 6 (fld 8 7 c)"

text \<open>The table of the compressed instructions that are accepted, by the base instruction each stands for.\<close>

definition rvc_table :: "int \<Rightarrow> rv_inst option" where
  "rvc_table c =
    (let q = fld 1 0 c; f3 = fld 15 13 c; rd = fld 11 7 c; rs2 = fld 6 2 c;
         rd' = 8 + fld 4 2 c; rs1' = 8 + fld 9 7 c
     in if q = 0 then
          (if f3 = 0 then (if c_addi4spn_imm c = 0 then None else Some (IType 0x13 rd' 0 2 (c_addi4spn_imm c)))
           else if f3 = 2 then Some (IType 0x03 rd' 2 rs1' (c_lw_imm c))
           else if f3 = 6 then Some (SType 2 rs1' rd' (c_lw_imm c))
           else None)
        else if q = 1 then
          (if f3 = 0 then Some (IType 0x13 rd 0 rd (c_imm6 c))
           else if f3 = 1 then Some (JType 1 (c_j_imm c))
           else if f3 = 2 then Some (IType 0x13 rd 0 0 (c_imm6 c))
           else if f3 = 3 then
             (if rd = 2 then (if c_addi16sp_imm c = 0 then None else Some (IType 0x13 2 0 2 (c_addi16sp_imm c)))
              else if c_imm6 c = 0 \<or> rd = 0 then None else Some (UType 0x37 rd (c_imm6 c)))
           else if f3 = 4 then
             (if fld 11 10 c = 0 then (if c_shamt c = 0 then None else Some (IType 0x13 rs1' 5 rs1' (c_shamt c)))
              else if fld 11 10 c = 1 then (if c_shamt c = 0 then None else Some (IType 0x13 rs1' 5 rs1' (0x400 + c_shamt c)))
              else if fld 11 10 c = 2 then Some (IType 0x13 rs1' 7 rs1' (c_imm6 c))
              else if fld 11 10 c = 3 then
                (if fld 12 12 c = 0 then
                (if fld 6 5 c = 0 then Some (RType 0x33 rs1' 0 rs1' rd' 0x20)
                 else if fld 6 5 c = 1 then Some (RType 0x33 rs1' 4 rs1' rd' 0)
                 else if fld 6 5 c = 2 then Some (RType 0x33 rs1' 6 rs1' rd' 0)
                 else if fld 6 5 c = 3 then Some (RType 0x33 rs1' 7 rs1' rd' 0)
                 else None)
                 else None)
              else None)
           else if f3 = 5 then Some (JType 0 (c_j_imm c))
           else if f3 = 6 then Some (BType 0 rs1' 0 (c_b_imm c))
           else if f3 = 7 then Some (BType 1 rs1' 0 (c_b_imm c))
           else None)
        else if q = 2 then
          (if f3 = 0 then (if c_shamt c = 0 \<or> rd = 0 then None else Some (IType 0x13 rd 1 rd (c_shamt c)))
           else if f3 = 2 then (if rd = 0 then None else Some (IType 0x03 rd 2 2 (c_lwsp_imm c)))
           else if f3 = 4 then
             (if fld 12 12 c = 0 then
                (if rs2 = 0 then (if rd = 0 then None else Some (IType 0x67 0 0 rd 0))
                 else if rd = 0 then None else Some (RType 0x33 rd 0 0 rs2 0))
              else if rd = 0 \<and> rs2 = 0 then Some (IType 0x73 0 0 0 1)
              else if rs2 = 0 then Some (IType 0x67 1 0 rd 0)
              else Some (RType 0x33 rd 0 rd rs2 0))
           else if f3 = 6 then Some (SType 2 2 rs2 (c_swsp_imm c))
           else None)
        else None)"

lemma imm_addi4spn:
  "(drop_bit 7 c AND 0x30) OR (drop_bit 1 c AND 0x3C0) OR (drop_bit 4 c AND 0x4) OR (drop_bit 2 c AND 0x8) = c_addi4spn_imm c"
  unfolding c_addi4spn_imm_def
  by (rule bits32I) ((intro fits_intros fits_numeral fits_one; simp) | simp add: bit_simps)+
lemma imm_lw:
  "(drop_bit 7 c AND 0x38) OR (drop_bit 4 c AND 0x4) OR (push_bit 1 c AND 0x40) = c_lw_imm c"
  unfolding c_lw_imm_def
  by (rule bits32I) ((intro fits_intros fits_numeral fits_one; simp) | simp add: bit_simps)+
lemma imm_shamt:
  "(drop_bit 7 c AND 0x20) OR (drop_bit 2 c AND 0x1F) = c_shamt c"
  unfolding c_shamt_def
  by (rule bits32I) ((intro fits_intros fits_numeral fits_one; simp) | simp add: bit_simps)+
lemma imm_lwsp:
  "push_bit 6 (drop_bit 2 c AND 0x3) OR push_bit 5 (drop_bit 12 c AND 0x1) OR push_bit 2 (drop_bit 4 c AND 0x7) = c_lwsp_imm c"
  unfolding c_lwsp_imm_def
  by (rule bits32I) ((intro fits_intros fits_numeral fits_one; simp) | simp add: bit_simps)+
lemma imm_swsp:
  "(drop_bit 7 c AND 0x3C) OR (drop_bit 1 c AND 0xC0) = c_swsp_imm c"
  unfolding c_swsp_imm_def
  by (rule bits32I) ((intro fits_intros fits_numeral fits_one; simp) | simp add: bit_simps)+

lemma imm_imm6: "sub_if_set (c_shamt c) 0x20 0x40 = c_imm6 c"
  unfolding c_imm6_def c_shamt_def
  by (rule sub_if_set_sign) (simp | intro fits_intros)+

lemma imm_addi16sp:
  "sub_if_set ((drop_bit 3 c AND 0x200) OR (drop_bit 2 c AND 0x10) OR (push_bit 1 c AND 0x40) OR
     (push_bit 4 c AND 0x180) OR (push_bit 3 c AND 0x20)) 0x200 0x400 = c_addi16sp_imm c"
proof -
  have "(drop_bit 3 c AND 0x200) OR (drop_bit 2 c AND 0x10) OR (push_bit 1 c AND 0x40) OR
     (push_bit 4 c AND 0x180) OR (push_bit 3 c AND 0x20) =
     push_bit 9 (fld 12 12 c) OR push_bit 4 (fld 6 6 c) OR push_bit 6 (fld 5 5 c)
     OR push_bit 7 (fld 4 3 c) OR push_bit 5 (fld 2 2 c)"
    by (rule bits32I) ((intro fits_intros fits_numeral fits_one; simp) | simp add: bit_simps)+
  then show ?thesis unfolding c_addi16sp_imm_def
    by (simp only:) (rule sub_if_set_sign, (intro fits_intros; simp)+, simp_all)
qed

lemma imm_cj: "cj_imm c = c_j_imm c"
proof -
  have "(drop_bit 1 c AND 0x800) OR (push_bit 2 c AND 0x400) OR (drop_bit 1 c AND 0x300) OR
      (push_bit 1 c AND 0x80) OR (drop_bit 1 c AND 0x40) OR (push_bit 3 c AND 0x20) OR
      (drop_bit 7 c AND 0x10) OR (drop_bit 2 c AND 0xE) = push_bit 11 (fld 12 12 c) OR push_bit 4 (fld 11 11 c) OR push_bit 8 (fld 10 9 c)
     OR push_bit 10 (fld 8 8 c) OR push_bit 6 (fld 7 7 c) OR push_bit 7 (fld 6 6 c) OR push_bit 1 (fld 5 3 c) OR push_bit 5 (fld 2 2 c)"
    by (rule bits32I) ((intro fits_intros fits_numeral fits_one; simp) | simp add: bit_simps)+
  then show ?thesis unfolding c_j_imm_def cj_imm_def
    by (simp only:) (rule sub_if_set_sign, (intro fits_intros; simp)+, simp_all)
qed
lemma imm_cb: "cb_imm c = c_b_imm c"
proof -
  have "(drop_bit 4 c AND 0x100) OR (push_bit 1 c AND 0xC0) OR (push_bit 3 c AND 0x20) OR
      (drop_bit 7 c AND 0x18) OR (drop_bit 2 c AND 0x6) = push_bit 8 (fld 12 12 c) OR push_bit 3 (fld 11 10 c) OR push_bit 6 (fld 6 5 c)
     OR push_bit 1 (fld 4 3 c) OR push_bit 5 (fld 2 2 c)"
    by (rule bits32I) ((intro fits_intros fits_numeral fits_one; simp) | simp add: bit_simps)+
  then show ?thesis unfolding c_b_imm_def cb_imm_def
    by (simp only:) (rule sub_if_set_sign, (intro fits_intros; simp)+, simp_all)
qed

lemma rvc_fields:
  "drop_bit 13 c AND 0x7 = fld 15 13 c" "(drop_bit 7 c AND 0x7) + 8 = 8 + fld 9 7 c"
  "(drop_bit 2 c AND 0x7) + 8 = 8 + fld 4 2 c" "drop_bit 7 c AND 0x1F = fld 11 7 c" "drop_bit 2 c AND 0x1F = fld 6 2 c"
  "drop_bit 10 c AND 0x3 = fld 11 10 c" "drop_bit 5 c AND 0x3 = fld 6 5 c" "drop_bit 12 c AND 0x1 = fld 12 12 c"
  for c :: int
  by (simp_all add: fld_def bits numeral_2_eq_2)

lemma imm_fields:
  "imm AND 0x3 = fld 1 0 imm" "imm AND 0x1F = fld 4 0 imm" "drop_bit 5 imm AND 0x7F = fld 11 5 imm"
  "imm AND 0xFFF = fld 11 0 imm" "imm AND 0xFFFFF = fld 19 0 imm" for imm :: int
  by (simp_all add: fld_def bits numeral_2_eq_2)

lemma imms_fit: "fits 12 (c_addi4spn_imm c)" "fits 12 (c_lw_imm c)" "fits 12 (c_lwsp_imm c)"  "fits 12 (c_shamt c)"
  unfolding c_addi4spn_imm_def c_lw_imm_def c_lwsp_imm_def c_shamt_def by (intro fits_intros; simp)+

lemma fld_imms [simp]: "fld 11 0 (c_addi4spn_imm c) = c_addi4spn_imm c" "fld 11 0 (c_lw_imm c) = c_lw_imm c"
   "fld 11 0 (c_lwsp_imm c) = c_lwsp_imm c" "fld 11 0 (c_shamt c) = c_shamt c"
  using imms_fit [of c] by (simp_all add: fld_low)

lemma cb_bits: "cb_imm_bits x OR y = push_bit 7 (fld 11 11 x) OR push_bit 8 (fld 4 1 x) OR push_bit 25 (fld 10 5 x) OR push_bit 31 (fld 12 12 x) OR y"
proof -
  have "cb_imm_bits x = push_bit 7 (fld 11 11 x) OR push_bit 8 (fld 4 1 x) OR push_bit 25 (fld 10 5 x) OR push_bit 31 (fld 12 12 x)"
    unfolding cb_imm_bits_def
    by (rule bits32I) ((intro fits_intros fits_numeral fits_one; simp) | (simp add: bit_simps, simp add: eval_nat_numeral))+
  then show ?thesis by (simp add: ac_simps)
qed

lemma cj_bits: "cj_imm_bits x OR y = push_bit 12 (fld 19 12 x) OR push_bit 20 (fld 11 11 x)
     OR push_bit 21 (fld 10 1 x) OR push_bit 31 (fld 20 20 x) OR y"
proof -
  have "cj_imm_bits x = push_bit 12 (fld 19 12 x) OR push_bit 20 (fld 11 11 x)
     OR push_bit 21 (fld 10 1 x) OR push_bit 31 (fld 20 20 x)"
    unfolding cj_imm_bits_def
    by (rule bits32I) ((intro fits_intros fits_numeral fits_one; simp) | (simp add: bit_simps, simp add: eval_nat_numeral))+
  then show ?thesis by (simp add: ac_simps)
qed

definition rvc_encode :: "rv_inst option \<Rightarrow> int \<times> bool" where
  "rvc_encode i = (case i of None \<Rightarrow> (0, False) | Some i \<Rightarrow> (encode32 i, True))"
lemma rvc_encode_simps [simp]: "rvc_encode None = rvc_illegal" "rvc_encode (Some i) = (encode32 i, True)"
  by (simp_all add: rvc_encode_def rvc_illegal_def)

lemma encode32_I: "encode32 (IType op rd f3 rs1 imm) =
    push_bit 20 (fld 11 0 imm) OR push_bit 15 rs1 OR push_bit 12 f3 OR push_bit 7 rd OR op"
  and encode32_R: "encode32 (RType op rd f3 rs1 rs2 f7) =
    push_bit 25 f7 OR push_bit 20 rs2 OR push_bit 15 rs1 OR push_bit 12 f3 OR push_bit 7 rd OR op"
  and encode32_S: "encode32 (SType f3 rs1 rs2 imm) =
    push_bit 25 (fld 11 5 imm) OR push_bit 20 rs2 OR push_bit 15 rs1 OR push_bit 12 f3 OR push_bit 7 (fld 4 0 imm) OR 0x23"
  and encode32_B: "encode32 (BType f3 rs1 rs2 imm) =
    cb_imm_bits imm OR push_bit 20 rs2 OR push_bit 15 rs1 OR push_bit 12 f3 OR 0x63"
  and encode32_U: "encode32 (UType op rd imm) = push_bit 12 (fld 19 0 imm) OR push_bit 7 rd OR op"
  and encode32_J: "encode32 (JType rd imm) = cj_imm_bits imm OR push_bit 7 rd OR 0x6F"
  unfolding cb_bits cj_bits by (simp_all add: ac_simps)

lemma c_srai_imm:
  "push_bit 20 (fld 11 0 (0x400 + c_shamt c)) OR x = push_bit 25 0x20 OR push_bit 20 (c_shamt c) OR x"
proof -
  have bit10: "bit (0x400 :: int) n \<longleftrightarrow> n = 10" for n
    using bit_exp_iff [of 10 n, where 'a = int] by (simp add: possible_bit_def)
  have "0x400 + c_shamt c = 0x400 OR c_shamt c"
    by (rule disjunctive_add) (auto simp: bit10 c_shamt_def bit_simps)
  moreover have "fits 12 (0x400 OR c_shamt c)"
    unfolding c_shamt_def by (intro fits_intros fits_numeral; simp)
  ultimately have "fld 11 0 (0x400 + c_shamt c) = 0x400 OR c_shamt c"
    by (simp add: fld_low)
  then show ?thesis by (simp add: push_bit_or or.assoc)
qed

lemma fld_0_1: "fld 11 0 0 = 0" "fld 11 0 1 = 1"
  by (simp_all add: fld_def)

lemmas expand_table_simps = encode32_I encode32_R encode32_S encode32_B encode32_U encode32_J
  fld_imms fld_0_1 c_srai_imm push_bit_of_0 or.left_neutral simp_thms rvc_encode_simps

lemma rvc_encode_if: "rvc_encode (if b then x else y) = (if b then rvc_encode x else rvc_encode y)"
  by simp

lemma two_neq_0_1: "((2 :: int) = 0) = False" "((2 :: int) = 1) = False"
  by simp_all

lemma ebreak_word: "push_bit 20 1 OR 0x73 = (0x00100073 :: int)"
  by simp

lemma fld_bounds: "0 \<le> fld hi lo x" "fld hi lo x < 2 ^ (Suc hi - lo)"
  by (simp_all add: fld_def)

lemma expand_c0_table:
  assumes "fld 1 0 c = 0"
  shows "expand_c0 c = rvc_encode (rvc_table c)"
  unfolding expand_c0_def rvc_table_def imm_addi4spn imm_lw Let_def
  unfolding rvc_fields assms rvc_encode_if
  unfolding imm_fields
  by (simp only: expand_table_simps refl if_True)

lemma expand_c1_table:
  assumes "fld 1 0 c = 1"
  shows "expand_c1 c = rvc_encode (rvc_table c)"
  unfolding expand_c1_def expand_c1_arith_def rvc_table_def imm_imm6 imm_shamt imm_cb imm_cj imm_addi16sp Let_def
  unfolding rvc_fields assms rvc_encode_if
  unfolding imm_fields
  by (simp only: expand_table_simps zero_neq_one if_True if_False refl if_if_eq_conj
    one_neq_zero)

lemma expand_c2_table:
  assumes "fld 1 0 c = 2"
  shows "expand_c2 c = rvc_encode (rvc_table c)"
  unfolding expand_c2_def rvc_table_def imm_lwsp imm_swsp imm_shamt Let_def
  unfolding rvc_fields assms rvc_encode_if
  unfolding imm_fields
  by (simp only: expand_table_simps ebreak_word if_True if_False refl two_neq_0_1)

lemma fld1_0_cases: "fld 1 0 c = 0 \<or> fld 1 0 c = 1 \<or> fld 1 0 c = 2 \<or> fld 1 0 c = 3"
  using fld_bounds [of 1 0 c] by auto

lemma rvc_table_q3: "fld 1 0 c = 3 \<Longrightarrow> rvc_table c = None"
  by (simp add: rvc_table_def)

lemma fits_creg: "fits 5 (8 + fld (n + 2) n c)"
  using fld_bounds [of "n + 2" n c] by (simp add: fits_def)

lemma signed_take_bit_range:
  "n \<le> m \<Longrightarrow> - (2 ^ m) \<le> signed_take_bit n (x :: int) \<and> signed_take_bit n x < 2 ^ m"
  using signed_take_bit_int_greater_eq_minus_exp [of n x] signed_take_bit_int_less_exp [of n x]
    power_increasing [of n m "2 :: int"] by linarith

lemma imm_ranges:
  "-2048 \<le> c_imm6 c \<and> c_imm6 c < 2048" "-2048 \<le> c_addi16sp_imm c \<and> c_addi16sp_imm c < 2048"
  "-1048576 \<le> c_j_imm c \<and> c_j_imm c < 1048576" "-4096 \<le> c_b_imm c \<and> c_b_imm c < 4096"
  unfolding c_imm6_def c_addi16sp_imm_def c_j_imm_def c_b_imm_def
  using signed_take_bit_range [of 5 11] signed_take_bit_range [of 9 11]
    signed_take_bit_range [of 11 20] signed_take_bit_range [of 8 12] by simp_all

lemma imm_even: "even (c_j_imm c)" "even (c_b_imm c)"
proof -
  have "\<not> bit (c_j_imm c) 0" "\<not> bit (c_b_imm c) 0"
    unfolding c_j_imm_def c_b_imm_def by (simp_all add: bit_simps del: bit_0)
  then show "even (c_j_imm c)" "even (c_b_imm c)" by (simp_all add: bit_0)
qed

lemma uimm_ranges:
  "-2048 \<le> c_lw_imm c \<and> c_lw_imm c < 2048" "-2048 \<le> c_addi4spn_imm c \<and> c_addi4spn_imm c < 2048"
  "-2048 \<le> c_lwsp_imm c \<and> c_lwsp_imm c < 2048" "-2048 \<le> c_swsp_imm c \<and> c_swsp_imm c < 2048"
proof -
  have "fits 10 (c_lw_imm c)" "fits 10 (c_addi4spn_imm c)" "fits 10 (c_lwsp_imm c)" "fits 10 (c_swsp_imm c)"
    unfolding c_lw_imm_def c_addi4spn_imm_def c_lwsp_imm_def c_swsp_imm_def
    by (intro fits_intros; simp)+
  then show "-2048 \<le> c_lw_imm c \<and> c_lw_imm c < 2048" "-2048 \<le> c_addi4spn_imm c \<and> c_addi4spn_imm c < 2048"
    "-2048 \<le> c_lwsp_imm c \<and> c_lwsp_imm c < 2048" "-2048 \<le> c_swsp_imm c \<and> c_swsp_imm c < 2048"
    by (auto simp: fits_def)
qed

lemma fits_fld5 [simp]: "fits 5 (fld 11 7 c)" "fits 5 (fld 6 2 c)"
  by (intro fits_intros; simp)+

lemmas rvc_wf_simps = imm_ranges [simplified] uimm_ranges [simplified] imm_even
  fits_creg [of 2, simplified] fits_creg [of 7, simplified]

lemma shamt_ranges: "0 \<le> c_shamt c" "c_shamt c < 1024" "c_shamt c < 2048" "- 2048 \<le> c_shamt c" "0 \<le> 3072 + c_shamt c"
proof -
  have "fits 10 (c_shamt c)" unfolding c_shamt_def by (intro fits_intros; simp)
  then show "0 \<le> c_shamt c" "c_shamt c < 1024" "c_shamt c < 2048" "- 2048 \<le> c_shamt c" "0 \<le> 3072 + c_shamt c"
    by (auto simp: fits_def)
qed

lemma rvc_table_wf:
  assumes "rvc_table c = Some i"
  shows "wf_inst i"
  using assms unfolding rvc_table_def Let_def
  by (simp split: if_splits; (elim conjE)?; hypsubst;
      simp add: rvc_wf_simps shamt_ranges wf_opcode_def fits_numeral fits_one fits_zero)

lemma expand_compressed_encode: "expand_compressed c = rvc_encode (rvc_table c)"
proof -
  consider "fld 1 0 c = 0" | "fld 1 0 c = 1" | "fld 1 0 c = 2" | "fld 1 0 c = 3"
    using fld1_0_cases by blast
  then show ?thesis
    unfolding expand_compressed_def Let_def imm_fields
    by cases (simp_all only: expand_c0_table expand_c1_table expand_c2_table rvc_table_q3, simp_all)
qed

subsection \<open>Properties\<close>

text \<open>C10. The expansion of a compressed instruction is the one of the RVC tables: \<open>expand_compressed\<close>
  succeeds exactly on the encodings of \<open>rvc_table\<close>, and then its 32-bit word is the encoding of the base
  instruction with the table's registers, function codes and sign-extended immediate. (The table has the accepted encodings; the
  hints that \<open>rvc.py\<close> refuses are not in it.)\<close>

theorem expand_compressed_table:
  "expand_compressed c =
     (case rvc_table c of None \<Rightarrow> (0, False) | Some i \<Rightarrow> (encode32 i, True))"
  unfolding expand_compressed_encode rvc_encode_def ..

text \<open>C39. Whatever \<open>expand_compressed\<close> accepts it turns into a 32-bit word whose two lowest bits are set,
  so that the expansion is again a standard-length instruction and is never taken for a compressed one.\<close>

theorem expand_compressed_wf:
  assumes "expand_compressed c = (w, True)"
  shows "0 \<le> w \<and> w < 2 ^ 32 \<and> w AND 3 = 3"
proof -
  obtain i where i: "rvc_table c = Some i" "w = encode32 i"
    using assms by (cases "rvc_table c") (auto simp: expand_compressed_encode rvc_illegal_def)
  with rvc_table_wf [OF i(1)] encode32_fits [of i] encode32_low_bits [of i] show ?thesis
    by (simp add: fits_def)
qed

theorem expand_compressed_wf_witness:
  "expand_compressed 0x4505 = (0x00100513, True) \<and>
   (0 \<le> (0x00100513 :: int) \<and> (0x00100513 :: int) < 2 ^ 32 \<and> (0x00100513 :: int) AND 3 = 3)"
proof -
  have "expand_compressed 0x4505 = (0x00100513, True)" by code_simp
  with expand_compressed_wf [OF this] show ?thesis by blast
qed

text \<open>The hints \<open>C.SLLI\<close> with shift amount 0 or to \<open>x0\<close>, \<open>C.SRLI\<close> and \<open>C.SRAI\<close> with shift amount 0, and \<open>C.LUI\<close> and \<open>C.MV\<close> to \<open>x0\<close>, which the manual
  lets do nothing, are refused.\<close>

lemma expand_hints_refused:
  "list_all (\<lambda>c. expand_compressed c = (0, False)) [0x0082, 0x0006, 0x8001, 0x8401, 0x6005, 0x8006]"
  by code_simp

end
