(* ===== verification/Cpu_Exec.thy ===== *)
theory Cpu_Exec
  imports Cpu_Ops Rvc Bus
begin

text \<open>
  The rest of \<open>cpu.py\<close>: the handlers that access memory (loads, stores, atomics), the \<open>SYSTEM\<close>
  handler with its CSR instructions, the dispatch table and the three \<open>execute\<close> methods with their
  decode caches.

  \<open>ecall\<close>, the optional argument of the execution functions, is \<open>cpu.handle_ecall\<close>: the handler
  \<open>set_ecall_handler\<close> installs, a method on the system state and the state behind it.
\<close>

unbundle bit_operations_syntax

section \<open>Loads and stores\<close>

definition exec_loads :: "int \<Rightarrow> int \<Rightarrow> int \<Rightarrow> int \<Rightarrow> int \<Rightarrow> int \<Rightarrow> int \<Rightarrow> ('h sys, unit) py" where
  "exec_loads inst inst_size rd funct3 rs1 rs2 funct7 s =
    (let addr = (registers (cpu s) rs1 + imm_i inst) AND 0xFFFFFFFF in
     (if funct3 = 0x0 then
        py_bind (load_byte addr True) (\<lambda>v. on_cpu (set_reg rd (v AND 0xFFFFFFFF)))
      else if funct3 = 0x1 then
        py_bind (load_half addr True) (\<lambda>v. on_cpu (set_reg rd (v AND 0xFFFFFFFF)))
      else if funct3 = 0x2 then
        py_bind (load_word addr) (\<lambda>v. on_cpu (set_reg rd (v AND 0xFFFFFFFF)))
      else if funct3 = 0x4 then
        py_bind (load_byte addr False) (\<lambda>v. on_cpu (set_reg rd (v AND 0xFF)))
      else if funct3 = 0x5 then
        py_bind (load_half addr False) (\<lambda>v. on_cpu (set_reg rd (v AND 0xFFFF)))
      else on_cpu (trap 2 inst True)) s)"

definition imm_s :: "int \<Rightarrow> int" where
  "imm_s inst =
     (let i = (drop_bit 7 inst AND 0x1F) OR push_bit 5 (drop_bit 25 inst)
      in if i \<ge> 0x800 then i - 0x1000 else i)"

definition clear_reservation :: "('h sys, unit) py" where
  "clear_reservation = on_cpu (py_modify (\<lambda>c. c\<lparr>reservation_valid := False\<rparr>))"

definition exec_stores :: "int \<Rightarrow> int \<Rightarrow> int \<Rightarrow> int \<Rightarrow> int \<Rightarrow> int \<Rightarrow> int \<Rightarrow> ('h sys, unit) py" where
  "exec_stores inst inst_size rd funct3 rs1 rs2 funct7 s =
    (let addr = (registers (cpu s) rs1 + imm_s inst) AND 0xFFFFFFFF;
         b = registers (cpu s) rs2 in
     (if funct3 = 0x0 then py_then (store_byte addr (b AND 0xFF)) clear_reservation
      else if funct3 = 0x1 then py_then (store_half addr (b AND 0xFFFF)) clear_reservation
      else if funct3 = 0x2 then py_then (store_word addr b) clear_reservation
      else on_cpu (trap 2 inst True)) s)"

section \<open>Atomics\<close>

text \<open>
  The read-modify-write operations by \<open>funct5\<close>: the new value from the old one and \<open>rs2\<close>. The
  unsigned minimum and maximum also mask the old value, which is what they return in \<open>rd\<close>.
\<close>

definition amo_new :: "int \<Rightarrow> int \<Rightarrow> int \<Rightarrow> int option" where
  "amo_new funct5 old b =
     (if funct5 = 0b00001 then Some (b AND 0xFFFFFFFF)
      else if funct5 = 0b00000 then Some ((old + b) AND 0xFFFFFFFF)
      else if funct5 = 0b00100 then Some ((old XOR b) AND 0xFFFFFFFF)
      else if funct5 = 0b01100 then Some ((old AND b) AND 0xFFFFFFFF)
      else if funct5 = 0b01000 then Some ((old OR b) AND 0xFFFFFFFF)
      else if funct5 = 0b10000 then Some (min (signed32 old) (signed32 b) AND 0xFFFFFFFF)
      else if funct5 = 0b10100 then Some (max (signed32 old) (signed32 b) AND 0xFFFFFFFF)
      else if funct5 = 0b11000 then Some (min (old AND 0xFFFFFFFF) (b AND 0xFFFFFFFF))
      else if funct5 = 0b11100 then Some (max (old AND 0xFFFFFFFF) (b AND 0xFFFFFFFF))
      else None)"

definition amo_old :: "int \<Rightarrow> int \<Rightarrow> int" where
  "amo_old funct5 old =
     (if funct5 = 0b11000 \<or> funct5 = 0b11100 then old AND 0xFFFFFFFF else old)"

definition exec_AMO :: "int \<Rightarrow> int \<Rightarrow> int \<Rightarrow> int \<Rightarrow> int \<Rightarrow> int \<Rightarrow> int \<Rightarrow> ('h sys, unit) py" where
  "exec_AMO inst inst_size rd funct3 rs1 rs2 funct7 s =
    (if funct3 \<noteq> 0x2 then on_cpu (trap 2 inst True) s
     else
       let funct5 = drop_bit 27 inst AND 0x1F;
           addr = registers (cpu s) rs1 AND 0xFFFFFFFF;
           b = registers (cpu s) rs2
       in if addr AND 0x3 \<noteq> 0 then on_cpu (trap 6 addr True) s
          else if funct5 = 0b00010 then
            py_bind (load_word addr) (\<lambda>val. on_cpu (py_modify (\<lambda>c.
              c\<lparr>registers := (registers c)(rd := val),
                reservation_valid := True, reservation_addr := addr\<rparr>))) s
          else if funct5 = 0b00011 then
            if reservation_valid (cpu s) \<and> reservation_addr (cpu s) = addr then
              py_then (store_word addr (b AND 0xFFFFFFFF))
                (py_then (on_cpu (set_reg rd 0)) clear_reservation) s
            else on_cpu (set_reg rd 1) s
          else if amo_new funct5 0 b \<noteq> None then
            py_bind (load_word addr) (\<lambda>old_val.
              py_then (store_word addr (the (amo_new funct5 old_val b)))
                (py_then (on_cpu (set_reg rd (amo_old funct5 old_val))) clear_reservation)) s
          else on_cpu (trap 2 inst True) s)"

section \<open>System instructions\<close>

text \<open>The writes of \<open>CSRRW\<close> and \<open>CSRRWI\<close>, with the two-step updates of \<open>mtime\<close> and \<open>mtimecmp\<close>.\<close>

definition csrrw_write :: "int \<Rightarrow> int \<Rightarrow> cpu \<Rightarrow> cpu" where
  "csrrw_write csr rs1_val c =
    (let c = (if csr = 0x305 then set_csr csr (rs1_val AND NOT 0x3) c
              else if csr \<notin> set CSR_NOWRITE then set_csr csr rs1_val c
              else c);
         c = (if csr = 0x7C0 \<or> csr = 0x7C1 then
                let c = c\<lparr>mtime_lo_updated := mtime_lo_updated c \<or> csr = 0x7C0,
                          mtime_hi_updated := mtime_hi_updated c \<or> csr = 0x7C1\<rparr>
                in if mtime_lo_updated c \<and> mtime_hi_updated c then
                     let c = c\<lparr>mtime := push_bit 32 (csrs c 0x7C1) OR csrs c 0x7C0,
                               mtime_lo_updated := False, mtime_hi_updated := False\<rparr>
                     in c\<lparr>mtip := (mtime c \<ge> mtimecmp c)\<rparr>
                   else c
              else c)
     in if csr = 0x7C2 \<or> csr = 0x7C3 then
          let c = c\<lparr>mtimecmp_lo_updated := mtimecmp_lo_updated c \<or> csr = 0x7C2,
                    mtimecmp_hi_updated := mtimecmp_hi_updated c \<or> csr = 0x7C3\<rparr>
          in if mtimecmp_lo_updated c \<and> mtimecmp_hi_updated c then
               let c = c\<lparr>mtimecmp := push_bit 32 (csrs c 0x7C3) OR csrs c 0x7C2,
                         mtimecmp_lo_updated := False, mtimecmp_hi_updated := False\<rparr>;
                   c = c\<lparr>mtime_countdown := Some (mtimecmp c - mtime c)\<rparr>
               in c\<lparr>mtip := (mtime c \<ge> mtimecmp c)\<rparr>
             else c
        else c)"

definition csr_read_value :: "int \<Rightarrow> int \<Rightarrow> cpu \<Rightarrow> int" where
  "csr_read_value csr old c =
     (if csr = 0x7C0 then mtime c AND 0xFFFFFFFF
      else if csr = 0x7C1 then drop_bit 32 (mtime c) AND 0xFFFFFFFF
      else if csr = 0x7C2 then mtimecmp c AND 0xFFFFFFFF
      else if csr = 0x7C3 then drop_bit 32 (mtimecmp c) AND 0xFFFFFFFF
      else old)"

text \<open>The three write forms; the \<open>MPP\<close> field of \<open>mstatus\<close> is then forced to machine mode.\<close>

definition csr_update :: "int \<Rightarrow> int \<Rightarrow> int \<Rightarrow> int \<Rightarrow> cpu \<Rightarrow> cpu" where
  "csr_update funct3 csr old rs1_val c =
    (let c = (if funct3 = 0b001 \<or> funct3 = 0b101 then csrrw_write csr rs1_val c
              else if funct3 = 0b010 \<or> funct3 = 0b110 then
                (if rs1_val \<noteq> 0 \<and> csr \<notin> set CSR_NOWRITE then set_csr csr (old OR rs1_val) c else c)
              else if funct3 = 0b011 \<or> funct3 = 0b111 then
                (if rs1_val \<noteq> 0 \<and> csr \<notin> set CSR_NOWRITE then set_csr csr (old AND NOT rs1_val) c else c)
              else c)
     in if csr = 0x300 then set_csr 0x300 (csrs c 0x300 OR 0x00001800) c else c)"

definition exec_CSR :: "int \<Rightarrow> int \<Rightarrow> int \<Rightarrow> int \<Rightarrow> (cpu, unit) py" where
  "exec_CSR inst rd funct3 rs1 c =
    (let csr = drop_bit 20 inst AND 0xFFF;
         old = csrs c csr;
         rs1_val = (if funct3 < 0b101 then registers c rs1 else rs1)
     in py_then
          (if csr \<in> set CSR_RO \<and> (funct3 = 0b001 \<or> funct3 = 0b101 \<or> rs1_val \<noteq> 0)
           then trap 2 inst True else py_return ())
          (py_modify (\<lambda>c.
            let c = csr_update funct3 csr old rs1_val c
            in if rd \<noteq> 0 then c\<lparr>registers := (registers c)(rd := csr_read_value csr old c)\<rparr> else c)) c)"

text \<open>\<open>MIE <- MPIE\<close>, \<open>MPIE <- 1\<close> on \<open>MRET\<close>.\<close>

definition mret_mstatus :: "int \<Rightarrow> int" where
  "mret_mstatus mstatus =
     (let mpie = drop_bit 7 mstatus AND 1;
          mstatus = (mstatus AND NOT (push_bit 3 1)) OR push_bit 3 mpie
      in mstatus OR push_bit 7 1)"

definition exec_MRET :: "(cpu, unit) py" where
  "exec_MRET c =
    (let mepc = csrs c 0x341
     in if mepc AND alignment_mask c \<noteq> 0 then trap 0 mepc True c
        else let c = c\<lparr>next_pc := mepc\<rparr>
             in (Inr (), set_csr 0x300 (mret_mstatus (csrs c 0x300)) c))"

text \<open>
  \<open>EBREAK\<close>: calls \<open>a7 \<ge> 0xFFFF0000\<close> only write to the log, but those that take a string read it from
  memory first, with the default maximum length of 1024.
\<close>

definition exec_EBREAK :: "('h sys, unit) py" where
  "exec_EBREAK s =
    (let a7 = registers (cpu s) 17; a0 = registers (cpu s) 10 in
     if a7 \<ge> 0xFFFF0000 then
       if \<not> logger (cpu s) then (Inr (), s)
       else if a7 = 0xFFFF0002 \<or> a7 = 0xFFFF0003 \<or> a7 = 0xFFFF0004 then
         py_bind (load_cstring a0 1024) (\<lambda>_. py_return ()) s
       else (Inr (), s)
     else if csrs (cpu s) 0x305 = 0 then
       (Inl (ExecutionTerminated (BreakpointAt (pc (cpu s)))),
        s\<lparr>cpu := bypassed_trap_return 3 0 (cpu s)\<rparr>)
     else on_cpu (trap 3 0 True) s)"

definition exec_ECALL :: "('h sys, unit) py option \<Rightarrow> ('h sys, unit) py" where
  "exec_ECALL ecall s =
    (case ecall of
       Some handle_ecall \<Rightarrow>
         if csrs (cpu s) 0x305 = 0 then
           py_then handle_ecall (on_cpu (py_modify (bypassed_trap_return 11 0))) s
         else on_cpu (trap 11 0 True) s
     | None \<Rightarrow>
         if csrs (cpu s) 0x305 \<noteq> 0 then on_cpu (trap 11 0 True) s
         else (Inl (MachineError NoEcallHandler), s))"

definition exec_SYSTEM ::
  "('h sys, unit) py option \<Rightarrow> int \<Rightarrow> int \<Rightarrow> int \<Rightarrow> int \<Rightarrow> int \<Rightarrow> int \<Rightarrow> int \<Rightarrow> ('h sys, unit) py" where
  "exec_SYSTEM ecall inst inst_size rd funct3 rs1 rs2 funct7 =
    (if inst = 0x00000073 then exec_ECALL ecall
     else if inst = 0x30200073 then on_cpu exec_MRET
     else if inst = 0x00100073 then exec_EBREAK
     else if funct3 \<in> {0b001, 0b010, 0b011, 0b101, 0b110, 0b111} then on_cpu (exec_CSR inst rd funct3 rs1)
     else if inst = 0x10500073 then py_return ()
     else on_cpu (trap 2 inst True))"

section \<open>Dispatch and execution\<close>

definition opcode_handler ::
  "('h sys, unit) py option \<Rightarrow> int \<Rightarrow>
   (int \<Rightarrow> int \<Rightarrow> int \<Rightarrow> int \<Rightarrow> int \<Rightarrow> int \<Rightarrow> int \<Rightarrow> ('h sys, unit) py) option" where
  "opcode_handler ecall opcode =
    (if opcode = 0x33 then Some (\<lambda>i z rd f3 rs1 rs2 f7. on_cpu (exec_Rtype i z rd f3 rs1 rs2 f7))
     else if opcode = 0x13 then Some (\<lambda>i z rd f3 rs1 rs2 f7. on_cpu (exec_Itype i z rd f3 rs1 rs2 f7))
     else if opcode = 0x03 then Some exec_loads
     else if opcode = 0x23 then Some exec_stores
     else if opcode = 0x63 then Some (\<lambda>i z rd f3 rs1 rs2 f7. on_cpu (exec_branches i z rd f3 rs1 rs2 f7))
     else if opcode = 0x37 then Some (\<lambda>i z rd f3 rs1 rs2 f7. on_cpu (exec_LUI i z rd f3 rs1 rs2 f7))
     else if opcode = 0x17 then Some (\<lambda>i z rd f3 rs1 rs2 f7. on_cpu (exec_AUIPC i z rd f3 rs1 rs2 f7))
     else if opcode = 0x6F then Some (\<lambda>i z rd f3 rs1 rs2 f7. on_cpu (exec_JAL i z rd f3 rs1 rs2 f7))
     else if opcode = 0x67 then Some (\<lambda>i z rd f3 rs1 rs2 f7. on_cpu (exec_JALR i z rd f3 rs1 rs2 f7))
     else if opcode = 0x73 then Some (exec_SYSTEM ecall)
     else if opcode = 0x0F then Some (\<lambda>i z rd f3 rs1 rs2 f7. on_cpu (exec_MISCMEM i z rd f3 rs1 rs2 f7))
     else if opcode = 0x2F then Some exec_AMO
     else None)"

definition decode_fields :: "int \<Rightarrow> decoded" where
  "decode_fields inst =
    (inst AND 0x7F, drop_bit 7 inst AND 0x1F, drop_bit 12 inst AND 0x7, drop_bit 15 inst AND 0x1F,
     drop_bit 20 inst AND 0x1F, drop_bit 25 inst AND 0x7F)"

text \<open>What follows decoding in \<open>execute_32\<close> and \<open>execute_16\<close>: advance, run the handler, clear \<open>x0\<close>.\<close>

definition dispatch :: "('h sys, unit) py option \<Rightarrow> int \<Rightarrow> int \<Rightarrow> decoded \<Rightarrow> ('h sys, unit) py" where
  "dispatch ecall inst inst_size d =
    (case d of (opcode, rd, funct3, rs1, rs2, funct7) \<Rightarrow>
       py_then (on_cpu (py_modify (\<lambda>c. c\<lparr>next_pc := (pc c + inst_size) AND 0xFFFFFFFF\<rparr>)))
         (py_then
           (case opcode_handler ecall opcode of
              Some h \<Rightarrow> h inst inst_size rd funct3 rs1 rs2 funct7
            | None \<Rightarrow> on_cpu (trap 2 inst True))
           (on_cpu (set_reg 0 0))))"

definition execute_32 :: "('h sys, unit) py option \<Rightarrow> int \<Rightarrow> ('h sys, unit) py" where
  "execute_32 ecall inst s =
    (case decode_cache (cpu s) (drop_bit 2 inst) of
       Some d \<Rightarrow> dispatch ecall inst 4 d s
     | None \<Rightarrow>
         let d = decode_fields inst
         in dispatch ecall inst 4 d
              (s\<lparr>cpu := (cpu s)\<lparr>decode_cache := (decode_cache (cpu s))(drop_bit 2 inst \<mapsto> d)\<rparr>\<rparr>))"

definition execute_16 :: "('h sys, unit) py option \<Rightarrow> int \<Rightarrow> ('h sys, unit) py" where
  "execute_16 ecall inst16 s =
    (case decode_cache_compressed (cpu s) inst16 of
       Some (d, expanded_inst) \<Rightarrow> dispatch ecall expanded_inst 2 d s
     | None \<Rightarrow>
         (case expand_compressed inst16 of (expanded_inst, success) \<Rightarrow>
            if \<not> success then on_cpu (trap 2 inst16 True) s
            else
              let d = decode_fields expanded_inst
              in dispatch ecall expanded_inst 2 d
                   (s\<lparr>cpu := (cpu s)\<lparr>decode_cache_compressed :=
                       (decode_cache_compressed (cpu s))(inst16 \<mapsto> (d, expanded_inst))\<rparr>\<rparr>)))"

definition execute :: "('h sys, unit) py option \<Rightarrow> int \<Rightarrow> ('h sys, unit) py" where
  "execute ecall inst s =
    (if \<not> rvc_enabled (cpu s) then execute_32 ecall inst s
     else if inst AND 0x3 = 0x3 then execute_32 ecall inst s
     else execute_16 ecall (inst AND 0xFFFF) s)"

section \<open>Decoding\<close>

lemma decode_fields_fld:
  "decode_fields inst = (fld 6 0 inst, fld 11 7 inst, fld 14 12 inst, fld 19 15 inst, fld 24 20 inst, fld 31 25 inst)"
  by (simp add: decode_fields_def fld_def bits)

lemma fits_take: "fits n x \<Longrightarrow> n \<le> m \<Longrightarrow> take_bit m x = x"
  using fld_low [of n x "m - 1"] by (cases m) (auto simp: fld_def fits_def)

lemma fits_drop: "fits n x \<Longrightarrow> n \<le> m \<Longrightarrow> drop_bit m x = 0"
  using drop_bit_take_bit [of m n x] by (simp add: fits_iff_take_bit)

lemmas field_simps = fld_def drop_bit_push_bit take_bit_push_bit fits_take fits_drop drop_bit_take_bit

lemma decode_IType:
  assumes "fits 7 op" "fits 5 rd" "fits 3 f3" "fits 5 rs1"
  shows "decode_fields (encode32 (IType op rd f3 rs1 imm)) = (op, rd, f3, rs1, fld 4 0 imm, fld 11 5 imm)"
    and "drop_bit 20 (encode32 (IType op rd f3 rs1 imm)) = fld 11 0 imm"
  using assms by (simp_all add: decode_fields_fld) (simp_all add: field_simps)

lemma decode_RType:
  assumes "fits 7 op" "fits 5 rd" "fits 3 f3" "fits 5 rs1" "fits 5 rs2" "fits 7 f7"
  shows "decode_fields (encode32 (RType op rd f3 rs1 rs2 f7)) = (op, rd, f3, rs1, rs2, f7)"
  using assms by (simp add: decode_fields_fld) (simp add: field_simps)

lemma decode_SType:
  assumes "fits 3 f3" "fits 5 rs1" "fits 5 rs2"
  shows "decode_fields (encode32 (SType f3 rs1 rs2 imm)) = (0x23, fld 4 0 imm, f3, rs1, rs2, fld 11 5 imm)"
    and "(drop_bit 7 (encode32 (SType f3 rs1 rs2 imm)) AND 0x1F) OR push_bit 5 (drop_bit 25 (encode32 (SType f3 rs1 rs2 imm)))
     = fld 4 0 imm OR push_bit 5 (fld 11 5 imm)"
  using assms by (simp_all add: decode_fields_fld) (simp_all add: field_simps bits)

lemma fits_1_mod: "fits (Suc 0) p \<Longrightarrow> p mod 2 = p"
  by (auto simp: fits_def)

lemma decode_BType_parts:
  assumes "fits 3 f3" "fits 5 rs1" "fits 5 rs2" "fits 1 p1" "fits 4 p2" "fits 6 p3" "fits 1 p4"
    and "w = 0x63 OR push_bit 7 p1 OR push_bit 8 p2 OR push_bit 12 f3 OR push_bit 15 rs1 OR push_bit 20 rs2
      OR push_bit 25 p3 OR push_bit 31 p4"
  shows "fld 6 0 w = 0x63 \<and> fld 14 12 w = f3 \<and> fld 19 15 w = rs1 \<and> fld 24 20 w = rs2"
    and "drop_bit 7 w AND 0x1 = p1" and "drop_bit 8 w AND 0xF = p2" and "drop_bit 25 w AND 0x3F = p3"
    and "drop_bit 31 w = p4"
  using assms by (simp_all add: field_simps bits fits_1_mod)

lemma decode_BType:
  assumes "fits 3 f3" "fits 5 rs1" "fits 5 rs2"
  shows "\<exists>rd f7. decode_fields (encode32 (BType f3 rs1 rs2 imm)) = (0x63, rd, f3, rs1, rs2, f7)"
    and "drop_bit 7 (encode32 (BType f3 rs1 rs2 imm)) AND 0x1 = fld 11 11 imm"
    and "drop_bit 8 (encode32 (BType f3 rs1 rs2 imm)) AND 0xF = fld 4 1 imm"
    and "drop_bit 25 (encode32 (BType f3 rs1 rs2 imm)) AND 0x3F = fld 10 5 imm"
    and "drop_bit 31 (encode32 (BType f3 rs1 rs2 imm)) = fld 12 12 imm"
  using decode_BType_parts [OF assms _ _ _ _ encode32.simps(4), of imm]
  by (simp_all add: decode_fields_fld fits_fld)

lemma decode_UType:
  assumes "fits 7 op" "fits 5 rd"
  shows "decode_fields (encode32 (UType op rd imm)) = (op, rd, fld 2 0 imm, fld 7 3 imm, fld 12 8 imm, fld 19 13 imm)"
    and "drop_bit 12 (encode32 (UType op rd imm)) = fld 19 0 imm"
  using assms by (simp_all add: decode_fields_fld) (simp_all add: field_simps bits)

lemma decode_JType_parts:
  assumes "fits 5 rd" "fits 8 p1" "fits 1 p2" "fits 10 p3" "fits 1 p4"
    and "w = 0x6F OR push_bit 7 rd OR push_bit 12 p1 OR push_bit 20 p2 OR push_bit 21 p3 OR push_bit 31 p4"
  shows "fld 6 0 w = 0x6F \<and> fld 11 7 w = rd"
    and "drop_bit 21 w AND 0x3FF = p3" and "drop_bit 20 w AND 0x1 = p2" and "drop_bit 12 w AND 0xFF = p1"
    and "drop_bit 31 w = p4"
  using assms by (simp_all add: field_simps bits fits_1_mod)

lemma decode_JType:
  assumes "fits 5 rd"
  shows "\<exists>f3 rs1 rs2 f7. decode_fields (encode32 (JType rd imm)) = (0x6F, rd, f3, rs1, rs2, f7)"
    and "drop_bit 21 (encode32 (JType rd imm)) AND 0x3FF = fld 10 1 imm"
    and "drop_bit 20 (encode32 (JType rd imm)) AND 0x1 = fld 11 11 imm"
    and "drop_bit 12 (encode32 (JType rd imm)) AND 0xFF = fld 19 12 imm"
    and "drop_bit 31 (encode32 (JType rd imm)) = fld 20 20 imm"
  using decode_JType_parts [OF assms _ _ _ _ encode32.simps(6), of imm]
  by (simp_all add: decode_fields_fld fits_fld)

text \<open>Sign extension after the parts of an immediate are put together.\<close>

lemma sub_if_ge_sign:
  assumes "fits (Suc n) x" "m = 2 ^ n" "d = 2 ^ Suc n"
  shows "(if x \<ge> m then x - d else x) = signed_take_bit n (x :: int)"
  using bit_top_iff [of x n] signed_take_bit_sub [OF assms(1)] assms by (simp add: fits_def)

lemma signed_fld:
  assumes "- (2 ^ n) \<le> imm" "imm < 2 ^ n"
  shows "signed_take_bit n (fld n 0 imm) = imm"
  using signed_take_bit_int_eq_self [of n imm] assms
  by (simp add: fld_def signed_take_bit_take_bit)

lemma fld_parts_s: "fld 4 0 imm OR push_bit 5 (fld 11 5 imm) = fld 11 0 imm"
  by (rule bits32I) ((intro fits_intros fits_numeral fits_one; simp) | simp add: bit_simps)+

lemma fld_parts_b:
  assumes "even imm"
  shows "push_bit 11 (fld 11 11 imm) OR push_bit 1 (fld 4 1 imm) OR push_bit 5 (fld 10 5 imm) OR
         push_bit 12 (fld 12 12 imm) = fld 12 0 imm"
proof -
  have "\<not> bit imm 0" using assms by (simp add: bit_0)
  then show ?thesis
    by (intro bits32I) ((intro fits_intros fits_numeral fits_one; simp) | (simp add: bit_simps, simp add: eval_nat_numeral))+
qed

lemma fld_parts_j:
  assumes "even imm"
  shows "push_bit 1 (fld 10 1 imm) OR push_bit 11 (fld 11 11 imm) OR push_bit 12 (fld 19 12 imm) OR
         push_bit 20 (fld 20 20 imm) = fld 20 0 imm"
proof -
  have "\<not> bit imm 0" using assms by (simp add: bit_0)
  then show ?thesis
    by (intro bits32I) ((intro fits_intros fits_numeral fits_one; simp) | (simp add: bit_simps, simp add: eval_nat_numeral))+
qed

lemma sign_extend:
  assumes "- (2 ^ n) \<le> imm" "imm < 2 ^ n" "m = 2 ^ n" "d = 2 ^ Suc n"
  shows "(if fld n 0 imm \<ge> m then fld n 0 imm - d else fld n 0 imm) = imm"
  using sub_if_ge_sign [of n "fld n 0 imm" m d] signed_fld [OF assms(1,2)] assms(3,4) by (simp add: fits_fld)

lemma imm_encode:
  shows imm_i_encode: "wf_inst (IType op rd f3 rs1 imm) \<Longrightarrow> imm_i (encode32 (IType op rd f3 rs1 imm)) = imm"
    and imm_s_encode: "wf_inst (SType f3 rs1 rs2 imm) \<Longrightarrow> imm_s (encode32 (SType f3 rs1 rs2 imm)) = imm"
    and imm_b_encode: "wf_inst (BType f3 rs1 rs2 imm) \<Longrightarrow> imm_b (encode32 (BType f3 rs1 rs2 imm)) = imm"
    and imm_j_encode: "wf_inst (JType rd imm) \<Longrightarrow> imm_j (encode32 (JType rd imm)) = imm"
  unfolding imm_i_def imm_s_def imm_b_def imm_j_def Let_def wf_inst.simps wf_opcode_def
  by (simp_all only: decode_IType(2) decode_SType(2) decode_BType(2-) decode_JType(2-)
        fld_parts_s fld_parts_b fld_parts_j)
     (rule sign_extend; simp)+

text \<open>C11. The decoder inverts the encoding of the manual: for every well-formed instruction of any format,
  the fields cut out by \<open>execute_32\<close> and the immediates assembled by the handlers are the ones that were
  encoded, sign included.\<close>

theorem decode_encode32:
  assumes "wf_inst i"
  shows "case i of
      IType op rd f3 rs1 imm \<Rightarrow>
        decode_fields (encode32 i) = (op, rd, f3, rs1, fld 4 0 imm, fld 11 5 imm) \<and> imm_i (encode32 i) = imm
    | RType op rd f3 rs1 rs2 f7 \<Rightarrow> decode_fields (encode32 i) = (op, rd, f3, rs1, rs2, f7)
    | SType f3 rs1 rs2 imm \<Rightarrow>
        (\<exists>rd f7. decode_fields (encode32 i) = (0x23, rd, f3, rs1, rs2, f7)) \<and> imm_s (encode32 i) = imm
    | BType f3 rs1 rs2 imm \<Rightarrow>
        (\<exists>rd f7. decode_fields (encode32 i) = (0x63, rd, f3, rs1, rs2, f7)) \<and> imm_b (encode32 i) = imm
    | UType op rd imm \<Rightarrow>
        (\<exists>f3 rs1 rs2 f7. decode_fields (encode32 i) = (op, rd, f3, rs1, rs2, f7)) \<and>
        drop_bit 12 (encode32 i) = fld 19 0 imm
    | JType rd imm \<Rightarrow>
        (\<exists>f3 rs1 rs2 f7. decode_fields (encode32 i) = (0x6F, rd, f3, rs1, rs2, f7)) \<and> imm_j (encode32 i) = imm"
proof (cases i)
  case (IType op rd f3 rs1 imm)
  then show ?thesis
    using assms decode_IType(1) imm_i_encode by (simp del: encode32.simps add: wf_opcode_def)
next
  case (RType op rd f3 rs1 rs2 f7)
  then show ?thesis using assms decode_RType by (simp del: encode32.simps add: wf_opcode_def)
next
  case (SType f3 rs1 rs2 imm)
  then show ?thesis using assms decode_SType(1) imm_s_encode by (simp del: encode32.simps)
next
  case (BType f3 rs1 rs2 imm)
  then show ?thesis using assms decode_BType(1) imm_b_encode by (simp del: encode32.simps)
next
  case (UType op rd imm)
  then show ?thesis using assms decode_UType by (simp del: encode32.simps add: wf_opcode_def)
next
  case (JType rd imm)
  then show ?thesis using assms decode_JType(1) imm_j_encode by (simp del: encode32.simps)
qed

theorem decode_encode32_witness:
  "wf_inst (BType 1 10 11 (- 8)) \<and> imm_b (encode32 (BType 1 10 11 (- 8))) = - 8 \<and>
   (\<exists>rd f7. decode_fields (encode32 (BType 1 10 11 (- 8))) = (0x63, rd, 1, 10, 11, f7))"
proof -
  have wf: "wf_inst (BType 1 10 11 (- 8))" by (simp add: fits_def)
  from decode_encode32 [OF wf] wf show ?thesis by simp
qed

end
