(* ===== verification/Cpu_Inv.thy ===== *)
theory Cpu_Inv
  imports Cpu_Exec
begin

text \<open>
  The invariant of the CPU and of the system: registers and CSRs are 32-bit values, \<open>pc\<close> and
  \<open>next_pc\<close> are aligned as the RVC setting demands, \<open>mstatus\<close> stays in machine mode, the decode caches
  hold decoded instructions, the registers of the peripherals are 32 bits wide, and the memory keeps
  its shape. Every handler and every \<open>execute\<close> method keeps it, whether it returns or raises.
\<close>

unbundle bit_operations_syntax

section \<open>The CPU invariant\<close>

text \<open>
  The parameter \<open>r\<close> says whether the ranges are claimed. An \<open>ecall\<close> handler may break them (the one of
  \<open>syscalls.py\<close> returns negative error numbers in \<open>a0\<close>); the rest of the invariant it keeps. The parameter \<open>md\<close> is
  the setting of the C extension, which nothing changes after construction.
\<close>

definition cache_inv :: "cpu \<Rightarrow> bool" where
  "cache_inv c \<longleftrightarrow>
     (\<forall>k d. decode_cache c k = Some d \<longrightarrow> 
        (\<exists>inst. k = drop_bit 2 inst \<and> (rvc_enabled c \<longrightarrow> inst AND 0x3 = 0x3) \<and> d = decode_fields inst)) \<and>
     (\<forall>k d e. decode_cache_compressed c k = Some (d, e) \<longrightarrow> expand_compressed k = (e, True) \<and> d = decode_fields e)"

definition mpp_set :: "int \<Rightarrow> bool" where
  "mpp_set mstatus \<longleftrightarrow> mstatus AND 0x1800 = 0x1800"

definition aligned :: "bool \<Rightarrow> cpu \<Rightarrow> int \<Rightarrow> bool" where
  "aligned r c a \<longleftrightarrow> (r \<longrightarrow> fits 32 a) \<and> a AND alignment_mask c = 0"

definition cpu_ranges :: "cpu \<Rightarrow> bool" where
  "cpu_ranges c \<longleftrightarrow>
     (\<forall>i. fits 32 (registers c i)) \<and> (\<forall>a. fits 32 (csrs c a)) \<and> fits 64 (mtime c) \<and> fits 64 (mtimecmp c)"

definition cpu_inv :: "bool \<Rightarrow> bool \<Rightarrow> cpu \<Rightarrow> bool" where
  "cpu_inv r md c \<longleftrightarrow>
     (r \<longrightarrow> cpu_ranges c) \<and> mpp_set (csrs c 0x300) \<and>
     aligned r c (pc c) \<and> aligned r c (next_pc c) \<and>
     rvc_enabled c = md \<and> alignment_mask c = (if md then 1 else 3) \<and> cache_inv c"

lemma fits_and_left: "fits n x \<Longrightarrow> fits n (x AND y)"
  by (auto simp: fits_def intro: le_less_trans [OF AND_upper1])

lemma fits_mask: "fits 32 (x AND 0xFFFFFFFF)" "fits 8 (x AND 0xFF)" "fits 16 (x AND 0xFFFF)" "fits 5 (x AND 0x1F)"
  by (simp_all add: bits fits_take_bit)

lemma fits_mono: "fits n x \<Longrightarrow> n \<le> m \<Longrightarrow> fits m x"
  by (auto simp: fits_def intro: less_le_trans power_increasing)

lemma bit_mpp: "bit (0x1800 :: int) n \<longleftrightarrow> n = 11 \<or> n = 12"
proof -
  have "(0x1800 :: int) = push_bit 11 1 OR push_bit 12 1" by simp
  then show ?thesis by (simp only: bit_or_iff bit_push_bit_iff bit_1_iff) auto
qed

lemma mpp_set_bits: "mpp_set x \<longleftrightarrow> bit x 11 \<and> bit x 12"
proof -
  have "mpp_set x \<longleftrightarrow> (\<forall>n. bit (0x1800 :: int) n \<longrightarrow> bit x n)"
    unfolding mpp_set_def bit_eq_iff [of "x AND 0x1800"] by (auto simp: bit_and_iff)
  then show ?thesis by (auto simp: bit_mpp)
qed

lemma bit_trap_mstatus:
  "bit (trap_mstatus x) n \<longleftrightarrow> (if n = 3 then False else if n = 7 then bit x 3 else bit x n)"
  unfolding trap_mstatus_def Let_def bits
  by (simp only: bit_or_iff bit_and_iff bit_not_int_iff bit_push_bit_iff bit_take_bit_iff bit_drop_bit_eq
    comp_def bit_1_iff possible_bit_def) auto

lemma bit_mret_mstatus:
  "bit (mret_mstatus x) n \<longleftrightarrow> (if n = 3 then bit x 7 else if n = 7 then True else bit x n)"
  unfolding mret_mstatus_def Let_def bits
  by (simp only: bit_or_iff bit_and_iff bit_not_int_iff bit_push_bit_iff bit_take_bit_iff bit_drop_bit_eq
    comp_def bit_1_iff possible_bit_def) auto

lemma mpp_trap: "mpp_set x \<Longrightarrow> mpp_set (trap_mstatus x)"
  and mpp_mret: "mpp_set x \<Longrightarrow> mpp_set (mret_mstatus x)"
  and mpp_or: "mpp_set x \<Longrightarrow> mpp_set (x OR y)"
  and mpp_force: "mpp_set (x OR 0x00001800)"
  by (simp_all add: mpp_set_bits bit_trap_mstatus bit_mret_mstatus bit_or_iff bit_mpp)

lemma fits_bits: "fits n x \<longleftrightarrow> (\<forall>k\<ge>n. \<not> bit x k)" for x :: int
proof
  assume "fits n x"
  then have x: "take_bit n x = x" by (simp add: fits_iff_take_bit)
  show "\<forall>k\<ge>n. \<not> bit x k"
  proof (intro allI impI)
    fix k assume "n \<le> k"
    then have "\<not> bit (take_bit n x) k" by (simp add: bit_take_bit_iff)
    then show "\<not> bit x k" unfolding x .
  qed
next
  assume *: "\<forall>k\<ge>n. \<not> bit x k"
  have "take_bit n x = x"
  proof (rule bit_eqI)
    fix k show "bit (take_bit n x) k = bit x k"
      using * by (cases "k < n") (simp_all add: bit_take_bit_iff)
  qed
  then show "fits n x" by (simp add: fits_iff_take_bit)
qed

lemma fits_trap: "fits 32 x \<Longrightarrow> fits 32 (trap_mstatus x)"
  and fits_mret: "fits 32 x \<Longrightarrow> fits 32 (mret_mstatus x)"
  by (auto simp: fits_bits bit_trap_mstatus bit_mret_mstatus)

lemma cache_inv_simps [simp]:
  "cache_inv (c\<lparr>registers := rg\<rparr>) = cache_inv c" "cache_inv (c\<lparr>csrs := f\<rparr>) = cache_inv c"
  "cache_inv (c\<lparr>next_pc := a\<rparr>) = cache_inv c" "cache_inv (c\<lparr>mtime := t\<rparr>) = cache_inv c"
  "cache_inv (c\<lparr>mtimecmp := t\<rparr>) = cache_inv c" "cache_inv (c\<lparr>mtip := b\<rparr>) = cache_inv c"
  "cache_inv (c\<lparr>reservation_valid := b\<rparr>) = cache_inv c" "cache_inv (c\<lparr>reservation_addr := a\<rparr>) = cache_inv c"
  "cache_inv (c\<lparr>mtime_lo_updated := b\<rparr>) = cache_inv c" "cache_inv (c\<lparr>mtime_hi_updated := b\<rparr>) = cache_inv c"
  "cache_inv (c\<lparr>mtimecmp_lo_updated := b\<rparr>) = cache_inv c" "cache_inv (c\<lparr>mtimecmp_hi_updated := b\<rparr>) = cache_inv c"
  "cache_inv (c\<lparr>mtime_countdown := x\<rparr>) = cache_inv c" "cache_inv (c\<lparr>pc := a\<rparr>) = cache_inv c"
  by (simp_all add: cache_inv_def)

lemma aligned_cong [simp]:
  "aligned r (c\<lparr>registers := rg\<rparr>) = aligned r c" "aligned r (c\<lparr>csrs := f\<rparr>) = aligned r c"
  "aligned r (c\<lparr>next_pc := a\<rparr>) = aligned r c" "aligned r (c\<lparr>mtime := t\<rparr>) = aligned r c"
  "aligned r (c\<lparr>mtimecmp := t\<rparr>) = aligned r c" "aligned r (c\<lparr>mtip := b\<rparr>) = aligned r c"
  "aligned r (c\<lparr>reservation_valid := b\<rparr>) = aligned r c" "aligned r (c\<lparr>reservation_addr := a\<rparr>) = aligned r c"
  "aligned r (c\<lparr>mtime_lo_updated := b\<rparr>) = aligned r c" "aligned r (c\<lparr>mtime_hi_updated := b\<rparr>) = aligned r c"
  "aligned r (c\<lparr>mtimecmp_lo_updated := b\<rparr>) = aligned r c" "aligned r (c\<lparr>mtimecmp_hi_updated := b\<rparr>) = aligned r c"
  "aligned r (c\<lparr>mtime_countdown := x\<rparr>) = aligned r c" "aligned r (c\<lparr>pc := a\<rparr>) = aligned r c"
  "aligned r (c\<lparr>decode_cache := m\<rparr>) = aligned r c" "aligned r (c\<lparr>decode_cache_compressed := m'\<rparr>) = aligned r c"
  by (simp_all add: aligned_def fun_eq_iff)

lemma aligned_and_not3: "(r \<Longrightarrow> fits 32 x) \<Longrightarrow> cpu_inv r md c \<Longrightarrow> aligned r c (x AND NOT 3)"
  by (auto simp: aligned_def cpu_inv_def fits_and_left and.assoc)

lemma cpu_inv_set_reg:
  "cpu_inv r md c \<Longrightarrow> (r \<Longrightarrow> fits 32 v) \<Longrightarrow> cpu_inv r md (c\<lparr>registers := (registers c)(rd := v)\<rparr>)"
  by (simp add: cpu_inv_def cpu_ranges_def)

lemma cpu_inv_set_csr:
  "cpu_inv r md c \<Longrightarrow> (r \<Longrightarrow> fits 32 v) \<Longrightarrow> (a = 0x300 \<Longrightarrow> mpp_set v) \<Longrightarrow> cpu_inv r md (set_csr a v c)"
  by (simp add: cpu_inv_def cpu_ranges_def set_csr_def)

lemma cpu_inv_next_pc: "cpu_inv r md c \<Longrightarrow> aligned r c a \<Longrightarrow> cpu_inv r md (c\<lparr>next_pc := a\<rparr>)"
  by (simp add: cpu_inv_def cpu_ranges_def)

lemma cpu_invD:
  assumes "cpu_inv r md c"
  shows "r \<Longrightarrow> fits 32 (registers c i)" "r \<Longrightarrow> fits 32 (csrs c a)" "mpp_set (csrs c 0x300)"
    "aligned r c (pc c)" "aligned r c (next_pc c)" "r \<Longrightarrow> fits 32 (pc c)" "r \<Longrightarrow> fits 32 (next_pc c)"
    "r \<Longrightarrow> fits 64 (mtime c)" "r \<Longrightarrow> fits 64 (mtimecmp c)"
  using assms by (auto simp: cpu_inv_def cpu_ranges_def aligned_def)

lemma cpu_inv_trap_state:
  assumes "cpu_inv r md c" "r \<Longrightarrow> fits 32 cause" "r \<Longrightarrow> fits 32 mtval"
  shows "cpu_inv r md (trap_state cause mtval sync c)"
proof -
  have "aligned r c (csrs c 0x305 AND NOT 3)"
    using cpu_invD(2) [OF assms(1)] assms(1) by (rule aligned_and_not3)
  then show ?thesis
    using cpu_invD [OF assms(1)] assms
    by (simp add: cpu_inv_def cpu_ranges_def trap_state_def set_csr_def Let_def mpp_trap fits_trap)
qed

lemma cpu_inv_trap:
  "cpu_inv r md c \<Longrightarrow> (r \<Longrightarrow> fits 32 cause) \<Longrightarrow> (r \<Longrightarrow> fits 32 mtval) \<Longrightarrow> cpu_inv r md (snd (trap cause mtval sync c))"
  by (simp add: trap_def cpu_inv_trap_state)

lemma cpu_inv_bypassed:
  assumes "cpu_inv r md c" "fits 32 cause" "fits 32 mtval"
  shows "cpu_inv r md (bypassed_trap_return cause mtval c)"
  using cpu_invD [OF assms(1)] assms
  by (simp add: cpu_inv_def cpu_ranges_def bypassed_trap_return_def set_csr_def Let_def mpp_or fits_or fits_numeral)

section \<open>Handlers keep the invariant\<close>

lemma word_of_reg:
  assumes "fits 32 x"
  obtains w :: "32 word" where "x = uint w"
proof
  show "x = uint (word_of_int x :: 32 word)"
    using assms by (simp add: fits_iff_take_bit uint_word_of_int_eq)
qed

lemma fits_uint: "fits 32 (uint (w :: 32 word))"
  using uint_lt2p [of w] by (simp add: fits_def)

lemma cpu_inv_set_reg': "cpu_inv r md c \<Longrightarrow> (r \<Longrightarrow> fits 32 v) \<Longrightarrow> cpu_inv r md (snd (set_reg rd v c))"
  by (simp add: set_reg_def py_defs cpu_inv_set_reg)

lemma fits_2: "fits 32 2" "fits 32 0" "fits 32 6" "fits 32 11" "fits 32 3"
  by (simp_all add: fits_def)

lemma fits_3_range: "fits 3 f3 \<Longrightarrow> 0 \<le> f3 \<and> f3 \<le> 7"
  by (simp add: fits_def)

lemma cpu_inv_Rtype:
  assumes "cpu_inv r md c" "r \<Longrightarrow> fits 32 inst" "fits 3 f3"
  shows "cpu_inv r md (snd (exec_Rtype inst sz rd f3 rs1 rs2 f7 c))"
proof (cases r)
  case True
  then obtain a b :: "32 word" where "registers c rs1 = uint a" "registers c rs2 = uint b"
    using cpu_invD(1) [OF assms(1)] by (metis word_of_reg)
  then show ?thesis
    using assms exec_Rtype_words [of c rs1 a rs2 b f3 inst sz rd f7] fits_3_range [OF assms(3)]
    by (auto simp: cpu_inv_set_reg' cpu_inv_trap fits_uint fits_2 split: option.split)
next
  case False
  then show ?thesis
    using assms(1) unfolding exec_Rtype_def Let_def by (simp add: cpu_inv_set_reg' cpu_inv_trap py_return_def)
qed

lemma cpu_inv_Itype:
  assumes "cpu_inv r md c" "r \<Longrightarrow> fits 32 inst" "fits 3 f3"
  shows "cpu_inv r md (snd (exec_Itype inst sz rd f3 rs1 rs2 f7 c))"
proof (cases r)
  case True
  then obtain a :: "32 word" where "registers c rs1 = uint a"
    using cpu_invD(1) [OF assms(1)] by (metis word_of_reg)
  then show ?thesis
    using assms True exec_Itype_words [of c rs1 a inst f3 sz rd rs2 f7] fits_3_range [OF assms(3)]
    by (auto simp: cpu_inv_set_reg' cpu_inv_trap fits_uint fits_2 split: option.split)
next
  case False
  then show ?thesis
    using assms(1) unfolding exec_Itype_def Let_def by (simp add: cpu_inv_set_reg' cpu_inv_trap py_return_def)
qed

lemma alignedI: "a AND alignment_mask c = 0 \<Longrightarrow> a = x AND 0xFFFFFFFF \<or> a = x AND 0xFFFFFFFE \<Longrightarrow> aligned r c a"
  by (auto simp: aligned_def intro!: fits_and fits_numeral)

lemma cpu_inv_set_next_pc: "cpu_inv r md c \<Longrightarrow> aligned r c a \<Longrightarrow> cpu_inv r md (snd (set_next_pc a c))"
  by (simp add: set_next_pc_def py_defs cpu_inv_next_pc)

lemma cpu_inv_branches:
  assumes "cpu_inv r md c" "r \<Longrightarrow> fits 32 inst"
  shows "cpu_inv r md (snd (exec_branches inst sz rd f3 rs1 rs2 f7 c))"
  using assms
  by (auto simp: exec_branches_def Let_def intro!: cpu_inv_trap cpu_inv_set_next_pc fits_2 fits_mask alignedI)

lemma cpu_inv_jump:
  assumes "cpu_inv r md c" "aligned r c a"
  shows "cpu_inv r md (snd (py_then (if rd \<noteq> 0 then set_reg rd ((pc c + sz) AND 0xFFFFFFFF) else py_return ()) (set_next_pc a) c))"
proof -
  have "cpu_inv r md (c\<lparr>registers := (registers c)(rd := v)\<rparr>)" if "fits 32 v" for v
    using assms(1) that by (rule cpu_inv_set_reg)
  then show ?thesis
    using assms by (auto simp: py_defs set_reg_def set_next_pc_def intro!: cpu_inv_next_pc fits_mask)
qed

lemma cpu_inv_jump_or_trap:
  assumes "cpu_inv r md c" "a = x AND 0xFFFFFFFF \<or> a = x AND 0xFFFFFFFE"
  shows "cpu_inv r md (snd (if a AND alignment_mask c \<noteq> 0 then trap 0 a True c
    else py_then (if rd \<noteq> 0 then set_reg rd ((pc c + sz) AND 0xFFFFFFFF) else py_return ()) (set_next_pc a) c))"
proof (cases "a AND alignment_mask c = 0")
  case True
  then have "aligned r c a" using assms(2) by (rule alignedI)
  then show ?thesis using True cpu_inv_jump [OF assms(1)] by (simp split del: if_split)
next
  case False
  moreover have "fits 32 a" using assms(2) by (auto intro!: fits_and fits_numeral)
  ultimately show ?thesis using assms(1) by (simp add: cpu_inv_trap fits_2)
qed

lemma cpu_inv_JAL: "cpu_inv r md c \<Longrightarrow> cpu_inv r md (snd (exec_JAL inst sz rd f3 rs1 rs2 f7 c))"
  unfolding exec_JAL_def Let_def by (rule cpu_inv_jump_or_trap) auto

lemma cpu_inv_JALR: "cpu_inv r md c \<Longrightarrow> (r \<Longrightarrow> fits 32 inst) \<Longrightarrow> cpu_inv r md (snd (exec_JALR inst sz rd f3 rs1 rs2 f7 c))"
  unfolding exec_JALR_def Let_def
  using cpu_inv_jump_or_trap [of r md c "(registers c rs1 + imm_i inst) AND 0xFFFFFFFE" "registers c rs1 + imm_i inst" rd sz]
  by (cases "f3 = 0") (simp_all add: cpu_inv_trap fits_2 split del: if_split)

lemma cpu_inv_simple:
  assumes "cpu_inv r md c" "r \<Longrightarrow> fits 32 inst"
  shows "cpu_inv r md (snd (exec_LUI inst sz rd f3 rs1 rs2 f7 c))"
    and "cpu_inv r md (snd (exec_AUIPC inst sz rd f3 rs1 rs2 f7 c))"
    and "cpu_inv r md (snd (exec_MISCMEM inst sz rd f3 rs1 rs2 f7 c))"
  using assms
  by (auto simp: exec_LUI_def exec_AUIPC_def exec_MISCMEM_def Let_def py_return_def
     intro!: cpu_inv_set_reg' cpu_inv_trap fits_2 fits_mask)

lemma cpu_inv_MRET:
  assumes "cpu_inv r md c"
  shows "cpu_inv r md (snd (exec_MRET c))"
  using cpu_invD [OF assms] assms unfolding exec_MRET_def Let_def
  by (auto simp: aligned_def mpp_mret fits_mret intro!: cpu_inv_trap cpu_inv_set_csr cpu_inv_next_pc fits_2)

lemma cpu_inv_timer_fields:
  assumes "cpu_inv r md c"
  shows "cpu_inv r md (c\<lparr>mtime_lo_updated := b, mtime_hi_updated := b'\<rparr>)"
    and "cpu_inv r md (c\<lparr>mtimecmp_lo_updated := b, mtimecmp_hi_updated := b'\<rparr>)"
    and "(r \<Longrightarrow> fits 64 t) \<Longrightarrow> cpu_inv r md (c\<lparr>mtime := t, mtime_lo_updated := b, mtime_hi_updated := b'\<rparr>)"
    and "(r \<Longrightarrow> fits 64 t) \<Longrightarrow> cpu_inv r md (c\<lparr>mtimecmp := t, mtimecmp_lo_updated := b, mtimecmp_hi_updated := b'\<rparr>)"
    and "cpu_inv r md (c\<lparr>mtip := b\<rparr>)" and "cpu_inv r md (c\<lparr>mtime_countdown := x\<rparr>)"
    and "cpu_inv r md (c\<lparr>reservation_valid := b\<rparr>)" and "cpu_inv r md (c\<lparr>reservation_addr := y\<rparr>)"
    and "(r \<Longrightarrow> fits 64 t) \<Longrightarrow> cpu_inv r md (c\<lparr>mtime := t\<rparr>)" and "(r \<Longrightarrow> fits 64 t) \<Longrightarrow> cpu_inv r md (c\<lparr>mtimecmp := t\<rparr>)"
  using assms by (simp_all add: cpu_inv_def cpu_ranges_def)

lemma fits_64_pair: "fits 32 x \<Longrightarrow> fits 32 y \<Longrightarrow> fits 64 (push_bit 32 x OR y)"
  by (intro fits_or fits_push_bit) (auto intro: fits_mono)

lemma cpu_inv_csrrw:
  assumes "cpu_inv r md c" "r \<Longrightarrow> fits 32 v" "csr \<noteq> 0x300"
  shows "cpu_inv r md (csrrw_write csr v c)"
proof -
  define c1 where "c1 = (if csr = 0x305 then set_csr csr (v AND NOT 0x3) c
              else if csr \<notin> set CSR_NOWRITE then set_csr csr v c else c)"
  have 1: "cpu_inv r md c1"
    using assms by (auto simp: c1_def intro!: cpu_inv_set_csr fits_and_left)
  define c2 where "c2 = (if csr = 0x7C0 \<or> csr = 0x7C1 then
                let c = c1\<lparr>mtime_lo_updated := mtime_lo_updated c1 \<or> csr = 0x7C0,
                          mtime_hi_updated := mtime_hi_updated c1 \<or> csr = 0x7C1\<rparr>
                in if mtime_lo_updated c \<and> mtime_hi_updated c then
                     let c = c\<lparr>mtime := push_bit 32 (csrs c 0x7C1) OR csrs c 0x7C0,
                               mtime_lo_updated := False, mtime_hi_updated := False\<rparr>
                     in c\<lparr>mtip := (mtime c \<ge> mtimecmp c)\<rparr>
                   else c
              else c1)"
  have 2: "cpu_inv r md c2"
    using 1 cpu_invD(2) [OF 1] unfolding c2_def Let_def
    by (auto intro!: cpu_inv_timer_fields fits_64_pair)
  show ?thesis
    using 2 cpu_invD(2) [OF 2] unfolding csrrw_write_def c1_def [symmetric] Let_def [of c1] c2_def [symmetric]
    unfolding Let_def c2_def [unfolded Let_def, symmetric]
    by (auto intro!: cpu_inv_timer_fields fits_64_pair)
qed

lemma set_csr_twice [simp]: "set_csr a v (set_csr a w c) = set_csr a v c"
  by (simp add: set_csr_def)

lemma csrs_set_csr [simp]: "csrs (set_csr a v c) b = (if b = a then v else csrs c b)"
  by (simp add: set_csr_def)

lemma csrrw_mstatus: "csrrw_write 0x300 v c = set_csr 0x300 v c"
  by (simp add: csrrw_write_def CSR_NOWRITE_def)

lemma cpu_inv_csr_update:
  assumes "cpu_inv r md c" "r \<Longrightarrow> fits 32 old" "r \<Longrightarrow> fits 32 v"
  shows "cpu_inv r md (csr_update f3 csr old v c)"
proof -
  define c1 where "c1 = (if f3 = 1 \<or> f3 = 5 then csrrw_write csr v c
                     else if f3 = 2 \<or> f3 = 6 then
                       (if v \<noteq> 0 \<and> csr \<notin> set CSR_NOWRITE then set_csr csr (old OR v) c else c)
                     else if f3 = 3 \<or> f3 = 7 then
                       (if v \<noteq> 0 \<and> csr \<notin> set CSR_NOWRITE then set_csr csr (old AND NOT v) c else c)
                     else c)"
  have "cpu_inv r md (set_csr 0x300 (csrs c1 0x300 OR 0x00001800) c1)" if "csr = 0x300"
  proof -
    have "set_csr 0x300 z c1 = set_csr 0x300 z c" "r \<Longrightarrow> fits 32 (csrs c1 0x300)" for z
      using assms(2,3) cpu_invD(2) [OF assms(1)] that
      by (simp_all add: c1_def csrrw_mstatus fits_or fits_and_left)
    then show ?thesis
      using assms(1) by (auto intro!: cpu_inv_set_csr fits_or fits_numeral mpp_force)
  qed
  moreover have "cpu_inv r md c1" if "csr \<noteq> 0x300"
    using assms that by (auto simp: c1_def intro!: cpu_inv_set_csr cpu_inv_csrrw fits_or fits_and_left)
  ultimately show ?thesis
    unfolding csr_update_def c1_def [symmetric] Let_def by simp
qed

lemma fits_csr_read: "fits 32 old \<Longrightarrow> fits 32 (csr_read_value csr old c)"
  by (simp add: csr_read_value_def fits_mask)

lemma snd_py_then_modify: "(\<And>c. P c \<Longrightarrow> P (f c)) \<Longrightarrow> P (snd (m c)) \<Longrightarrow> P (snd (py_then m (py_modify f) c))"
  by (auto simp: py_defs split: prod.split sum.split)

lemma cpu_inv_CSR:
  assumes "cpu_inv r md c" "r \<Longrightarrow> fits 32 inst" "fits 5 rs1"
  shows "cpu_inv r md (snd (exec_CSR inst rd f3 rs1 c))"
proof -
  define csr old v where "csr = drop_bit 20 inst AND 0xFFF" and "old = csrs c csr"
    and "v = (if f3 < 5 then registers c rs1 else rs1)"
  have "fits 32 rs1" using assms(3) by (rule fits_mono) simp
  then have fits: "r \<Longrightarrow> fits 32 old" "r \<Longrightarrow> fits 32 v"
    using cpu_invD(1,2) [OF assms(1)] by (simp_all add: old_def v_def)
  have "cpu_inv r md (let c = csr_update f3 csr old v c'
      in if rd \<noteq> 0 then c\<lparr>registers := (registers c)(rd := csr_read_value csr old c)\<rparr> else c)"
    if "cpu_inv r md c'" for c'
    using cpu_inv_csr_update [OF that fits] by (simp add: Let_def cpu_inv_set_reg fits_csr_read fits)
  moreover have "cpu_inv r md (snd ((if csr \<in> set CSR_RO \<and> (f3 = 1 \<or> f3 = 5 \<or> v \<noteq> 0)
      then trap 2 inst True else py_return ()) c))"
    using assms by (simp add: cpu_inv_trap fits_2 py_return_def)
  ultimately show ?thesis
    unfolding exec_CSR_def csr_def old_def v_def Let_def
    by (rule snd_py_then_modify [where P = "cpu_inv r md"])
qed

section \<open>The system invariant\<close>

definition device_inv :: "device \<Rightarrow> bool" where
  "device_inv d =
     (case d of
        Timer t \<Rightarrow> fits 32 (tmr_mtime_lo t) \<and> fits 32 (tmr_mtime_hi t)
      | Uart u \<Rightarrow> True
      | BlockDev b \<Rightarrow> fits 32 (blk_cmd b) \<and> fits 32 (blk_no b) \<and> fits 32 (blk_ptr b) \<and> fits 32 (blk_status b))"

definition sys_inv :: "bool \<Rightarrow> bool \<Rightarrow> 'h sys \<Rightarrow> bool" where
  "sys_inv r md s \<longleftrightarrow> cpu_inv r md (cpu s) \<and> ram_wf (ram s) \<and> (\<forall>d \<in> set (devices s). device_inv d) \<and>
     (\<forall>(lo, hi, i) \<in> set (mmio_ranges s). i < length (devices s))"

text \<open>\<open>yields P m Q\<close>: \<open>m\<close> keeps \<open>P\<close>, and what it returns satisfies \<open>Q\<close>.\<close>

definition yields :: "('s \<Rightarrow> bool) \<Rightarrow> ('s, 'a) py \<Rightarrow> ('a \<Rightarrow> bool) \<Rightarrow> bool" where
  "yields P m Q \<longleftrightarrow> (\<forall>s. P s \<longrightarrow> P (snd (m s)) \<and> (\<forall>x. fst (m s) = Inr x \<longrightarrow> Q x))"

lemma yieldsI: "(\<And>s. P s \<Longrightarrow> P (snd (m s))) \<Longrightarrow> (\<And>s x. P s \<Longrightarrow> fst (m s) = Inr x \<Longrightarrow> Q x) \<Longrightarrow> yields P m Q"
  by (simp add: yields_def)

lemma yields_keeps: "yields P m Q \<Longrightarrow> py_keeps P m"
  by (simp add: yields_def py_keeps_def)

lemma yields_bind:
  assumes "yields P m Q" "\<And>x. Q x \<Longrightarrow> py_keeps P (f x)"
  shows "py_keeps P (py_bind m f)"
  unfolding py_keeps_def py_bind_def
proof (intro allI impI)
  fix s assume "P s"
  then have "P (snd (m s))" "\<And>x. fst (m s) = Inr x \<Longrightarrow> Q x" using assms(1) by (auto simp: yields_def)
  then show "P (snd (case m s of (Inl e, s') \<Rightarrow> (Inl e, s') | (Inr x, s') \<Rightarrow> f x s'))"
    using assms(2) by (auto simp: py_keeps_def split: prod.split sum.split)
qed

lemma on_cpu_simps [simp]:
  "fst (on_cpu m s) = fst (m (cpu s))" "snd (on_cpu m s) = s\<lparr>cpu := snd (m (cpu s))\<rparr>"
  by (simp_all add: on_cpu_def py_zoom_def split: prod.split)

lemma on_ram_simps [simp]:
  "fst (on_ram m s) = fst (m (ram s))" "snd (on_ram m s) = s\<lparr>ram := snd (m (ram s))\<rparr>"
  by (simp_all add: on_ram_def py_zoom_def split: prod.split)

lemma sys_inv_cpu: "sys_inv r md s \<Longrightarrow> cpu_inv r md c \<Longrightarrow> sys_inv r md (s\<lparr>cpu := c\<rparr>)"
  by (simp add: sys_inv_def)

lemma sys_inv_ram: "sys_inv r md s \<Longrightarrow> ram_shape R = ram_shape (ram s) \<Longrightarrow> sys_inv r md (s\<lparr>ram := R\<rparr>)"
  using ram_wf_shape [of R "ram s"] by (simp add: sys_inv_def)

lemma sys_inv_device:
  "sys_inv r md s \<Longrightarrow> device_inv d \<Longrightarrow> sys_inv r md (s\<lparr>devices := (devices s)[i := d]\<rparr>)"
  using set_update_subset_insert [of "devices s" i d] by (auto simp: sys_inv_def)

lemma sys_invD: "sys_inv r md s \<Longrightarrow> cpu_inv r md (cpu s)" "sys_inv r md s \<Longrightarrow> ram_wf (ram s)"
  by (simp_all add: sys_inv_def)

lemma keeps_on_cpu [py_keeps_intros]:
  "(\<And>c. cpu_inv r md c \<Longrightarrow> cpu_inv r md (snd (m c))) \<Longrightarrow> py_keeps (sys_inv r md) (on_cpu m)"
  by (simp add: py_keeps_def sys_inv_cpu sys_invD)

lemma keeps_on_ram [py_keeps_intros]:
  assumes "keeps_shape m"
  shows "py_keeps (sys_inv r md) (on_ram m)"
  unfolding py_keeps_def on_ram_simps
  by (intro allI impI sys_inv_ram keeps_shapeD [OF assms])

text \<open>Every access of the memory object keeps the shape of the byte array, whatever the class.\<close>

lemma keeps_shape_class:
  assumes "\<And>cls. keeps_shape (f cls)"
  shows "keeps_shape (\<lambda>R. f (ram_class R) R)"
  using assms by (intro keeps_shapeI) (rule keeps_shapeD)

lemma keeps_shape_ram:
  "keeps_shape (ram_load_byte a sg)" "keeps_shape (ram_load_half a sg)"
  "keeps_shape (ram_store_byte a v)" "keeps_shape (ram_store_half a v)"
  "keeps_shape (ram_load_binary a n)" "keeps_shape (ram_store_binary a bs)" "keeps_shape (ram_load_cstring a n)"
  by (rule keeps_shapeI; 
    simp add: ram_load_byte_def ram_load_half_def ram_store_byte_def ram_store_half_def
      ram_load_binary_def ram_store_binary_def ram_load_cstring_def
      keeps_shape_RAM [THEN keeps_shapeD] keeps_shape_SafeRAM [THEN keeps_shapeD] keeps_shape_Offset [THEN keeps_shapeD]
      split: ram_class.split)+

lemma keeps_accesses [py_keeps_intros]:
  "py_keeps (sys_inv r md) (load_byte a sg)" "py_keeps (sys_inv r md) (load_half a sg)"
  "py_keeps (sys_inv r md) (store_byte a v)" "py_keeps (sys_inv r md) (store_half a v)"
  "py_keeps (sys_inv r md) (load_binary a n)" "py_keeps (sys_inv r md) (store_binary a bs)"
  "py_keeps (sys_inv r md) (load_cstring a n)"
  unfolding load_byte_def load_half_def store_byte_def store_half_def load_binary_def store_binary_def load_cstring_def
  by (rule keeps_on_ram, rule keeps_shape_ram)+

text \<open>Registers of the peripherals are 32 bits wide.\<close>

lemma fits_word_bytes: "fits 32 (le32 b0 b1 b2 b3)"
  using le32_take_bit by (simp add: fits_iff_take_bit)

lemma mem_load_word_fits: "fst (mem_load_word err a R) = Inr v \<Longrightarrow> fits 32 v"
  by (auto simp: mem_load_word_def py_lift_def mem32_get_def fits_word_bytes split: option.splits if_splits bind_splits)

lemma plain_load_word_fits:
  "fst (RAM_load_word a R) = Inr v \<Longrightarrow> fits 32 v" "fst (SafeRAM_load_word a R) = Inr v \<Longrightarrow> fits 32 v"
  "fst (SafeRAMOffset_load_word a R) = Inr v \<Longrightarrow> fits 32 v"
  by (auto simp: RAM_load_word_def SafeRAM_load_word_def SafeRAMOffset_load_word_def SafeRAM_check_def SafeRAMOffset_check_def
     py_defs Let_def intro: mem_load_word_fits split: if_splits)

lemma yields_on_ram:
  assumes "keeps_shape m" "\<And>R v. fst (m R) = Inr v \<Longrightarrow> Q v"
  shows "yields (sys_inv r md) (on_ram m) Q"
  using py_keepsD [OF keeps_on_ram [OF assms(1)]] assms(2) by (auto intro!: yieldsI)

lemma mmio_hitD:
  assumes "mmio_hit a s = Some i"
  obtains lo hi where "(lo, hi, i) \<in> set (mmio_ranges s)" "lo \<le> a" "a < hi"
proof -
  obtain x where x: "List.find (\<lambda>(lo, hi, i). lo \<le> a \<and> a < hi) (mmio_ranges s) = Some x"
      "(\<lambda>(lo, hi, i). i) x = i"
    using assms by (auto simp: mmio_hit_def)
  then have "x \<in> set (mmio_ranges s)" "(\<lambda>(lo, hi, i). lo \<le> a \<and> a < hi) x"
    using find_Some_iff [of _ "mmio_ranges s" x] by (metis nth_mem)+
  with x(2) that show thesis by (cases x) auto
qed

lemma device_in:
  assumes "sys_inv r md s" "mmio_hit a s = Some i"
  shows "i < length (devices s)" "device_inv (devices s ! i)"
proof -
  show "i < length (devices s)"
    using assms by (elim mmio_hitD) (auto simp: sys_inv_def)
  then show "device_inv (devices s ! i)" using assms(1) by (simp add: sys_inv_def)
qed

lemma fits_drop32: "fits 64 x \<Longrightarrow> fits 32 (drop_bit 32 x)"
  using fits_drop_bit [of 64 x 32] by simp

lemma device_read32_inv:
  assumes "sys_inv r md s" "device_inv (devices s ! i)"
  shows "sys_inv r md (snd (device_read32 i a s))" and "fst (device_read32 i a s) = Inr v \<Longrightarrow> r \<Longrightarrow> fits 32 v"
proof -
  have m: "r \<Longrightarrow> fits 64 (mtime (cpu s))" "r \<Longrightarrow> fits 64 (mtimecmp (cpu s))"
    using assms(1) by (simp_all add: sys_inv_def cpu_inv_def cpu_ranges_def)
  have "fits 32 (uint (w :: 8 word))" for w using uint_lt2p [of w] by (simp add: fits_def)
  moreover have "sys_inv r md (s\<lparr>devices := (devices s)[i := devices s ! i]\<rparr>)"
    using assms by (rule sys_inv_device)
  ultimately show "sys_inv r md (snd (device_read32 i a s))" and "fst (device_read32 i a s) = Inr v \<Longrightarrow> r \<Longrightarrow> fits 32 v"
    using assms m
    by (auto simp: device_read32_def on_timer_def on_uart_def on_block_def MMIOTimer_read32_def PtyUART_read32_def
        MMIOBlockDevice_read32_def py_lift_def Let_def device_inv_def fits_mask fits_drop32 fits_numeral fits_zero
        split: device.splits list.splits if_splits intro!: sys_inv_device sys_inv_cpu)
qed

lemma fits_mtimecmp: "fits 64 ((x AND 0xFFFFFFFF00000000) OR (v AND 0xFFFFFFFF))"
  "fits 64 ((x AND 0x00000000FFFFFFFF) OR push_bit 32 (v AND 0xFFFFFFFF))"
  by (intro fits_or fits_and fits_push_bit fits_numeral; simp)+

definition timer_inv :: "bool \<Rightarrow> bool \<Rightarrow> mmio_timer \<times> cpu \<Rightarrow> bool" where
  "timer_inv r md = (\<lambda>(t, c). cpu_inv r md c \<and> device_inv (Timer t))"

lemma timer_commit_inv: "timer_inv r md tc \<Longrightarrow> timer_inv r md (timer_commit tc)"
  by (auto simp: timer_commit_def timer_inv_def device_inv_def cpu_inv_timer_fields fits_64_pair split: prod.split)

lemma timer_write_inv:
  assumes "timer_inv r md (t, c)" "fits 32 v"
  shows "timer_inv r md (snd (MMIOTimer_write32 a v (t, c)))"
proof -
  have "timer_inv r md (t, c\<lparr>mtimecmp := x\<rparr>)" if "fits 64 x" for x
    using assms(1) that by (simp add: timer_inv_def cpu_inv_timer_fields)
  moreover have "timer_inv r md (t\<lparr>tmr_mtime_lo := v, tmr_lo_updated := True\<rparr>, c)"
      "timer_inv r md (t\<lparr>tmr_mtime_hi := v, tmr_hi_updated := True\<rparr>, c)"
    using assms by (simp_all add: timer_inv_def device_inv_def)
  ultimately show ?thesis
    using assms(1) fits_mtimecmp by (simp add: MMIOTimer_write32_def timer_commit_inv)
qed

lemma sys_inv_timer:
  "sys_inv r md s \<Longrightarrow> cpu_inv r md c \<Longrightarrow> device_inv d \<Longrightarrow> sys_inv r md (s\<lparr>cpu := c, devices := (devices s)[i := d]\<rparr>)"
  using sys_inv_device [of r md "s\<lparr>cpu := c\<rparr>" d i] by (simp add: sys_inv_cpu)

lemma sys_inv_block:
  "sys_inv r md s \<Longrightarrow> ram_shape R = ram_shape (ram s) \<Longrightarrow> device_inv d \<Longrightarrow>
   sys_inv r md (s\<lparr>ram := R, devices := (devices s)[i := d]\<rparr>)"
  using sys_inv_device [of r md "s\<lparr>ram := R\<rparr>" d i] by (simp add: sys_inv_ram)

lemma execute_cmd_inv:
  assumes "device_inv (BlockDev d)" "execute_cmd (d, R) = (res, d', R')"
  shows "ram_shape R' = ram_shape R \<and> device_inv (BlockDev d')"
proof -
  note k = keeps_shapeD [OF keeps_shape_ram(5), of "blk_ptr d" "block_size d" R]
    keeps_shapeD [OF keeps_shape_ram(6), of "blk_ptr d" "file_read (image d) (nat (blk_no d * block_size d)) (block_size d)" R]
  show ?thesis
    using assms k
    by (auto simp: execute_cmd_def Let_def device_inv_def fits_one split: if_splits prod.splits sum.splits)
qed

lemma device_write32_inv:
  assumes "sys_inv r md s" "device_inv (devices s ! i)" "fits 32 v"
  shows "sys_inv r md (snd (device_write32 i a v s))"
proof (cases "devices s ! i")
  case (Timer t)
  then show ?thesis
    using timer_write_inv [of r md t "cpu s" v a] assms sys_invD(1) [OF assms(1)]
    by (auto simp: device_write32_def on_timer_def timer_inv_def split: prod.splits intro!: sys_inv_timer)
next
  case (Uart u)
  then show ?thesis
    using assms by (auto simp: device_write32_def on_uart_def device_inv_def split: prod.split intro!: sys_inv_device)
next
  case (BlockDev d)
  then have "ram_shape R' = ram_shape (ram s) \<and> device_inv (BlockDev d')"
    if "MMIOBlockDevice_write32 a v (d, ram s) = (res, d', R')" for res d' R'
    using that assms execute_cmd_inv [of d "ram s"]
    by (auto simp: MMIOBlockDevice_write32_def device_inv_def split: if_splits)
  then show ?thesis
    using BlockDev assms by (auto simp: device_write32_def on_block_def split: prod.split intro!: sys_inv_block)
qed

lemma load_word_yields: "yields (sys_inv r md) (load_word a) (\<lambda>v. r \<longrightarrow> fits 32 v)"
proof (rule yieldsI)
  fix s :: "'h sys" and v assume inv: "sys_inv r md s"
  note D = device_in [OF inv, of a] device_read32_inv [OF inv]
  note K = keeps_shape_RAM(3) keeps_shape_SafeRAM(3) keeps_shape_Offset(3) keeps_shape_mem(3)
  show "sys_inv r md (snd (load_word a s))"
    using inv D K [THEN keeps_on_ram, THEN py_keepsD, OF inv]
    by (auto simp: load_word_def RAM_MMIO_load_word_def SafeRAM_MMIO_load_word_def MMIO_load_word_def
        split: ram_class.split option.split simp del: on_ram_simps)
  show "fst (load_word a s) = Inr v \<Longrightarrow> r \<longrightarrow> fits 32 v"
    using D plain_load_word_fits mem_load_word_fits
    by (auto simp: load_word_def RAM_MMIO_load_word_def SafeRAM_MMIO_load_word_def MMIO_load_word_def
        split: ram_class.splits option.splits)
qed

lemma store_word_keeps [py_keeps_intros]: "py_keeps (sys_inv r md) (store_word a v)"
  unfolding py_keeps_def
proof (intro allI impI)
  fix s :: "'h sys" assume inv: "sys_inv r md s"
  note D = device_in [OF inv, of a] device_write32_inv [OF inv _ fits_mask(1)]
  note K = keeps_shape_RAM(6) keeps_shape_SafeRAM(6) keeps_shape_Offset(6)
  show "sys_inv r md (snd (store_word a v s))"
    using inv D K [THEN keeps_on_ram, THEN py_keepsD, OF inv]
    by (auto simp: store_word_def RAM_MMIO_store_word_def SafeRAM_MMIO_store_word_def MMIO_store_word_def Let_def
        split: ram_class.split option.split simp del: on_ram_simps)
qed

section \<open>Execution keeps the invariant\<close>

lemma py_keeps_at: "(\<And>s. P s \<Longrightarrow> py_keeps P (g s)) \<Longrightarrow> py_keeps P (\<lambda>s. g s s)"
  by (simp add: py_keeps_def)

lemma keeps_set_reg [py_keeps_intros]: "(r \<Longrightarrow> fits 32 v) \<Longrightarrow> py_keeps (sys_inv r md) (on_cpu (set_reg rd v))"
  by (rule keeps_on_cpu) (rule cpu_inv_set_reg')

lemma keeps_trap [py_keeps_intros]:
  "(r \<Longrightarrow> fits 32 cause) \<Longrightarrow> (r \<Longrightarrow> fits 32 mtval) \<Longrightarrow> py_keeps (sys_inv r md) (on_cpu (trap cause mtval sync))"
  by (rule keeps_on_cpu) (rule cpu_inv_trap)

lemma keeps_clear_reservation [py_keeps_intros]: "py_keeps (sys_inv r md) clear_reservation"
  unfolding clear_reservation_def by (rule keeps_on_cpu) (simp add: py_defs cpu_inv_timer_fields)

lemma keeps_load_reg:
  assumes "py_keeps (sys_inv r md) m" "\<And>v. fits 32 (f v)"
  shows "py_keeps (sys_inv r md) (py_bind m (\<lambda>v. on_cpu (set_reg rd (f v))))"
  by (intro py_keeps_bind keeps_set_reg assms)

lemma fits_masks32: "fits 32 (v AND 0xFF)" "fits 32 (v AND 0xFFFF)" "fits 32 (v AND 0xFFFFFFFF)"
  by (intro fits_and fits_numeral; simp)+

lemma keeps_exec_loads:
  assumes "r \<Longrightarrow> fits 32 inst"
  shows "py_keeps (sys_inv r md) (exec_loads inst sz rd f3 rs1 rs2 f7)"
  unfolding exec_loads_def [abs_def] Let_def
  by (rule py_keeps_at) (intro py_keeps_if keeps_load_reg keeps_accesses yields_keeps [OF load_word_yields] fits_masks32
    keeps_trap fits_2 assms)

lemma keeps_exec_stores:
  assumes "r \<Longrightarrow> fits 32 inst"
  shows "py_keeps (sys_inv r md) (exec_stores inst sz rd f3 rs1 rs2 f7)"
  unfolding exec_stores_def [abs_def] Let_def
  by (rule py_keeps_at) (intro py_keeps_if py_keeps_then keeps_accesses store_word_keeps keeps_clear_reservation
    keeps_trap fits_2 assms)

lemma fits_amo_old: "(r \<Longrightarrow> fits 32 v) \<Longrightarrow> r \<Longrightarrow> fits 32 (amo_old f5 v)"
  by (simp add: amo_old_def fits_masks32)

lemma fits_1: "fits 32 1"
  by (simp add: fits_def)

lemma keeps_exec_AMO:
  assumes "r \<Longrightarrow> fits 32 inst"
  shows "py_keeps (sys_inv r md) (exec_AMO inst sz rd f3 rs1 rs2 f7)"
proof -
  have lr: "py_keeps (sys_inv r md) (py_bind (load_word addr) (\<lambda>val. on_cpu (py_modify (\<lambda>c.
              c\<lparr>registers := (registers c)(rd := val), reservation_valid := True, reservation_addr := addr\<rparr>))))" for addr
    by (rule yields_bind [OF load_word_yields], rule keeps_on_cpu)
       (simp add: py_defs cpu_inv_timer_fields cpu_inv_set_reg)
  have amo: "py_keeps (sys_inv r md) (py_bind (load_word addr) (\<lambda>old_val.
              py_then (store_word addr (the (amo_new f5 old_val b)))
                (py_then (on_cpu (set_reg rd (amo_old f5 old_val))) clear_reservation)))" for addr f5 b
    by (rule yields_bind [OF load_word_yields])
       (intro py_keeps_then store_word_keeps keeps_set_reg keeps_clear_reservation fits_amo_old, blast+)
  have sc: "py_keeps (sys_inv r md) (py_then (store_word addr b) (py_then (on_cpu (set_reg rd 0)) clear_reservation))" for addr b
    by (intro py_keeps_then store_word_keeps keeps_set_reg keeps_clear_reservation fits_zero)
  show ?thesis
    unfolding py_keeps_def
  proof (intro allI impI)
    fix s :: "'h sys" assume inv: "sys_inv r md s"
    note D = py_keepsD [where P = "sys_inv r md" and s = s, OF _ inv]
    show "sys_inv r md (snd (exec_AMO inst sz rd f3 rs1 rs2 f7 s))"
      using D [OF lr] D [OF amo] D [OF sc] D [OF keeps_set_reg [OF fits_1]]
        D [OF keeps_trap [OF fits_2(1) assms]] D [OF keeps_trap [OF fits_2(3) fits_masks32(3)]]
      by (simp add: exec_AMO_def Let_def del: on_cpu_simps)
  qed
qed

lemma keeps_exec_EBREAK: "py_keeps (sys_inv r md) exec_EBREAK"
  unfolding py_keeps_def
proof (intro allI impI)
  fix s :: "'h sys" assume inv: "sys_inv r md s"
  note D = py_keepsD [where P = "sys_inv r md" and s = s, OF _ inv]
  have "py_keeps (sys_inv r md) (py_bind (load_cstring a 1024) (\<lambda>_. py_return ()))" for a
    by (intro py_keeps_bind keeps_accesses py_keeps_return)
  from D [OF this] show "sys_inv r md (snd (exec_EBREAK s))"
    using inv D [OF keeps_trap [OF fits_2(5) fits_2(2)]] sys_invD(1) [OF inv]
    by (simp add: exec_EBREAK_def Let_def sys_inv_cpu cpu_inv_bypassed fits_2 del: on_cpu_simps)
qed

text \<open>
  The contract between the CPU and its \<open>ecall\<close> handler: the handler keeps the invariant. Under it every
  instruction does.
\<close>

locale ecall_contract =
  fixes r md :: bool and ecall :: "('h sys, unit) py option"
  assumes handler_keeps: "\<And>h. ecall = Some h \<Longrightarrow> py_keeps (sys_inv r md) h"
begin

lemma keeps_exec_ECALL: "py_keeps (sys_inv r md) (exec_ECALL ecall)"
  unfolding py_keeps_def
proof (intro allI impI)
  fix s :: "'h sys" assume inv: "sys_inv r md s"
  note D = py_keepsD [where P = "sys_inv r md" and s = s, OF _ inv]
  have "py_keeps (sys_inv r md) (py_then h (on_cpu (py_modify (bypassed_trap_return 11 0))))" if "ecall = Some h" for h
    using that by (intro py_keeps_then handler_keeps keeps_on_cpu) (simp_all add: py_defs cpu_inv_bypassed fits_2)
  from D [OF this] show "sys_inv r md (snd (exec_ECALL ecall s))"
    using inv D [OF keeps_trap [OF fits_2(4) fits_2(2)]]
    by (simp add: exec_ECALL_def del: on_cpu_simps split: option.split)
qed

lemma keeps_exec_SYSTEM:
  assumes "r \<Longrightarrow> fits 32 inst" "fits 5 rs1"
  shows "py_keeps (sys_inv r md) (exec_SYSTEM ecall inst sz rd f3 rs1 rs2 f7)"
  unfolding exec_SYSTEM_def
  by (intro py_keeps_if keeps_exec_ECALL keeps_on_cpu keeps_exec_EBREAK py_keeps_return cpu_inv_MRET cpu_inv_CSR
    cpu_inv_trap fits_2 assms)

lemma keeps_handler:
  assumes "opcode_handler ecall opc = Some h" "r \<Longrightarrow> fits 32 inst" "fits 3 f3" "fits 5 rs1"
  shows "py_keeps (sys_inv r md) (h inst sz rd f3 rs1 rs2 f7)"
  using assms keeps_exec_SYSTEM [of inst rs1] keeps_exec_AMO [of r inst] keeps_exec_loads [of r inst] keeps_exec_stores [of r inst]
  unfolding opcode_handler_def
  by (auto split: if_splits intro!: keeps_on_cpu cpu_inv_Rtype cpu_inv_Itype cpu_inv_branches cpu_inv_simple cpu_inv_JAL cpu_inv_JALR)

end

lemma aligned_next:
  assumes "cpu_inv r md c" "sz = 4 \<or> sz = 2 \<and> rvc_enabled c"
  shows "aligned r c ((pc c + sz) AND 0xFFFFFFFF)"
proof -
  have al: "alignment_mask c = (if rvc_enabled c then 1 else 3)" "pc c AND alignment_mask c = 0"
    using assms(1) by (auto simp: cpu_inv_def aligned_def)
  define k where "k = (if rvc_enabled c then 1 else 2 :: nat)"
  have mask: "x AND alignment_mask c = take_bit k x" for x
    by (simp add: al(1) k_def bits)
  have "take_bit k (pc c) = 0" "take_bit k sz = 0" "k \<le> 32"
    using al(2) assms(2) unfolding mask by (auto simp: k_def)
  then have "take_bit k (take_bit 32 (pc c + sz)) = 0"
    by (simp add: take_bit_add [of k "pc c" sz, symmetric])
  then have "((pc c + sz) AND 0xFFFFFFFF) AND alignment_mask c = 0"
    by (simp only: mask and_mask_take_bit)
  then show ?thesis by (intro alignedI) auto
qed

lemma fits_decode:
  assumes "decode_fields inst = (opc, rd, f3, rs1, rs2, f7)"
  shows "fits 7 opc" "fits 5 rd" "fits 3 f3" "fits 5 rs1" "fits 5 rs2" "fits 7 f7"
  using assms by (auto simp: decode_fields_fld intro!: fits_fld)

lemma cache_inv_update:
  "cache_inv c \<Longrightarrow> (rvc_enabled c \<Longrightarrow> inst AND 0x3 = 0x3) \<Longrightarrow>
   cache_inv (c\<lparr>decode_cache := (decode_cache c)(drop_bit 2 inst \<mapsto> decode_fields inst)\<rparr>)"
  "cache_inv c \<Longrightarrow> expand_compressed k = (e, True) \<Longrightarrow>
   cache_inv (c\<lparr>decode_cache_compressed := (decode_cache_compressed c)(k \<mapsto> (decode_fields e, e))\<rparr>)"
  unfolding cache_inv_def by (auto simp del: split_paired_All)

lemma cpu_inv_cache:
  "cpu_inv r md c \<Longrightarrow> (rvc_enabled c \<Longrightarrow> inst AND 0x3 = 0x3) \<Longrightarrow>
   cpu_inv r md (c\<lparr>decode_cache := (decode_cache c)(drop_bit 2 inst \<mapsto> decode_fields inst)\<rparr>)"
  "cpu_inv r md c \<Longrightarrow> expand_compressed k = (e, True) \<Longrightarrow>
   cpu_inv r md (c\<lparr>decode_cache_compressed := (decode_cache_compressed c)(k \<mapsto> (decode_fields e, e))\<rparr>)"
  by (auto simp: cpu_inv_def cpu_ranges_def intro!: cache_inv_update)

lemma cached_compressed:
  "cpu_inv r md c \<Longrightarrow> decode_cache_compressed c k = Some (d, e) \<Longrightarrow> expand_compressed k = (e, True) \<and> d = decode_fields e"
  unfolding cpu_inv_def cache_inv_def by blast

lemma cached:
  "cpu_inv r md c \<Longrightarrow> decode_cache c k = Some d \<Longrightarrow>
   \<exists>inst. k = drop_bit 2 inst \<and> (rvc_enabled c \<longrightarrow> inst AND 0x3 = 0x3) \<and> d = decode_fields inst"
  unfolding cpu_inv_def cache_inv_def by blast

lemma expand_fits: "expand_compressed c = (w, True) \<Longrightarrow> fits 32 w"
  using rvc_table_wf [of c] encode32_fits
  by (auto simp: expand_compressed_encode rvc_encode_def split: option.splits)

context ecall_contract
begin

lemma dispatch_inv:
  assumes "sys_inv r md s" "r \<Longrightarrow> fits 32 inst" "sz = 4 \<or> sz = 2 \<and> rvc_enabled (cpu s)"
  shows "sys_inv r md (snd (dispatch ecall inst sz (decode_fields inst') s))"
proof -
  obtain opc rd f3 rs1 rs2 f7 where d: "decode_fields inst' = (opc, rd, f3, rs1, rs2, f7)"
    by (metis prod_cases6)
  define s1 where "s1 = s\<lparr>cpu := (cpu s)\<lparr>next_pc := (pc (cpu s) + sz) AND 0xFFFFFFFF\<rparr>\<rparr>"
  have 1: "sys_inv r md s1"
    unfolding s1_def using sys_invD(1) [OF assms(1)]
    by (intro sys_inv_cpu assms cpu_inv_next_pc aligned_next)
  have "py_keeps (sys_inv r md)
    (py_then (case opcode_handler ecall opc of Some h \<Rightarrow> h inst sz rd f3 rs1 rs2 f7 | None \<Rightarrow> on_cpu (trap 2 inst True))
       (on_cpu (set_reg 0 0)))"
    using keeps_handler [of opc _ inst f3 rs1] assms(2) fits_decode [OF d]
    by (auto intro!: py_keeps_then keeps_trap keeps_set_reg fits_2 split: option.split)
  from py_keepsD [OF this 1] show ?thesis
    by (simp add: dispatch_def d py_then_def py_bind_def py_modify_def s1_def on_cpu_def py_zoom_def)
qed

lemma execute_32_inv:
  assumes "sys_inv r md s" "r \<Longrightarrow> fits 32 inst" "rvc_enabled (cpu s) \<Longrightarrow> inst AND 0x3 = 0x3"
  shows "sys_inv r md (snd (execute_32 ecall inst s))"
proof (cases "decode_cache (cpu s) (drop_bit 2 inst)")
  case None
  then show ?thesis
    using assms sys_invD(1) [OF assms(1)]
    by (simp add: execute_32_def Let_def dispatch_inv sys_inv_cpu cpu_inv_cache)
next
  case (Some d)
  then show ?thesis
    using assms cached [OF sys_invD(1) [OF assms(1)] Some] by (auto simp: execute_32_def dispatch_inv)
qed

lemma execute_16_inv:
  assumes "sys_inv r md s" "fits 16 inst" "rvc_enabled (cpu s)"
  shows "sys_inv r md (snd (execute_16 ecall inst s))"
proof (cases "decode_cache_compressed (cpu s) inst")
  case None
  have "fits 32 inst" using assms(2) by (rule fits_mono) simp
  then have "sys_inv r md (snd (on_cpu (trap 2 inst True) s))"
    using py_keepsD [OF keeps_trap assms(1)] fits_2 by blast
  moreover have "sys_inv r md (snd (dispatch ecall e 2 (decode_fields e)
      (s\<lparr>cpu := (cpu s)\<lparr>decode_cache_compressed := (decode_cache_compressed (cpu s))(inst \<mapsto> (decode_fields e, e))\<rparr>\<rparr>)))"
    if "expand_compressed inst = (e, True)" for e
    using that assms expand_fits [OF that] sys_invD(1) [OF assms(1)]
    by (intro dispatch_inv sys_inv_cpu cpu_inv_cache) auto
  ultimately show ?thesis
    using None by (auto simp: execute_16_def Let_def simp del: on_cpu_simps split: prod.split)
next
  case (Some de)
  then show ?thesis
    using assms cached_compressed [OF sys_invD(1) [OF assms(1)], of inst] expand_fits
    by (cases de) (auto simp: execute_16_def intro!: dispatch_inv)
qed

lemma execute_inv:
  assumes "sys_inv r md s" "r \<Longrightarrow> fits 32 inst"
  shows "sys_inv r md (snd (execute ecall inst s))"
  using execute_32_inv [OF assms] execute_16_inv [OF assms(1) fits_mask(3)] by (auto simp: execute_def)

end

interpretation no_ecall: ecall_contract r md None for r md
  by unfold_locales simp

section \<open>Construction and the timer\<close>

lemma initial_csrs_fits: "fits 32 (initial_csrs rvc a)"
  by (simp add: initial_csrs_def fits_def)

lemma initial_mstatus: "initial_csrs rvc 0x300 = 0x1800"
  by (simp add: initial_csrs_def)

lemma init_registers_ok:
  assumes "init_registers rnd mode regs = Inr regs'" "\<And>i. fits 32 (regs i)"
  shows "regs' 0 = 0 \<and> fits 32 (regs' i)"
proof -
  have "fits 32 (uint (w :: 32 word))" for w by (rule fits_uint)
  then show ?thesis
    using assms by (auto simp: init_registers_def Let_def fits_zero fits_masks32 split: if_splits option.splits)
qed

lemma timer_update_inv:
  assumes "cpu_inv r md c" "r \<Longrightarrow> mtime c < 2 ^ 64 - 1"
  shows "cpu_inv r md (snd (timer_update c))"
proof -
  define c1 where "c1 = c\<lparr>mtime := mtime c + 1\<rparr>"
  define asserted where "asserted = (mtime c \<ge> mtimecmp c)"
  define c2 where "c2 = (if asserted \<noteq> mtip c1 then
                 (if asserted then set_csr 0x344 (csrs c1 0x344 OR push_bit 7 1) c1
                  else set_csr 0x344 (csrs c1 0x344 AND NOT (push_bit 7 1)) c1)
                 \<lparr>mtip := asserted\<rparr>
               else c1)"
  have 1: "cpu_inv r md c1"
    using assms cpu_invD(8) [OF assms(1)] unfolding c1_def
    by (intro cpu_inv_timer_fields) (auto simp: fits_def)
  have 2: "cpu_inv r md c2"
    using 1 cpu_invD(2) [OF 1] unfolding c2_def
    by (auto intro!: cpu_inv_timer_fields cpu_inv_set_csr fits_or fits_and_left fits_numeral)
  have "timer_update c =
     (if \<not> asserted then (Inr (), c2)
         else if csrs c2 0x300 AND push_bit 3 1 = 0 then (Inr (), c2)
         else if csrs c2 0x304 AND push_bit 7 1 \<noteq> 0 then trap 0x80000007 0 False c2
         else (Inr (), c2))"
    by (simp add: timer_update_def Let_def c2_def c1_def asserted_def)
  then show ?thesis
    using 2 cpu_inv_trap [OF 2, of "0x80000007" 0 False] by (simp add: fits_def)
qed

lemma CPU_init_fields:
  assumes "CPU_init rnd rvc init_regs log trace = Inr c"
  shows "pc c = 0 \<and> next_pc c = 0 \<and> csrs c = initial_csrs rvc \<and> mtime c = 0 \<and> mtimecmp c = 0xFFFFFFFFFFFFFFFF \<and>
    rvc_enabled c = rvc \<and> alignment_mask c = (if rvc then 1 else 3) \<and>
    decode_cache c = Map.empty \<and> decode_cache_compressed c = Map.empty"
  using assms unfolding CPU_init_def by (cases init_regs) (auto split: sum.splits if_splits)

lemma CPU_init_registers:
  assumes "CPU_init rnd rvc init_regs log trace = Inr c"
  shows "registers c 0 = 0 \<and> fits 32 (registers c i)"
proof -
  consider "registers c = (\<lambda>_. 0)" | mode where "init_registers rnd mode (\<lambda>_. 0) = Inr (registers c)"
    using assms unfolding CPU_init_def by (cases init_regs) (auto split: sum.splits if_splits)
  then show ?thesis by cases (simp_all add: fits_zero init_registers_ok)
qed

section \<open>Properties\<close>

text \<open>A freshly constructed CPU satisfies the invariant, whatever the initial register pattern
  (zero, a number, random): 32-bit registers with \<open>x0\<close> zero, 32-bit CSRs, \<open>mstatus\<close> in machine mode,
  aligned program counters and empty caches.\<close>

lemma cpu_init_invariant:
  assumes "CPU_init rnd rvc init_regs log trace = Inr c"
  shows "cpu_inv True rvc c \<and> registers c 0 = 0"
  using CPU_init_fields [OF assms] CPU_init_registers [OF assms]
  by (simp add: cpu_inv_def cpu_ranges_def aligned_def cache_inv_def initial_csrs_fits initial_mstatus mpp_set_def
    fits_zero fits_numeral)

lemma dispatch_x0:
  assumes "fst (dispatch ecall inst sz d s) = Inr ()"
  shows "registers (cpu (snd (dispatch ecall inst sz d s))) 0 = 0"
  using assms
  by (auto simp: dispatch_def py_then_def py_bind_def on_cpu_def py_zoom_def set_reg_def py_modify_def
    split: prod.splits sum.splits)

lemma execute_x0:
  assumes "registers (cpu s) 0 = 0" "fst (execute ecall inst s) = Inr ()"
  shows "registers (cpu (snd (execute ecall inst s))) 0 = 0"
proof -
  have t: "registers (snd (trap a b sync c)) 0 = registers c 0" for a b sync c
    by (simp add: trap_def trap_state_def set_csr_def Let_def)
  show ?thesis
    using assms
    by (auto simp: execute_def execute_32_def execute_16_def Let_def t dispatch_x0
        split: if_splits option.splits prod.splits)
qed

definition demo_sys :: "ram_class \<Rightarrow> bool \<Rightarrow> unit sys" where
  "demo_sys cls rvc =
     \<lparr>cpu = \<lparr>registers = (\<lambda>_. 0), pc = 0, next_pc = 0, csrs = initial_csrs rvc,
             mtime = 0, mtimecmp = 0xFFFFFFFFFFFFFFFF, mtime_lo_updated = False, mtime_hi_updated = False,
             mtimecmp_lo_updated = False, mtimecmp_hi_updated = False, mtime_countdown = None, mtip = False,
             reservation_valid = False, reservation_addr = 0, rvc_enabled = rvc,
             alignment_mask = (if rvc then 1 else 3), logger = False, trace_traps = False,
             decode_cache = Map.empty, decode_cache_compressed = Map.empty\<rparr>,
      ram = demo_ram cls, devices = [], mmio_ranges = [], runners = [], host = ()\<rparr>"

lemma demo_sys_inv: "sys_inv True rvc (demo_sys cls rvc)"
  by (simp add: sys_inv_def demo_sys_def cpu_inv_def cpu_ranges_def aligned_def cache_inv_def initial_csrs_fits
    initial_mstatus mpp_set_def fits_zero fits_numeral)

text \<open>C5. Executing any instruction keeps the system invariant, whether it returns or raises, provided the
  installed \<open>ecall\<close> handler does (there may be none); and \<open>x0\<close> still reads as zero after every
  instruction that completes.\<close>

theorem execute_invariant:
  assumes "\<And>h. ecall = Some h \<Longrightarrow> py_keeps (sys_inv r md) h"
    and "sys_inv r md s" and "r \<longrightarrow> fits 32 inst"
  shows "sys_inv r md (snd (execute ecall inst s)) \<and>
    (registers (cpu s) 0 = 0 \<and> fst (execute ecall inst s) = Inr () \<longrightarrow>
     registers (cpu (snd (execute ecall inst s))) 0 = 0)"
proof -
  have "ecall_contract r md ecall" using assms(1) by unfold_locales
  from ecall_contract.execute_inv [OF this assms(2)] assms(3)
  show ?thesis using execute_x0 by blast
qed

theorem execute_invariant_witness:
  "sys_inv True False (snd (execute None 0x00500013 (demo_sys SafeRAM False))) \<and>
   registers (cpu (snd (execute None 0x00500013 (demo_sys SafeRAM False)))) 0 = 0"
proof -
  have "fst (execute None 0x00500013 (demo_sys SafeRAM False)) = Inr ()" by code_simp
  moreover have "registers (cpu (demo_sys SafeRAM False)) 0 = 0" by (simp add: demo_sys_def)
  ultimately show ?thesis
    using execute_invariant [of None True False "demo_sys SafeRAM False" "0x00500013"] demo_sys_inv
    by (simp add: fits_def)
qed

end
