(* ===== verification/Cpu_Props.thy ===== *)
theory Cpu_Props
  imports Cpu_Inv
begin

text \<open>
  What the instruction handlers compute. Arithmetic, branches and jumps agree with word-level
  definitions written from the manual; trap entry and return are inverse; the timer raises its interrupt
  exactly when the manual says; the decode caches do not change what is executed.
\<close>

unbundle bit_operations_syntax

section \<open>Arithmetic\<close>

abbreviation w32 :: "int \<Rightarrow> 32 word" where "w32 \<equiv> word_of_int"

lemma reg_word: "fits 32 x \<Longrightarrow> x = uint (w32 x)"
  by (simp add: fits_iff_take_bit uint_word_of_int_eq)

lemma cpu_ranges_reg: "cpu_ranges c \<Longrightarrow> registers c i = uint (w32 (registers c i))"
  by (rule reg_word) (simp add: cpu_ranges_def)

text \<open>Register-register instructions compute what the manual says on 32-bit words, for the base set
  and for the M extension (signed and unsigned high products, division with its two special cases,
  remainders): \<open>rd\<close> gets the value of \<^const>\<open>rtype_spec\<close>, and every other encoding is an illegal
  instruction.\<close>

lemma exec_Rtype_refines:
  assumes "cpu_ranges c" "fits 3 f3"
  shows "exec_Rtype inst sz rd f3 rs1 rs2 f7 c =
    (case rtype_spec f3 f7 (word_of_int (registers c rs1)) (word_of_int (registers c rs2)) of
       Some v \<Rightarrow> (Inr (), c\<lparr>registers := (registers c)(rd := uint v)\<rparr>)
     | None \<Rightarrow> trap 2 inst True c)"
  using exec_Rtype_words [OF cpu_ranges_reg [OF assms(1)] cpu_ranges_reg [OF assms(1)], of f3] fits_3_range [OF assms(2)]
  by (simp add: set_reg_def py_modify_def split: option.split)

text \<open>Register-immediate instructions compute what the manual says on 32-bit words, with the
  sign-extended 12-bit immediate of the instruction.\<close>

lemma exec_Itype_refines:
  assumes "cpu_ranges c" "fits 32 inst" "fits 3 f3"
  shows "exec_Itype inst sz rd f3 rs1 rs2 f7 c =
    (case itype_spec f3 f7 (word_of_int (registers c rs1)) (word_of_int (signed_take_bit 11 (drop_bit 20 inst))) of
       Some v \<Rightarrow> (Inr (), c\<lparr>registers := (registers c)(rd := uint v)\<rparr>)
     | None \<Rightarrow> trap 2 inst True c)"
  using exec_Itype_words [OF cpu_ranges_reg [OF assms(1)] assms(2), of f3] fits_3_range [OF assms(3)] imm_i_signed [OF assms(2)]
  by (simp add: set_reg_def py_modify_def split: option.split)

text \<open>C40. Division through Python's floating-point \<open>/\<close> loses nothing on 32-bit operands: the nearest
  binary64 to the quotient truncates to the exact quotient, rounded towards zero.\<close>

theorem truediv_exact:
  assumes "\<bar>a\<bar> \<le> 2 ^ 32" "b \<noteq> 0" "\<bar>b\<bar> \<le> 2 ^ 32"
  shows "py_int_truediv a b = a sdiv b"
  using assms by (rule py_int_truediv_sdiv)

theorem truediv_exact_witness: "py_int_truediv (- (2 ^ 31)) 3 = - 715827882"
  using truediv_exact [of "- (2 ^ 31)" 3] by (simp add: signed_divide_int_def)

section \<open>Control transfer\<close>

definition branch_spec :: "int \<Rightarrow> 32 word \<Rightarrow> 32 word \<Rightarrow> bool option" where
  "branch_spec f3 a b =
     (if f3 = 0 then Some (a = b) else if f3 = 1 then Some (a \<noteq> b)
      else if f3 = 4 then Some (a <s b) else if f3 = 5 then Some (b \<le>s a)
      else if f3 = 6 then Some (a < b) else if f3 = 7 then Some (b \<le> a) else None)"

definition jump_spec :: "32 word \<Rightarrow> cpu \<Rightarrow> (exn + unit) \<times> cpu" where
  "jump_spec target c =
     (if uint target AND alignment_mask c \<noteq> 0 then trap 0 (uint target) True c
      else (Inr (), c\<lparr>next_pc := uint target\<rparr>))"

lemma branch_taken_words:
  assumes "fits 3 f3"
  shows "(case branch_spec f3 a b of Some t \<Rightarrow> branch_taken f3 (uint a) (uint b) = t
          | None \<Rightarrow> \<not> branch_taken f3 (uint a) (uint b) \<and> (f3 = 2 \<or> f3 = 3))"
proof -
  have cmp: "uint a = uint b \<longleftrightarrow> a = b" "sint b \<le> sint a \<longleftrightarrow> b \<le>s a" "uint b \<le> uint a \<longleftrightarrow> b \<le> a"
    by (simp_all only: word_sle_eq word_le_def word_uint_eq_iff)
  show ?thesis
    using f3_cases [OF fits_3_range [OF assms, THEN conjunct1] fits_3_range [OF assms, THEN conjunct2]]
    by (elim disjE) (simp_all add: branch_spec_def branch_taken_def signed32_uint uint_less cmp)
qed

lemma target_word: "(pc c + i) AND 0xFFFFFFFF = uint (w32 (pc c) + w32 i)"
  by (simp only: wi_hom_add uint_word_of_int_and)

text \<open>A conditional branch compares the two registers as the manual says (equality, signed and
  unsigned order); when taken it goes to \<open>pc\<close> plus the immediate modulo \<open>2^32\<close>, or raises a misaligned
  fetch exception with that address; when not taken it changes nothing; the two unassigned conditions
  are illegal.\<close>

lemma exec_branches_refines:
  assumes "cpu_ranges c" "fits 3 f3"
  shows "exec_branches inst sz rd f3 rs1 rs2 f7 c =
    (case branch_spec f3 (word_of_int (registers c rs1)) (word_of_int (registers c rs2)) of
       Some True \<Rightarrow> jump_spec (word_of_int (pc c) + word_of_int (imm_b inst)) c
     | Some False \<Rightarrow> (Inr (), c)
     | None \<Rightarrow> trap 2 inst True c)"
proof -
  note r = cpu_ranges_reg [OF assms(1)]
  show ?thesis
    using branch_taken_words [OF assms(2), of "w32 (registers c rs1)" "w32 (registers c rs2)"]
      r [of rs1, symmetric] r [of rs2, symmetric]
    by (auto simp: exec_branches_def jump_spec_def Let_def target_word set_next_pc_def py_modify_def branch_spec_def
        split: option.splits if_splits bool.splits)
qed

definition jump_and_link :: "int \<Rightarrow> int \<Rightarrow> 32 word \<Rightarrow> (cpu, unit) py" where
  "jump_and_link rd inst_size target c =
     (if uint target AND alignment_mask c \<noteq> 0 then trap 0 (uint target) True c
      else (Inr (), c\<lparr>registers := if rd = 0 then registers c
                                 else (registers c)(rd := uint (word_of_int (pc c + inst_size) :: 32 word)),
                     next_pc := uint target\<rparr>))"

text \<open>The jumps: \<open>JAL\<close> goes to \<open>pc\<close> plus its immediate, \<open>JALR\<close> to \<open>rs1\<close> plus its immediate with bit 0
  cleared (the register is read before the link is written, so \<open>rd = rs1\<close> is safe); \<open>rd\<close>, unless it is
  \<open>x0\<close>, gets the address of the next instruction, 2 or 4 bytes on; a misaligned target raises and links
  nothing.\<close>

lemma jumps_correct:
  "exec_JAL inst inst_size rd f3 rs1 rs2 f7 c =
     jump_and_link rd inst_size (word_of_int (pc c) + word_of_int (imm_j inst)) c \<and>
   exec_JALR inst inst_size rd 0 rs1 rs2 f7 c =
     jump_and_link rd inst_size ((word_of_int (registers c rs1) + word_of_int (imm_i inst)) AND NOT 1) c"
proof -
  have even: "z AND 0xFFFFFFFE = uint (w32 z AND NOT 1)" for z :: int
  proof -
    have "uint (NOT 1 :: 32 word) = 0xFFFFFFFE" by simp
    then have "uint (w32 z AND NOT 1) = (z AND 0xFFFFFFFF) AND 0xFFFFFFFE"
      by (simp only: uint_and uint_word_of_int_and)
    also have "\<dots> = z AND 0xFFFFFFFE" by (simp add: and.assoc)
    finally show ?thesis by simp
  qed
  show ?thesis
    unfolding exec_JAL_def exec_JALR_def jump_and_link_def Let_def target_word even wi_hom_add
    by (simp add: py_then_def py_bind_def py_return_def set_reg_def set_next_pc_def py_modify_def uint_word_of_int_and)
qed

text \<open>C14. Trap entry and \<open>MRET\<close> are inverse: a trap saves the return address, cause and value, masks
  interrupts and goes to the vector; an \<open>MRET\<close> from that state returns to the saved address with the
  interrupt enable restored and every other bit of \<open>mstatus\<close> but \<open>MPIE\<close> as before the trap.\<close>

theorem trap_mret_roundtrip:
  assumes "csrs c 0x305 \<noteq> 0" "cpu_inv r md c"
  shows "let ret = if sync then pc c else next_pc c in \<exists>c1 c2. trap cause mtval sync c = (Inr (), c1) \<and> exec_MRET c1 = (Inr (), c2) \<and>
     next_pc c1 = csrs c 0x305 AND NOT 0x3 \<and> csrs c1 0x341 = ret \<and> csrs c1 0x342 = cause \<and> csrs c1 0x343 = mtval \<and>
     \<not> bit (csrs c1 0x300) 3 \<and> bit (csrs c1 0x300) 7 = bit (csrs c 0x300) 3 \<and>
     next_pc c2 = ret \<and> bit (csrs c2 0x300) 7 \<and>
     (\<forall>n. n \<noteq> 7 \<longrightarrow> bit (csrs c2 0x300) n = bit (csrs c 0x300) n) \<and> registers c2 = registers c"
proof -
  define ret where "ret = (if sync then pc c else next_pc c)"
  have al: "ret AND alignment_mask c = 0"
    using assms(2) by (auto simp: ret_def cpu_inv_def aligned_def)
  define c1 where "c1 = trap_state cause mtval sync c"
  have 1: "trap cause mtval sync c = (Inr (), c1)" using assms(1) by (simp add: trap_def c1_def)
  have f: "csrs c1 0x341 = ret" "csrs c1 0x342 = cause" "csrs c1 0x343 = mtval"
    "csrs c1 0x300 = trap_mstatus (csrs c 0x300)" "next_pc c1 = csrs c 0x305 AND NOT 0x3"
    "alignment_mask c1 = alignment_mask c" "registers c1 = registers c"
    by (simp_all add: c1_def trap_state_def Let_def ret_def set_csr_def)
  define c2 where "c2 = set_csr 0x300 (mret_mstatus (trap_mstatus (csrs c 0x300))) (c1\<lparr>next_pc := ret\<rparr>)"
  have 2: "exec_MRET c1 = (Inr (), c2)"
    using al by (simp add: exec_MRET_def f c2_def Let_def)
  have "next_pc c2 = ret" "csrs c2 0x300 = mret_mstatus (trap_mstatus (csrs c 0x300))" "registers c2 = registers c"
    by (simp_all add: c2_def set_csr_def f)
  with 1 2 f show ?thesis
    unfolding Let_def ret_def [symmetric]
    by (intro exI [of _ c1] exI [of _ c2]) (simp add: bit_trap_mstatus bit_mret_mstatus)
qed

theorem trap_mret_roundtrip_witness:
  "\<exists>c1 c2. trap 11 0 True ((cpu (demo_sys RAM False))\<lparr>pc := 0x40, csrs := (initial_csrs False)(0x305 := 0x80, 0x300 := 0x1808)\<rparr>) = (Inr (), c1) \<and>
     exec_MRET c1 = (Inr (), c2) \<and> next_pc c1 = 0x80 \<and> next_pc c2 = 0x40 \<and> bit (csrs c2 0x300) 3"
proof -
  let ?c = "(cpu (demo_sys RAM False))\<lparr>pc := 0x40, csrs := (initial_csrs False)(0x305 := 0x80, 0x300 := 0x1808)\<rparr>"
  have "cpu_inv False False ?c"
    by (simp add: cpu_inv_def aligned_def cache_inv_def mpp_set_def demo_sys_def)
  then show ?thesis
    using trap_mret_roundtrip [of ?c False False True 11 0] by auto
qed



text \<open>A pending timer interrupt can be invisible in \<open>mip\<close>: writing \<open>mtimecmp\<close> through its two CSRs sets
  the cached level directly, so the next \<open>timer_update\<close> sees no change of level and leaves \<open>mip.MTIP\<close> clear
  although \<open>mtime >= mtimecmp\<close>.\<close>

lemma mtimecmp_csr_stale_mtip:
  "\<exists>c c'. csrrw_write 0x7C3 0 (csrrw_write 0x7C2 0 (cpu (demo_sys RAM False))) = c \<and>
     timer_update c = (Inr (), c') \<and> mtime c \<ge> mtimecmp c \<and> mtip c' \<and> \<not> bit (csrs c' 0x344) 7"
  by (simp add: csrrw_write_def CSR_NOWRITE_def set_csr_def demo_sys_def timer_update_def initial_csrs_def)

section \<open>The decode caches\<close>

lemma word_by_parts:
  assumes "drop_bit 2 x = drop_bit 2 y" "x AND 0x3 = y AND 0x3"
  shows "x = (y :: int)"
proof -
  have "take_bit 2 x = take_bit 2 y" using assms(2) by (simp add: bits)
  then show ?thesis using assms(1) bits_ident [of 2 x] bits_ident [of 2 y] by metis
qed

lemma cached_decode:
  assumes "cpu_inv r md c" "inst AND 0x3 = 0x3" "rvc_enabled c" "decode_cache c (drop_bit 2 inst) = Some d"
  shows "d = decode_fields inst"
proof -
  obtain i where "drop_bit 2 inst = drop_bit 2 i" "i AND 0x3 = 0x3" "d = decode_fields i"
    using cached [OF assms(1,4)] assms(3) by blast
  then show ?thesis using word_by_parts [of inst i] assms(2) by simp
qed

lemma execute_fresh:
  assumes "sys_inv r md s" "rvc_enabled (cpu s)"
  shows "execute ecall inst s =
    (if inst AND 0x3 = 0x3 then
       dispatch ecall inst 4 (decode_fields inst)
         (s\<lparr>cpu := (cpu s)\<lparr>decode_cache := (decode_cache (cpu s))(drop_bit 2 inst \<mapsto> decode_fields inst)\<rparr>\<rparr>)
     else case rvc_table (inst AND 0xFFFF) of
       None \<Rightarrow> on_cpu (trap 2 (inst AND 0xFFFF) True) s
     | Some i \<Rightarrow> dispatch ecall (encode32 i) 2 (decode_fields (encode32 i))
         (s\<lparr>cpu := (cpu s)\<lparr>decode_cache_compressed := (decode_cache_compressed (cpu s))
             (inst AND 0xFFFF \<mapsto> (decode_fields (encode32 i), encode32 i))\<rparr>\<rparr>))"
proof (cases "inst AND 0x3 = 0x3")
  case True
  then show ?thesis
    using cached_decode [OF sys_invD(1) [OF assms(1)] True assms(2)]
    by (cases "decode_cache (cpu s) (drop_bit 2 inst)") (auto simp: execute_def execute_32_def Let_def fun_upd_idem)
next
  case False
  let ?h = "inst AND 0xFFFF"
  show ?thesis
  proof (cases "decode_cache_compressed (cpu s) ?h")
    case None
    then show ?thesis using False assms(2)
      by (cases "rvc_table ?h") (simp_all add: execute_def execute_16_def Let_def expand_compressed_encode rvc_illegal_def)
  next
    case (Some de)
    obtain d e where de: "de = (d, e)" by (cases de)
    have x: "expand_compressed ?h = (e, True)" "d = decode_fields e"
      using cached_compressed [OF sys_invD(1) [OF assms(1)], of ?h d e] Some de by simp_all
    then obtain i where i: "rvc_table ?h = Some i" "e = encode32 i"
      by (cases "rvc_table ?h") (auto simp: expand_compressed_encode rvc_illegal_def)
    then show ?thesis using False assms(2) Some de x
      by (simp add: execute_def execute_16_def fun_upd_idem)
  qed
qed

text \<open>C12. With the C extension on, the decode caches are transparent: in every state that satisfies the
  invariant, executing an instruction is dispatching on its fresh decoding, and on the expansion that
  the expansion table gives for a compressed one, whatever was cached before.\<close>

theorem execute_cache_transparent:
  assumes "sys_inv r md s" "rvc_enabled (cpu s)"
  shows "execute ecall inst s =
    (if inst AND 0x3 = 0x3 then
       dispatch ecall inst 4 (decode_fields inst)
         (s\<lparr>cpu := (cpu s)\<lparr>decode_cache := (decode_cache (cpu s))(drop_bit 2 inst \<mapsto> decode_fields inst)\<rparr>\<rparr>)
     else case rvc_table (inst AND 0xFFFF) of
       None \<Rightarrow> on_cpu (trap 2 (inst AND 0xFFFF) True) s
     | Some i \<Rightarrow> dispatch ecall (encode32 i) 2 (decode_fields (encode32 i))
         (s\<lparr>cpu := (cpu s)\<lparr>decode_cache_compressed := (decode_cache_compressed (cpu s))
             (inst AND 0xFFFF \<mapsto> (decode_fields (encode32 i), encode32 i))\<rparr>\<rparr>))"
  using assms by (rule execute_fresh)

theorem execute_cache_transparent_witness:
  "\<exists>s. sys_inv True True s \<and> rvc_enabled (cpu s) \<and> decode_cache (cpu s) 0x40144 = Some (decode_fields 0x00100513) \<and>
     execute (None :: (unit sys, unit) py option) 0x00100513 s = dispatch None 0x00100513 4 (decode_fields 0x00100513) s"
proof -
  let ?s = "snd (execute None 0x00100513 (demo_sys RAM True))"
  have inv: "sys_inv True True ?s" by (intro no_ecall.execute_inv demo_sys_inv) (simp add: fits_def)
  have en: "rvc_enabled (cpu ?s)" by code_simp
  have c: "decode_cache (cpu ?s) 0x40144 = Some (decode_fields 0x00100513)" by code_simp
  have "execute None 0x00100513 ?s = dispatch None 0x00100513 4 (decode_fields 0x00100513) ?s"
    using execute_cache_transparent [OF inv en, of None "0x00100513"] c by (simp add: fun_upd_idem)
  with inv en c show ?thesis by blast
qed

end
