(* ===== verification/Mem_Props.thy ===== *)
theory Mem_Props
  imports Mem_Access Cpu_Props
begin

text \<open>
  Properties of the instructions that access memory: loads after stores, and the reservation of \<open>LR.W\<close>
  and \<open>SC.W\<close>.
\<close>

unbundle bit_operations_syntax

section \<open>Loads and stores\<close>

text \<open>The value a load of width and signedness \<open>funct3\<close> gives for a stored word.\<close>

definition load_spec :: "int \<Rightarrow> 32 word \<Rightarrow> 32 word" where
  "load_spec funct3 w =
     (if funct3 = 0 then scast (ucast w :: 8 word)
      else if funct3 = 1 then scast (ucast w :: 16 word)
      else if funct3 = 2 then w
      else if funct3 = 4 then ucast (ucast w :: 8 word)
      else ucast (ucast w :: 16 word))"

definition access_bytes :: "int \<Rightarrow> nat" where
  "access_bytes funct3 = (if funct3 AND 3 = 0 then 1 else if funct3 AND 3 = 1 then 2 else 4)"

lemma sign8_sint: "sign8 True (uint b) = sint b" for b :: "8 word"
proof -
  have "fits (Suc 7) (uint b)" using uint_lt2p [of b] by (simp add: fits_def)
  then have "signed_take_bit 7 (uint b) = (if bit (uint b) 7 then uint b - 2 ^ 8 else uint b)"
    by (simp add: signed_take_bit_sub)
  moreover have "bit (uint b) 7 \<longleftrightarrow> 0x80 \<le> uint b"
    using uint_lt2p [of b] bit_top_iff [of "uint b" 7] by simp
  ultimately show ?thesis by (simp add: sign8_def sint_uint)
qed

lemma sign16_sint: "sign16 True (uint h) = sint h" for h :: "16 word"
proof -
  have "fits (Suc 15) (uint h)" using uint_lt2p [of h] by (simp add: fits_def)
  then have "signed_take_bit 15 (uint h) = (if bit (uint h) 15 then uint h - 2 ^ 16 else uint h)"
    by (simp add: signed_take_bit_sub)
  moreover have "bit (uint h) 15 \<longleftrightarrow> 0x8000 \<le> uint h"
    using uint_lt2p [of h] bit_top_iff [of "uint h" 15] by simp
  ultimately show ?thesis by (simp add: sign16_def sint_uint)
qed

lemma signed_value: "sint b AND 0xFFFFFFFF = uint (scast b :: 32 word)" for b :: "'a::len word"
proof -
  have "(scast b :: 32 word) = word_of_int (sint b)" by (rule bit_word_eqI) (simp add: bit_simps)
  then show ?thesis by (simp only: uint_word_of_int_eq) (simp add: bits)
qed

lemma le16_uint: "le16 b0 b1 = uint (word_of_int (le16 b0 b1) :: 16 word)"
  by (simp add: uint_word_of_int_eq le16_take_bit)

lemma ucast_w32: "(ucast (w32 v) :: 8 word) = word_of_int v" "(ucast (w32 v) :: 16 word) = word_of_int v"
  by (rule bit_word_eqI, simp add: bit_simps)+

lemma zero_value:
  "uint (ucast (word_of_int v :: 8 word) :: 32 word) = take_bit 8 v"
  "uint (ucast (word_of_int v :: 16 word) :: 32 word) = take_bit 16 v"
  by (rule bit_eqI, auto simp: bit_simps)+

lemma plain_word_cpu [simp]: "plain_word (s\<lparr>cpu := c\<rparr>) a = plain_word s a" "checked (s\<lparr>cpu := c\<rparr>) = checked s"
  by (simp_all add: plain_word_def checked_def mmio_hit_def)

lemma sput_cpu: "(sput s a bs)\<lparr>cpu := c\<rparr> = sput (s\<lparr>cpu := c\<rparr>) a bs"
  by (simp add: sput_def)

definition store_bytes :: "int \<Rightarrow> int \<Rightarrow> 8 word list" where
  "store_bytes funct3 v = (if funct3 = 0 then [byte v] else if funct3 = 1 then half_bytes v else word_bytes v)"

lemma byte_masked [simp]: "byte (v AND 0xFF) = byte v" "half_bytes (v AND 0xFFFF) = half_bytes v"
  unfolding bits half_bytes_def by (auto intro!: bit_word_eqI simp: bit_simps)

lemma exec_stores_plain:
  assumes "funct3 \<in> {0, 1, 2}" "a = (registers (cpu s) rs1 + imm_s i) AND 0xFFFFFFFF"
    "plain_word s a" "safe_valid (ram s) a (access_bytes funct3)"
  shows "exec_stores i sz rd funct3 rs1 rs2 f7 s =
    (Inr (), sput (s\<lparr>cpu := (cpu s)\<lparr>reservation_valid := False\<rparr>\<rparr>) a (store_bytes funct3 (registers (cpu s) rs2)))"
proof -
  have "checked s" using assms(3) by (simp add: plain_word_def)
  then show ?thesis
    using assms
    by (auto simp: exec_stores_def access_bytes_def store_bytes_def store_byte_plain store_half_plain store_word_plain
        clear_reservation_def on_cpu_def py_zoom_def py_modify_def py_then_def py_bind_def sput_cpu Let_def)
qed

lemma exec_loads_plain:
  assumes "funct3 \<in> {0, 1, 2, 4, 5}" "a = (registers (cpu s) rs1 + imm_i j) AND 0xFFFFFFFF"
    "plain_word s a" "safe_valid (ram s) a (access_bytes funct3)"
    "\<And>k. k < access_bytes funct3 \<Longrightarrow> sbyte s (a + int k) = store_bytes (funct3 AND 3) v ! k"
  shows "exec_loads j sz rd funct3 rs1 rs2 f7 s =
    (Inr (), s\<lparr>cpu := (cpu s)\<lparr>registers := (registers (cpu s))(rd := uint (load_spec funct3 (w32 v)))\<rparr>\<rparr>)"
proof -
  have c: "checked s" using assms(3) by (simp add: plain_word_def)
  have b: "sbyte s a = store_bytes (funct3 AND 3) v ! 0" using assms(5) [of 0] by (simp add: access_bytes_def)
  have h: "le16 (sbyte s a) (sbyte s (a + 1)) = take_bit 16 v" if "funct3 AND 3 = 1"
    using assms(5) [of 0] assms(5) [of 1] that by (simp add: access_bytes_def store_bytes_def half_bytes_def le16_bytes)
  have w: "le32 (sbyte s a) (sbyte s (a + 1)) (sbyte s (a + 2)) (sbyte s (a + 3)) = take_bit 32 v" if "funct3 AND 3 = 2"
    using assms(5) [of 0] assms(5) [of 1] assms(5) [of 2] assms(5) [of 3] that
    by (simp add: access_bytes_def store_bytes_def word_bytes_def le32_bytes)
  have sg: "sign16 True (take_bit 16 v) = sint (word_of_int v :: 16 word)" for v
    using sign16_sint [of "word_of_int v"] by (simp add: uint_word_of_int_eq)
  consider "funct3 = 0" | "funct3 = 1" | "funct3 = 2" | "funct3 = 4" | "funct3 = 5" using assms(1) by auto
  then show ?thesis
  proof cases
    case 1
    then show ?thesis
      using load_byte_plain [OF c, of a True] assms(2,4) b signed_value [of "byte v"]
      by (simp add: exec_loads_def access_bytes_def store_bytes_def load_spec_def ucast_w32 sign8_sint py_bind_def on_cpu_def
          py_zoom_def set_reg_def py_modify_def Let_def)
  next
    case 2
    then show ?thesis
      using load_half_plain [OF c, of a True] assms(2,4) h signed_value [of "word_of_int v :: 16 word"]
      by (simp add: exec_loads_def access_bytes_def load_spec_def ucast_w32 sg py_bind_def on_cpu_def
          py_zoom_def set_reg_def py_modify_def Let_def)
  next
    case 3
    then show ?thesis
      using load_word_plain [OF assms(3)] assms(2,4) w
      by (simp add: exec_loads_def access_bytes_def load_spec_def py_bind_def on_cpu_def
          py_zoom_def set_reg_def py_modify_def Let_def bits uint_word_of_int_eq)
  next
    case 4
    then show ?thesis
      using load_byte_plain [OF c, of a False] assms(2,4) b
      by (simp add: exec_loads_def access_bytes_def store_bytes_def load_spec_def ucast_w32 sign8_def py_bind_def on_cpu_def
          py_zoom_def set_reg_def py_modify_def Let_def bits uint_word_of_int_eq zero_value)
  next
    case 5
    then show ?thesis
      using load_half_plain [OF c, of a False] assms(2,4) h
      by (simp add: exec_loads_def access_bytes_def load_spec_def ucast_w32 sign16_def py_bind_def on_cpu_def
          py_zoom_def set_reg_def py_modify_def Let_def bits uint_word_of_int_eq zero_value)
  qed
qed

text \<open>C15. In checked memory, at an address inside it that is no register of a peripheral, a load from the address of a store gives, in every width and signedness, the sign- or zero-extension of the
  stored register as the specification of the instruction has it, changes no other register, and the
  store changed no other byte of memory.\<close>

theorem store_load:
  fixes s :: "'h sys"
  assumes "funct3 \<in> {0, 1, 2, 4, 5}" "a = (registers (cpu s) rs1 + imm_s i) AND 0xFFFFFFFF"
    "a = (registers (cpu s) rs1' + imm_i j) AND 0xFFFFFFFF"
    "plain_word s a" "safe_valid (ram s) a (access_bytes funct3)"
  shows "\<exists>t u. exec_stores i sz rd (funct3 AND 3) rs1 rs2 f7 s = (Inr (), t) \<and>
    exec_loads j sz' rd' funct3 rs1' rs2' f7' t = (Inr (), u) \<and>
    registers (cpu u) rd' = uint (load_spec funct3 (w32 (registers (cpu s) rs2))) \<and>
    (\<forall>r. r \<noteq> rd' \<longrightarrow> registers (cpu u) r = registers (cpu s) r) \<and>
    (\<forall>x. safe_valid (ram s) x 1 \<and> \<not> (a \<le> x \<and> x < a + int (access_bytes funct3)) \<longrightarrow> sbyte u x = sbyte s x)"
proof -
  let ?k = "funct3 AND 3" and ?v = "registers (cpu s) rs2"
  let ?t = "sput (s\<lparr>cpu := (cpu s)\<lparr>reservation_valid := False\<rparr>\<rparr>) a (store_bytes ?k ?v)"
  have k: "?k \<in> {0, 1, 2}" "access_bytes ?k = access_bytes funct3" "length (store_bytes ?k ?v) = access_bytes funct3"
    using assms(1) by (auto simp: access_bytes_def store_bytes_def)
  have c: "checked s" using assms(4) by (simp add: plain_word_def)
  have st: "exec_stores i sz rd ?k rs1 rs2 f7 s = (Inr (), ?t)"
    using exec_stores_plain [OF k(1) assms(2,4)] assms(5) k(2) by simp
  have sb: "sbyte ?t x = (if a \<le> x \<and> x < a + int (access_bytes funct3) then store_bytes ?k ?v ! nat (x - a) else sbyte s x)"
    if "safe_valid (ram s) x 1" for x
    using sbyte_sput [of "s\<lparr>cpu := (cpu s)\<lparr>reservation_valid := False\<rparr>\<rparr>" a "store_bytes ?k ?v" x] c assms(5) that k(3) by simp
  have pt: "plain_word ?t a"
    using plain_word_sput [of "s\<lparr>cpu := (cpu s)\<lparr>reservation_valid := False\<rparr>\<rparr>" a a "store_bytes ?k ?v"] assms(4,5) k(3)
    by simp
  have "sbyte ?t (a + int m) = store_bytes ?k ?v ! m" if "m < access_bytes funct3" for m
    using sb [of "a + int m"] assms(5) that by (simp add: safe_valid_def)
  then have "exec_loads j sz' rd' funct3 rs1' rs2' f7' ?t =
      (Inr (), ?t\<lparr>cpu := (cpu ?t)\<lparr>registers := (registers (cpu ?t))(rd' := uint (load_spec funct3 (w32 ?v)))\<rparr>\<rparr>)"
    using exec_loads_plain [OF assms(1) _ pt, of rs1' j ?v] assms(3,5) by simp
  then show ?thesis using st sb by force
qed

theorem store_load_witness:
  "\<exists>t u. exec_stores 0 4 0 0 0 10 0 ((demo_sys SafeRAM True)\<lparr>cpu := (cpu (demo_sys SafeRAM True))\<lparr>registers := (\<lambda>_. 0)(10 := 0x80)\<rparr>\<rparr>) =
       (Inr (), t) \<and>
     exec_loads 0 4 11 0 0 0 0 t = (Inr (), u) \<and> registers (cpu u) 11 = uint (load_spec 0 (w32 0x80))"
proof -
  let ?s = "(demo_sys SafeRAM True)\<lparr>cpu := (cpu (demo_sys SafeRAM True))\<lparr>registers := (\<lambda>_. 0)(10 := 0x80)\<rparr>\<rparr>"
  have "plain_word ?s 0" "safe_valid (ram ?s) 0 (access_bytes 0)"
    by (simp_all add: plain_word_def checked_def demo_sys_def demo_ram_wf safe_valid_def access_bytes_def)
      (simp_all add: demo_ram_def)
  then show ?thesis
    using store_load [of 0 0 ?s 0 0 0 0 4 0 10 0 4 11 0 0] by (force simp: imm_s_def imm_i_def)
qed

section \<open>Load-reserved and store-conditional\<close>

text \<open>An instruction word with the given \<open>funct5\<close>.\<close>

definition amo_word :: "int \<Rightarrow> int" where
  "amo_word funct5 = push_bit 27 funct5"

lemma amo_funct5 [simp]: "drop_bit 27 (amo_word 2) AND 0x1F = 2" "drop_bit 27 (amo_word 3) AND 0x1F = 3"
  by (simp_all add: amo_word_def)

text \<open>\<open>LR.W rd, (rs1)\<close> and \<open>SC.W rd, rs2, (rs1)\<close>\<close>

abbreviation LR_W :: "int \<Rightarrow> int \<Rightarrow> ('h sys, unit) py" where
  "LR_W rd rs1 \<equiv> exec_AMO (amo_word 2) 4 rd 2 rs1 0 (push_bit 2 2)"

abbreviation SC_W :: "int \<Rightarrow> int \<Rightarrow> int \<Rightarrow> ('h sys, unit) py" where
  "SC_W rd rs1 rs2 \<equiv> exec_AMO (amo_word 3) 4 rd 2 rs1 rs2 (push_bit 2 3)"

text \<open>A word address that \<open>LR.W\<close> and \<open>SC.W\<close> can access through \<open>rs1\<close>.\<close>

definition amo_addr :: "'h sys \<Rightarrow> int \<Rightarrow> int \<Rightarrow> bool" where
  "amo_addr s rs1 a \<longleftrightarrow> registers (cpu s) rs1 AND 0xFFFFFFFF = a \<and> a AND 3 = 0 \<and> plain_word s a \<and> safe_valid (ram s) a 4"

lemma LR_W_plain:
  assumes "amo_addr s rs1 a"
  shows "LR_W rd rs1 s =
    (Inr (), s\<lparr>cpu := (cpu s)\<lparr>registers := (registers (cpu s))(rd := le32 (sbyte s a) (sbyte s (a + 1)) (sbyte s (a + 2)) (sbyte s (a + 3))),
       reservation_valid := True, reservation_addr := a\<rparr>\<rparr>)"
  using assms load_word_plain [of s a]
  by (simp add: amo_addr_def exec_AMO_def py_bind_def on_cpu_def py_zoom_def py_modify_def Let_def)

lemma word_bytes_masked: "word_bytes (v AND 0xFFFFFFFF) = word_bytes v"
  by (simp add: bits)

lemma SC_W_plain:
  assumes "amo_addr s rs1 a"
  shows "SC_W rd rs1 rs2 s =
    (if reservation_valid (cpu s) \<and> reservation_addr (cpu s) = a
     then (Inr (), (sput s a (word_bytes (registers (cpu s) rs2)))\<lparr>cpu := (cpu s)\<lparr>registers := (registers (cpu s))(rd := 0), reservation_valid := False\<rparr>\<rparr>)
     else (Inr (), s\<lparr>cpu := (cpu s)\<lparr>registers := (registers (cpu s))(rd := 1)\<rparr>\<rparr>))"
  using assms store_word_plain [of s a "registers (cpu s) rs2 AND 0xFFFFFFFF"]
  by (simp add: amo_addr_def exec_AMO_def py_bind_def py_then_def on_cpu_def py_zoom_def py_modify_def set_reg_def
    clear_reservation_def word_bytes_masked Let_def)

text \<open>A failing \<open>SC.W\<close> keeps the reservation, which the manual invalidates: after \<open>SC.W\<close> to another address, \<open>SC.W\<close> to the
  reserved one still stores.\<close>

lemma sc_failure_keeps_reservation:
  assumes "amo_addr s rs1 a" "amo_addr s q1 b" "a \<noteq> b" "reservation_valid (cpu s)" "reservation_addr (cpu s) = a"
    "rd \<noteq> rs1" "rd \<noteq> rs2"
  shows "\<exists>t u. SC_W rd q1 q2 s = (Inr (), t) \<and> registers (cpu t) rd = 1 \<and>
    SC_W rd rs1 rs2 t = (Inr (), u) \<and> registers (cpu u) rd = 0 \<and> ram u = ram (sput s a (word_bytes (registers (cpu s) rs2)))"
proof -
  let ?t = "s\<lparr>cpu := (cpu s)\<lparr>registers := (registers (cpu s))(rd := 1)\<rparr>\<rparr>"
  have "SC_W rd q1 q2 s = (Inr (), ?t)" using SC_W_plain [OF assms(2), of rd q2] assms(3,5) by simp
  moreover have "amo_addr ?t rs1 a" using assms(1,6) by (simp add: amo_addr_def)
  from SC_W_plain [OF this, of rd rs2] have "\<exists>u. SC_W rd rs1 rs2 ?t = (Inr (), u) \<and> registers (cpu u) rd = 0 \<and>
      ram u = ram (sput s a (word_bytes (registers (cpu s) rs2)))"
    using assms(4,5,7) by (simp add: sput_def)
  ultimately show ?thesis by auto
qed

text \<open>C20. For an aligned address inside checked memory, \<open>SC.W\<close> stores exactly when the reservation of \<open>LR.W\<close> still stands: after \<open>LR.W\<close> from an address, \<open>SC.W\<close> to it
  stores the word, gives 0 and uses the reservation up, so that a second \<open>SC.W\<close> gives 1 and stores
  nothing; after \<open>LR.W\<close> and any store instruction, \<open>SC.W\<close> gives 1 and stores nothing.\<close>

theorem lr_sc:
  fixes s :: "'h sys"
  assumes "amo_addr s rs1 a" "rd \<noteq> rs1" "rd' \<noteq> rs1"
  shows "\<exists>t u. LR_W rd rs1 s = (Inr (), t) \<and> SC_W rd' rs1 rs2 t = (Inr (), u) \<and>
      ram u = ram (sput s a (word_bytes (registers (cpu t) rs2))) \<and> registers (cpu u) rd' = 0 \<and>
      (\<exists>v. SC_W rd' rs1 rs2 u = (Inr (), v) \<and> ram v = ram u \<and> registers (cpu v) rd' = 1) \<and>
      (\<forall>i sz f3 q1 q2 f7 w. exec_stores i sz 0 f3 q1 q2 f7 t = (Inr (), w) \<and> f3 \<in> {0, 1, 2} \<and> amo_addr w rs1 a \<longrightarrow>
         (\<exists>v. SC_W rd' rs1 rs2 w = (Inr (), v) \<and> ram v = ram w \<and> registers (cpu v) rd' = 1))"
proof -
  let ?t = "s\<lparr>cpu := (cpu s)\<lparr>registers := (registers (cpu s))(rd := le32 (sbyte s a) (sbyte s (a + 1)) (sbyte s (a + 2)) (sbyte s (a + 3))),
       reservation_valid := True, reservation_addr := a\<rparr>\<rparr>"
  let ?u = "(sput ?t a (word_bytes (registers (cpu ?t) rs2)))\<lparr>cpu := (cpu ?t)\<lparr>registers := (registers (cpu ?t))(rd' := 0), reservation_valid := False\<rparr>\<rparr>"
  have t: "amo_addr ?t rs1 a" using assms(1,2) by (simp add: amo_addr_def)
  have u: "amo_addr ?u rs1 a"
    using t assms(3) plain_word_sput [of ?t a a "word_bytes (registers (cpu ?t) rs2)"] by (simp add: amo_addr_def)
  have w: "\<not> reservation_valid (cpu w)" if "exec_stores i sz 0 f3 q1 q2 f7 ?t = (Inr (), w)" "f3 \<in> {0, 1, 2}" for i sz f3 q1 q2 f7 w
    using that
    by (auto simp: exec_stores_def clear_reservation_def py_then_def py_bind_def on_cpu_def py_zoom_def py_modify_def Let_def
        split: prod.splits sum.splits)
  show ?thesis
  proof (intro exI conjI allI impI)
    show "LR_W rd rs1 s = (Inr (), ?t)" by (rule LR_W_plain [OF assms(1)])
    show "SC_W rd' rs1 rs2 ?t = (Inr (), ?u)" using SC_W_plain [OF t, of rd' rs2] by simp
    show "SC_W rd' rs1 rs2 ?u = (Inr (), ?u\<lparr>cpu := (cpu ?u)\<lparr>registers := (registers (cpu ?u))(rd' := 1)\<rparr>\<rparr>)"
      using SC_W_plain [OF u, of rd' rs2] by simp
  next
    fix i sz f3 q1 q2 f7 w
    assume a: "exec_stores i sz 0 f3 q1 q2 f7 ?t = (Inr (), w) \<and> f3 \<in> {0, 1, 2} \<and> amo_addr w rs1 a"
    then show "SC_W rd' rs1 rs2 w = (Inr (), w\<lparr>cpu := (cpu w)\<lparr>registers := (registers (cpu w))(rd' := 1)\<rparr>\<rparr>)"
      using SC_W_plain [of w rs1 a rd' rs2] w by auto
  qed (simp_all add: sput_def)
qed

theorem lr_sc_witness:
  "\<exists>t u. LR_W 10 0 (demo_sys SafeRAM True) = (Inr (), t) \<and> SC_W 11 0 12 t = (Inr (), u) \<and> registers (cpu u) 11 = 0"
proof -
  have "amo_addr (demo_sys SafeRAM True) 0 0"
    by (simp add: amo_addr_def plain_word_def checked_def demo_sys_def demo_ram_wf safe_valid_def) (simp add: demo_ram_def)
  from lr_sc [OF this, of 10 11 12] show ?thesis by force
qed

end
