(* ===== verification/Py_Str.thy ===== *)
theory Py_Str
  imports Py_Base Py_Int
begin

text \<open>
  The string operations of Python that the emulator uses: hexadecimal and decimal formatting,
  \<open>split\<close>, \<open>strip\<close>, \<open>lower\<close>, and the UTF-8 encoding of \<open>str.encode()\<close>.

  A \<^typ>\<open>string\<close> holds the code points below 256, which is all that the protocol of the debugger and
  the names of registers need. Where arbitrary text is encoded (the arguments of the guest program), a
  Python string is the list of its code points.
\<close>

unbundle bit_operations_syntax

section \<open>Formatting\<close>

definition hex_char :: "bool \<Rightarrow> nat \<Rightarrow> char" where
  "hex_char upper n =
     (if n < 10 then char_of (48 + n) else if upper then char_of (55 + n) else char_of (87 + n))"

fun hex_nat :: "bool \<Rightarrow> nat \<Rightarrow> string" where
  "hex_nat upper n =
     (if n < 16 then [hex_char upper n] else hex_nat upper (n div 16) @ [hex_char upper (n mod 16)])"

declare hex_nat.simps [simp del]

text \<open>\<open>f"{z:0wx}"\<close> and \<open>f"{z:0wX}"\<close>: the width counts the sign.\<close>

definition fmt_hex :: "bool \<Rightarrow> nat \<Rightarrow> int \<Rightarrow> string" where
  "fmt_hex upper w z =
     (let s = hex_nat upper (nat \<bar>z\<bar>); sg = (if z < 0 then ''-'' else [])
      in sg @ replicate (w - length sg - length s) (CHR ''0'') @ s)"

fun dec_nat :: "nat \<Rightarrow> string" where
  "dec_nat n = (if n < 10 then [char_of (48 + n)] else dec_nat (n div 10) @ [char_of (48 + n mod 10)])"

declare dec_nat.simps [simp del]

text \<open>\<open>str(z)\<close>, \<open>f"{n:0w}"\<close> and \<open>f"{s:<w}"\<close>.\<close>

definition dec_int :: "int \<Rightarrow> string" where
  "dec_int z = (if z < 0 then CHR ''-'' # dec_nat (nat (- z)) else dec_nat (nat z))"

definition fmt_dec :: "nat \<Rightarrow> nat \<Rightarrow> string" where
  "fmt_dec w n = replicate (w - length (dec_nat n)) (CHR ''0'') @ dec_nat n"

definition ljust :: "nat \<Rightarrow> string \<Rightarrow> string" where
  "ljust w s = s @ replicate (w - length s) (CHR '' '')"

section \<open>Splitting and stripping\<close>

text \<open>\<open>s.split(sep)\<close> for a separator of one character: always at least one piece.\<close>

fun py_split :: "char \<Rightarrow> string \<Rightarrow> string list" where
  "py_split sep [] = [[]]"
| "py_split sep (c # cs) =
     (if c = sep then [] # py_split sep cs
      else case py_split sep cs of [] \<Rightarrow> [[c]] | x # xs \<Rightarrow> (c # x) # xs)"

text \<open>\<open>s.split()\<close>: the maximal pieces without white space.\<close>

function py_words :: "string \<Rightarrow> string list" where
  "py_words [] = []"
| "py_words (c # cs) =
     (if is_space c then py_words cs
      else (c # takeWhile (Not \<circ> is_space) cs) # py_words (dropWhile (Not \<circ> is_space) cs))"
  by pat_completeness auto
termination
  by (relation "measure length") (auto simp: le_imp_less_Suc length_dropWhile_le)

definition py_endswith :: "string \<Rightarrow> string \<Rightarrow> bool" where
  "py_endswith s p = (length p \<le> length s \<and> drop (length s - length p) s = p)"

definition py_strip :: "string \<Rightarrow> string" where
  "py_strip s = rev (dropWhile is_space (rev (dropWhile is_space s)))"

definition py_lower :: "string \<Rightarrow> string" where
  "py_lower = map (\<lambda>c. let n = of_char c :: nat in
     if 65 \<le> n \<and> n \<le> 90 \<or> 0xC0 \<le> n \<and> n \<le> 0xDE \<and> n \<noteq> 0xD7 then char_of (n + 32) else c)"

definition py_upper :: "string \<Rightarrow> string" where
  "py_upper = map (\<lambda>c. let n = of_char c :: nat in if 97 \<le> n \<and> n \<le> 122 then char_of (n - 32) else c)"

definition py_contains :: "string \<Rightarrow> string \<Rightarrow> bool" where
  "py_contains s p = list_ex (\<lambda>i. take (length p) (drop i s) = p) [0..<Suc (length s)]"

text \<open>\<open>s.replace(c, r)\<close> for a single character \<open>c\<close>.\<close>

definition py_replace :: "char \<Rightarrow> string \<Rightarrow> string \<Rightarrow> string" where
  "py_replace c r s = concat (map (\<lambda>d. if d = c then r else [d]) s)"

text \<open>\<open>os.path.basename\<close>.\<close>

definition basename :: "string \<Rightarrow> string" where
  "basename path = rev (takeWhile (\<lambda>c. c \<noteq> CHR ''/'') (rev path))"

definition py_startswith :: "string \<Rightarrow> string \<Rightarrow> bool" where
  "py_startswith s p = (take (length p) s = p)"

definition py_join :: "string \<Rightarrow> string list \<Rightarrow> string" where
  "py_join sep ss = (case ss of [] \<Rightarrow> [] | s # ss \<Rightarrow> s @ concat (map (\<lambda>t. sep @ t) ss))"

section \<open>UTF-8\<close>

text \<open>\<open>str.encode()\<close> of one code point; a lone surrogate has no encoding (\<open>UnicodeEncodeError\<close>).\<close>

type_synonym py_str = "nat list"

definition utf8_char :: "nat \<Rightarrow> 8 word list option" where
  "utf8_char n =
     (let b = (\<lambda>k :: nat. word_of_nat k) in
      if n < 0x80 then Some [b n]
      else if n < 0x800 then Some [b (0xC0 + n div 64), b (0x80 + n mod 64)]
      else if 0xD800 \<le> n \<and> n < 0xE000 then None
      else if n < 0x10000 then Some [b (0xE0 + n div 4096), b (0x80 + n div 64 mod 64), b (0x80 + n mod 64)]
      else if n < 0x110000 then
        Some [b (0xF0 + n div 262144), b (0x80 + n div 4096 mod 64), b (0x80 + n div 64 mod 64), b (0x80 + n mod 64)]
      else None)"

fun utf8 :: "py_str \<Rightarrow> 8 word list option" where
  "utf8 [] = Some []"
| "utf8 (n # ns) = (case (utf8_char n, utf8 ns) of (Some b, Some bs) \<Rightarrow> Some (b @ bs) | _ \<Rightarrow> None)"

lemma utf8_ascii: "\<forall>n \<in> set s. n < 0x80 \<Longrightarrow> utf8 s = Some (map word_of_nat s)"
  by (induction s) (auto simp: utf8_char_def)

lemma utf8_char_length: "utf8_char n = Some bs \<Longrightarrow> 1 \<le> length bs \<and> length bs \<le> 4"
  by (auto simp: utf8_char_def Let_def split: if_splits)

lemma utf8_length: "utf8 s = Some bs \<Longrightarrow> length s \<le> length bs \<and> length bs \<le> 4 * length s"
  by (induction s arbitrary: bs) (fastforce split: option.splits dest: utf8_char_length)+

section \<open>Lemmas\<close>

lemma py_split_nonempty [simp]: "py_split sep s \<noteq> []"
  by (induction s) (auto split: list.split)

lemma py_split_free: "sep \<notin> set s \<Longrightarrow> py_split sep s = [s]"
  by (induction s) auto

lemma py_split_append: "sep \<notin> set s \<Longrightarrow> py_split sep (s @ sep # t) = s # py_split sep t"
  by (induction s) auto

lemma hex_digit_val: "n < 16 \<Longrightarrow> digit_val (hex_char u n) = n"
  by (auto simp: hex_char_def digit_val_def Let_def)

end
