(* ===== verification/Machine.thy ===== *)
theory Machine
  imports Bus Cpu_Exec Py_Str
begin

text \<open>
  Class \<open>Machine\<close> of \<open>machine.py\<close>: the options and the memory layout of the running program, the
  loaders, the program arguments, the run-time checks and the execution loops.

  The machine object and the state of the installed \<open>ecall\<close> handler are the \<^const>\<open>host\<close> component of
  the system state, since the handler changes \<open>machine.heap_end\<close>. \<open>mlog\<close> says whether a logger is
  installed. The lists of peripherals are in the system state (theory \<open>Bus\<close>).

  The execution loops do not end except by an exception. They are instances of \<open>py_forever\<close>, whose
  result is the exception and the state it was raised in, and \<open>None\<close> for a run that goes on forever.
\<close>

unbundle bit_operations_syntax

section \<open>State\<close>

record machine =
  opt_timer :: bool
  opt_mmio :: bool
  opt_rvc :: bool
  mlog :: bool
  opt_trace :: bool
  opt_regs :: "string option"
  opt_check_inv :: bool
  start_checks :: "string option"
  check_enable :: bool
  stack_top :: "int option"
  stack_bottom :: "int option"
  heap_end :: "int option"
  text_start :: "int option"
  text_end :: "int option"
  text_snapshot :: "8 word list option"
  symbol_dict :: "int \<rightharpoonup> string"
  main_addr :: "int option"

record 'u env =
  mach :: machine
  handler :: 'u

type_synonym 'u msys = "'u env sys"

definition on_mach :: "(machine, 'a) py \<Rightarrow> ('u msys, 'a) py" where
  "on_mach = py_zoom (\<lambda>s. mach (host s)) (\<lambda>m s. s\<lparr>host := (host s)\<lparr>mach := m\<rparr>\<rparr>)"

definition wants_regs :: "machine \<Rightarrow> bool" where
  "wants_regs m = (case opt_regs m of None \<Rightarrow> False | Some r \<Rightarrow> r \<noteq> [])"

definition Machine_init ::
  "bool \<Rightarrow> bool \<Rightarrow> bool \<Rightarrow> bool \<Rightarrow> bool \<Rightarrow> string option \<Rightarrow> bool \<Rightarrow> string option \<Rightarrow> exn + machine" where
  "Machine_init timer mmio rvc log trace regs check_inv checks =
     (let m = \<lparr>opt_timer = timer, opt_mmio = mmio, opt_rvc = rvc, mlog = log, opt_trace = trace, opt_regs = regs,
               opt_check_inv = check_inv, start_checks = checks, check_enable = False,
               stack_top = None, stack_bottom = None, heap_end = None, text_start = None, text_end = None,
               text_snapshot = None, symbol_dict = Map.empty, main_addr = None\<rparr>
      in if (trace \<or> wants_regs m) \<and> \<not> log then Inl (SetupError TraceNeedsLogger) else Inr m)"

section \<open>Program arguments\<close>

text \<open>The strings; the value is the list of their addresses. \<open>heap_end\<close> advances by characters.\<close>

definition set_heap_end :: "int \<Rightarrow> ('u msys, unit) py" where
  "set_heap_end a = on_mach (py_modify (\<lambda>m. m\<lparr>heap_end := Some a\<rparr>))"

fun argv_strings :: "py_str list \<Rightarrow> ('u msys, int list) py" where
  "argv_strings [] = py_return []"
| "argv_strings (arg # args) = (\<lambda>s.
     case (utf8 arg, heap_end (mach (host s))) of
       (None, _) \<Rightarrow> (Inl ValueError, s)
     | (Some _, None) \<Rightarrow> (Inl TypeError, s)
     | (Some bs, Some addr) \<Rightarrow>
         py_then (store_binary addr (bs @ [0]))
           (py_then (set_heap_end ((addr + (int (length arg) + 1) + 3) AND NOT 3))
             (py_bind (argv_strings args) (\<lambda>ptrs. py_return (addr # ptrs)))) s)"

text \<open>The table of pointers.\<close>

fun argv_table :: "int list \<Rightarrow> ('u msys, unit) py" where
  "argv_table [] = py_return ()"
| "argv_table (ptr # ptrs) = (\<lambda>s.
     case heap_end (mach (host s)) of
       None \<Rightarrow> (Inl TypeError, s)
     | Some a \<Rightarrow> py_then (store_word a ptr) (py_then (set_heap_end (a + 4)) (argv_table ptrs)) s)"

definition setup_argv :: "py_str list \<Rightarrow> ('u msys, unit) py" where
  "setup_argv argv_list =
     py_bind (argv_strings argv_list) (\<lambda>argv_pointers s.
       case heap_end (mach (host s)) of
         None \<Rightarrow> (Inl TypeError, s)
       | Some argv_table_addr \<Rightarrow>
           py_then (argv_table (argv_pointers @ [0]))
             (py_then (\<lambda>s. set_heap_end ((the (heap_end (mach (host s))) + 7) AND NOT 7) s)
               (py_then (on_cpu (set_reg 10 (int (length argv_list))))
                 (on_cpu (set_reg 11 argv_table_addr)))) s)"

section \<open>Loaders\<close>

definition set_pc :: "int \<Rightarrow> ('h sys, unit) py" where
  "set_pc a = on_cpu (py_modify (\<lambda>c. c\<lparr>pc := a\<rparr>))"

definition load_flatbinary :: "8 word list \<Rightarrow> ('u msys, unit) py" where
  "load_flatbinary binary =
     py_then (store_binary 0 binary)
       (py_then (set_pc 0)
         (on_mach (\<lambda>m.
           if start_checks m = Some ''main'' then (Inl (SetupError MainChecksOnFlatBinary), m)
           else if start_checks m = None \<or> start_checks m = Some ''auto''
           then (Inr (), m\<lparr>start_checks := Some ''first-call''\<rparr>) else (Inr (), m))))"

text \<open>
  What \<open>ELFFile\<close> of \<open>pyelftools\<close> reports of an executable: the segments (whether \<open>PT_LOAD\<close>, physical
  address, data), the entry point, the symbol table and the \<open>.text\<close> section, if present.
\<close>

record elf_symbol =
  sym_name :: string
  st_value :: int
  is_func :: bool

record elf_file =
  segments :: "(bool \<times> int \<times> 8 word list) list"
  e_entry :: int
  symtab :: "elf_symbol list option"
  text_section :: "(int \<times> int) option"   \<comment> \<open>\<open>sh_addr\<close>, \<open>sh_size\<close>\<close>

text \<open>The files of the host: for a path, what \<open>pyelftools\<close> reports of it and its bytes, or the exception.\<close>

record file_system =
  read_elf :: "string \<Rightarrow> exn + elf_file"
  read_bin :: "string \<Rightarrow> exn + 8 word list"

fun load_segments :: "(bool \<times> int \<times> 8 word list) list \<Rightarrow> ('h sys, unit) py" where
  "load_segments [] = py_return ()"
| "load_segments ((is_load, addr, data) # segs) =
     (if is_load then py_then (store_binary addr data) (load_segments segs) else load_segments segs)"

definition note_symbol :: "elf_symbol \<Rightarrow> machine \<Rightarrow> machine" where
  "note_symbol symb m =
     (if sym_name symb = ''__heap_start'' then m\<lparr>heap_end := Some (st_value symb)\<rparr>
      else if sym_name symb = ''__stack_top'' then m\<lparr>stack_top := Some (st_value symb)\<rparr>
      else if sym_name symb = ''__stack_bottom'' then m\<lparr>stack_bottom := Some (st_value symb)\<rparr>
      else if sym_name symb = ''main'' then m\<lparr>main_addr := Some (st_value symb)\<rparr>
      else m)"

definition note_function :: "elf_symbol \<Rightarrow> machine \<Rightarrow> machine" where
  "note_function symb m =
     (if sym_name symb \<noteq> [] \<and> is_func symb
      then m\<lparr>symbol_dict := (symbol_dict m)(st_value symb \<mapsto> sym_name symb)\<rparr> else m)"

definition note_text :: "bool \<Rightarrow> 8 word list \<Rightarrow> int \<times> int \<Rightarrow> machine \<Rightarrow> machine" where
  "note_text check_text mem sec m =
     (let a = fst sec; b = fst sec + snd sec; m = m\<lparr>text_start := Some a, text_end := Some b\<rparr>
      in if check_text then m\<lparr>text_snapshot := Some (py_slice mem a b)\<rparr> else m)"

definition note_elf :: "elf_file \<Rightarrow> bool \<Rightarrow> bool \<Rightarrow> 8 word list \<Rightarrow> machine \<Rightarrow> machine" where
  "note_elf elf load_symbols check_text mem m =
     (let m = (case symtab elf of
                 None \<Rightarrow> m
               | Some syms \<Rightarrow>
                   let m = fold note_symbol syms m
                   in if load_symbols then fold note_function syms m else m);
          m = (case text_section elf of
                 None \<Rightarrow> m
               | Some sec \<Rightarrow> note_text check_text mem sec m)
      in if start_checks m = None \<or> start_checks m = Some ''auto''
         then m\<lparr>start_checks := Some ''main''\<rparr> else m)"

definition load_elf :: "elf_file \<Rightarrow> bool \<Rightarrow> bool \<Rightarrow> ('u msys, unit) py" where
  "load_elf elf load_symbols check_text =
     py_then (load_segments (segments elf))
       (py_then (set_pc (e_entry elf))
         (\<lambda>s. on_mach (py_modify (note_elf elf load_symbols check_text (memory (ram s)))) s))"

section \<open>Run-time checks\<close>

definition trigger_check :: "('u msys, bool) py" where
  "trigger_check s =
     (let m = mach (host s) in
      if start_checks m = Some ''early'' then (Inr True, s)
      else if start_checks m = Some ''main'' then (Inr (Some (pc (cpu s)) = main_addr m), s)
      else if start_checks m = Some ''first-call'' then
        py_bind (load_word (pc (cpu s))) (\<lambda>inst. py_return (inst AND 0x7F \<in> {0x6F, 0x67})) s
      else case start_checks m of
             None \<Rightarrow> (Inl TypeError, s)
           | Some v \<Rightarrow>
               (case py_int0 v of
                  None \<Rightarrow> (Inl (SetupError (BadStartChecks v)), s)
                | Some value \<Rightarrow> (Inr (pc (cpu s) = value AND 0xFFFFFFFF), s)))"

definition MIN_GAP :: int where "MIN_GAP = 256"

text \<open>\<open>self.ram.memory[self.text_start:self.text_end]\<close>\<close>

definition text_now :: "machine \<Rightarrow> ram \<Rightarrow> 8 word list" where
  "text_now m R =
     (case (text_start m, text_end m) of
        (Some a, Some b) \<Rightarrow> py_slice (memory R) a b
      | _ \<Rightarrow> memory R)"

definition invariant_violation :: "machine \<Rightarrow> cpu \<Rightarrow> ram \<Rightarrow> invariant_fault option" where
  "invariant_violation m c R =
     (let sp = registers c 2; gp = registers c 3 in
      if registers c 0 \<noteq> 0 then Some X0NotZero
      else if \<not> (0 \<le> pc c \<and> pc c < ram_size R) then Some (PcOutOfBounds (pc c))
      else if stack_top m \<noteq> None \<and> gp \<noteq> 0 \<and> \<not> sp \<le> the (stack_top m)
      then Some (SpAboveStackTop sp (the (stack_top m)))
      else if stack_bottom m \<noteq> None \<and> gp \<noteq> 0 \<and> \<not> sp \<ge> the (stack_bottom m)
      then Some (SpBelowStackBottom sp (the (stack_bottom m)))
      else if heap_end m \<noteq> None \<and> stack_bottom m \<noteq> None \<and> \<not> the (heap_end m) + MIN_GAP \<le> the (stack_bottom m)
      then Some (HeapTooClose (the (heap_end m)) (the (stack_bottom m)))
      else if heap_end m \<noteq> None \<and> the (heap_end m) mod 4 \<noteq> 0 then Some (HeapNotAligned (the (heap_end m)))
      else if text_snapshot m \<noteq> None \<and> text_now m R \<noteq> the (text_snapshot m) then Some TextModified
      else None)"

definition layout_checks :: "('u msys, unit) py" where
  "layout_checks s =
     (case invariant_violation (mach (host s)) (cpu s) (ram s) of
        Some v \<Rightarrow> (Inl (InvariantViolationError v), s)
      | None \<Rightarrow> (Inr (), s))"

definition check_invariants :: "('u msys, unit) py" where
  "check_invariants s =
     (if check_enable (mach (host s)) then layout_checks s
      else py_bind trigger_check (\<lambda>b.
             py_then (on_mach (py_modify (\<lambda>m. m\<lparr>check_enable := b\<rparr>)))
               (if b then layout_checks else py_return ())) s)"

section \<open>Register logging\<close>

definition REG_NAMES :: "string list" where
  "REG_NAMES = [''zero'', ''ra'', ''sp'', ''gp'', ''tp'', ''t0'', ''t1'', ''t2'', ''s0/fp'', ''s1'',
     ''a0'', ''a1'', ''a2'', ''a3'', ''a4'', ''a5'', ''a6'', ''a7'',
     ''s2'', ''s3'', ''s4'', ''s5'', ''s6'', ''s7'', ''s8'', ''s9'', ''s10'', ''s11'',
     ''t3'', ''t4'', ''t5'', ''t6'']"

definition REG_NAME_NUM :: "string \<rightharpoonup> int" where
  "REG_NAME_NUM = map_of
     (zip REG_NAMES [0..31] @ map (\<lambda>i. (CHR ''x'' # dec_nat (nat i), i)) [0..31] @ [(''s0'', 8), (''fp'', 8)])"

definition CSR_NAMES :: "(string \<times> int) list" where
  "CSR_NAMES =
     [(''mstatus'', 0x300), (''misa'', 0x301), (''mie'', 0x304), (''mtvec'', 0x305), (''mscratch'', 0x340),
      (''mepc'', 0x341), (''mcause'', 0x342), (''mtval'', 0x343), (''mip'', 0x344)]"

definition CSR_NAME_ADDR :: "string \<rightharpoonup> int" where
  "CSR_NAME_ADDR = map_of CSR_NAMES"

definition reg_getter :: "string \<Rightarrow> (cpu \<Rightarrow> int) option" where
  "reg_getter name =
     (case REG_NAME_NUM name of
        Some idx \<Rightarrow> Some (\<lambda>c. registers c idx)
      | None \<Rightarrow>
          if name = ''mtime_lo'' then Some (\<lambda>c. mtime c AND 0xFFFFFFFF)
          else if name = ''mtimecmp_lo'' then Some (\<lambda>c. mtimecmp c AND 0xFFFFFFFF)
          else if name = ''mtime_hi'' then Some (\<lambda>c. drop_bit 32 (mtime c))
          else if name = ''mtimecmp_hi'' then Some (\<lambda>c. drop_bit 32 (mtimecmp c))
          else (case CSR_NAME_ADDR name of
                  Some addr \<Rightarrow> Some (\<lambda>c. csrs c addr)
                | None \<Rightarrow> if name = ''pc'' then Some pc else None))"

fun reg_getters :: "string list \<Rightarrow> exn + (string \<times> (cpu \<Rightarrow> int)) list" where
  "reg_getters [] = Inr []"
| "reg_getters (name # names) =
     (case reg_getter name of
        None \<Rightarrow> Inl (SetupError (UnknownRegister name))
      | Some g \<Rightarrow> (case reg_getters names of Inl e \<Rightarrow> Inl e | Inr gs \<Rightarrow> Inr ((name, g) # gs)))"

definition make_regformatter_lambda :: "string \<Rightarrow> exn + (cpu \<Rightarrow> string)" where
  "make_regformatter_lambda regstring =
     (case reg_getters (map (\<lambda>s. py_lower (py_strip s)) (py_split (CHR '','') regstring)) of
        Inl e \<Rightarrow> Inl e
      | Inr getters \<Rightarrow>
          Inr (\<lambda>c. py_join '', '' (map (\<lambda>(name, g). name @ ''=0x'' @ fmt_hex True 8 (g c)) getters)))"

section \<open>Execution loops\<close>

text \<open>\<open>while True\<close> with a local variable; it ends when the body raises.\<close>

partial_function (option) py_forever :: "('l \<Rightarrow> ('s, 'l) py) \<Rightarrow> 'l \<Rightarrow> 's \<Rightarrow> (exn \<times> 's) option" where
  "py_forever body l s =
     (case body l s of
        (Inl e, s') \<Rightarrow> Some (e, s')
      | (Inr l', s') \<Rightarrow> py_forever body l' s')"

declare py_forever.simps [code]

definition fetch_halves :: "('h sys, int) py" where
  "fetch_halves s =
     py_bind (load_half (pc (cpu s)) False) (\<lambda>inst_low.
       if inst_low AND 0x3 = 0x3
       then py_bind (load_half (pc (cpu s) + 2) False) (\<lambda>inst_high. py_return (inst_low OR push_bit 16 inst_high))
       else py_return inst_low) s"

definition fetch_word :: "('h sys, int) py" where
  "fetch_word s = load_word (pc (cpu s)) s"

text \<open>The dispatch on the two lowest bits in the fast loops.\<close>

definition execute_fetched :: "('h sys, unit) py option \<Rightarrow> int \<Rightarrow> ('h sys, unit) py" where
  "execute_fetched ecall inst =
     (if inst AND 0x3 = 0x3 then execute_32 ecall inst else execute_16 ecall (inst AND 0xFFFF))"

definition tick :: "bool \<Rightarrow> ('h sys, unit) py" where
  "tick timer = (if timer then on_cpu timer_update else py_return ())"

definition advance_pc :: "('h sys, unit) py" where
  "advance_pc = on_cpu (py_modify (\<lambda>c. c\<lparr>pc := next_pc c\<rparr>))"

text \<open>The slow path: every 256 cycles the \<open>run\<close> methods of the peripherals.\<close>

definition poll :: "bool \<Rightarrow> int \<Rightarrow> ('h sys, int) py" where
  "poll mmio cyc s =
     (if mmio then
        let cyc = cyc + 1
        in if cyc AND 0xFF = 0 then (Inr 0, peripherals_run s) else (Inr cyc, s)
      else (Inr cyc, s))"

definition checks_step :: "('u msys, unit) py option \<Rightarrow> bool \<Rightarrow> bool \<Rightarrow> int \<Rightarrow> ('u msys, int) py" where
  "checks_step ecall timer mmio cyc s =
     py_then (if opt_check_inv (mach (host s)) then check_invariants else py_return ())
       (py_bind fetch_halves (\<lambda>inst.
         py_then (execute ecall inst) (py_then (tick timer) (py_then advance_pc (poll mmio cyc))))) s"

definition run_with_checks :: "('u msys, unit) py option \<Rightarrow> 'u msys \<Rightarrow> (exn \<times> 'u msys) option" where
  "run_with_checks ecall s =
     (let m = mach (host s);
          go = py_forever (checks_step ecall (opt_timer m) (opt_mmio m)) 0 s
      in if wants_regs m then
           (case make_regformatter_lambda (the (opt_regs m)) of
              Inl e \<Rightarrow> Some (e, s)
            | Inr regformatter \<Rightarrow> go)
         else go)"

definition run_fast_no_rvc :: "('h sys, unit) py option \<Rightarrow> 'h sys \<Rightarrow> (exn \<times> 'h sys) option" where
  "run_fast_no_rvc ecall =
     py_forever (\<lambda>_. py_bind fetch_word (\<lambda>inst. py_then (execute_32 ecall inst) advance_pc)) ()"

definition run_fast :: "('h sys, unit) py option \<Rightarrow> 'h sys \<Rightarrow> (exn \<times> 'h sys) option" where
  "run_fast ecall =
     py_forever (\<lambda>_. py_bind fetch_word (\<lambda>inst. py_then (execute_fetched ecall inst) advance_pc)) ()"

definition run_timer :: "('h sys, unit) py option \<Rightarrow> 'h sys \<Rightarrow> (exn \<times> 'h sys) option" where
  "run_timer ecall =
     py_forever (\<lambda>_. py_bind fetch_word (\<lambda>inst.
       py_then (execute_fetched ecall inst) (py_then (on_cpu timer_update) advance_pc))) ()"

definition mmio_step :: "('h sys, unit) py option \<Rightarrow> bool \<Rightarrow> int \<Rightarrow> ('h sys, int) py" where
  "mmio_step ecall timer cyc =
     py_bind fetch_word (\<lambda>inst.
       py_then (execute_fetched ecall inst) (py_then (tick timer) (py_then advance_pc (poll True cyc))))"

definition run_mmio :: "('u msys, unit) py option \<Rightarrow> 'u msys \<Rightarrow> (exn \<times> 'u msys) option" where
  "run_mmio ecall s = py_forever (mmio_step ecall (opt_timer (mach (host s)))) 0 s"

definition run :: "('u msys, unit) py option \<Rightarrow> 'u msys \<Rightarrow> (exn \<times> 'u msys) option" where
  "run ecall s =
     (let m = mach (host s) in
      if pc (cpu s) AND (if opt_rvc m then 0x1 else 0x3) \<noteq> 0
      then Some (MachineError (MisalignedInitialPC (pc (cpu s))), s)
      else if wants_regs m \<or> opt_check_inv m \<or> opt_trace m then run_with_checks ecall s
      else if opt_mmio m then run_mmio ecall s
      else if opt_timer m then run_timer ecall s
      else if opt_rvc m then run_fast ecall s
      else run_fast_no_rvc ecall s)"

end
