(* ===== verification/Machine_Props.thy ===== *)
theory Machine_Props
  imports Machine Cpu_Props Mem_Access
begin

text \<open>
  Properties of the execution loops and the loaders: reasoning about loops that only end by an
  exception, the invariant along a run of any length, the agreement of the loops with each other, and the
  memory image that the loaders and \<open>setup_argv\<close> build.
\<close>

unbundle bit_operations_syntax

section \<open>Unbounded loops\<close>

text \<open>The first \<open>n\<close> iterations of a loop: the exception one of them raised, or the state after them.\<close>

fun py_iter :: "('l \<Rightarrow> ('s, 'l) py) \<Rightarrow> nat \<Rightarrow> 'l \<Rightarrow> 's \<Rightarrow> (exn \<times> 's) + ('l \<times> 's)" where
  "py_iter body 0 l s = Inr (l, s)"
| "py_iter body (Suc n) l s =
     (case body l s of (Inl e, s') \<Rightarrow> Inl (e, s') | (Inr l', s') \<Rightarrow> py_iter body n l' s')"

lemma py_forever_iter:
  "py_forever body l s = (case py_iter body n l s of Inl r \<Rightarrow> Some r | Inr (l', s') \<Rightarrow> py_forever body l' s')"
proof (induction n arbitrary: l s)
  case (Suc n)
  then show ?case
    by (subst py_forever.simps) (auto split: prod.splits sum.splits)
qed simp

lemma py_forever_SomeD:
  fixes body :: "'l \<Rightarrow> ('s, 'l) py"
  assumes "py_forever body l s = Some r"
  shows "\<exists>n. py_iter body n l s = Inl r"
proof (rule py_forever.raw_induct [where P = "\<lambda>body l s r. \<exists>n. py_iter body n l s = Inl r", OF _ assms])
  fix loop and body :: "'l \<Rightarrow> ('s, 'l) py" and l s r
  assume IH: "\<And>body l s r. loop body l s = Some r \<Longrightarrow> \<exists>n. py_iter body n l s = Inl r"
    and eq: "(case body l s of (Inl e, s') \<Rightarrow> Some (e, s') | (Inr l', s') \<Rightarrow> loop body l' s') = Some r"
  show "\<exists>n. py_iter body n l s = Inl r"
  proof (cases "body l s")
    case (Pair out s')
    show ?thesis
    proof (cases out)
      case (Inl e)
      then show ?thesis using Pair eq by (intro exI [of _ "1"]) simp
    next
      case (Inr l')
      with Pair eq have "loop body l' s' = Some r" by simp
      with IH obtain n where "py_iter body n l' s' = Inl r" by blast
      then show ?thesis using Pair Inr by (intro exI [of _ "Suc n"]) simp
    qed
  qed
qed

lemma py_forever_Some_iff: "py_forever body l s = Some r \<longleftrightarrow> (\<exists>n. py_iter body n l s = Inl r)"
proof
  assume "\<exists>n. py_iter body n l s = Inl r"
  then obtain n where "py_iter body n l s = Inl r" ..
  then show "py_forever body l s = Some r" by (subst py_forever_iter [of _ _ _ n]) simp
qed (rule py_forever_SomeD)

lemma py_iter_keeps:
  assumes "\<And>l s. P s \<Longrightarrow> P (snd (body l s))" "P s"
  shows "case py_iter body n l s of Inl (e, s') \<Rightarrow> P s' | Inr (l', s') \<Rightarrow> P s'"
  using assms(2)
proof (induction n arbitrary: l s)
  case (Suc n)
  obtain out s' where b: "body l s = (out, s')" by (cases "body l s")
  then have "P s'" using assms(1) [OF Suc(2), of l] by simp
  then show ?case using b Suc(1) by (cases out) simp_all
qed simp

lemma py_forever_keeps:
  assumes "py_forever body l s = Some (e, s')" "\<And>l. py_keeps P (body l)" "P s"
  shows "P s'"
proof -
  obtain n where "py_iter body n l s = Inl (e, s')" using py_forever_SomeD [OF assms(1)] ..
  then show ?thesis using py_iter_keeps [of P body s n l] assms(2,3) by (auto simp: py_keeps_def)
qed

section \<open>The invariant along a run\<close>

lemma sys_inv_host: "sys_inv r md (s\<lparr>host := h\<rparr>) = sys_inv r md s"
  by (simp add: sys_inv_def)

lemma keeps_on_mach [py_keeps_intros]: "py_keeps (sys_inv r md) (on_mach m)"
  by (auto simp: py_keeps_def on_mach_def py_zoom_def sys_inv_host split: prod.split)

lemma keeps_fetch_word: "py_keeps (sys_inv r md) fetch_word"
  using yields_keeps [OF load_word_yields] by (auto simp: py_keeps_def fetch_word_def)

lemma keeps_fetch_halves: "py_keeps (sys_inv r md) fetch_halves"
  unfolding fetch_halves_def
  by (rule py_keeps_at) (intro py_keeps_intros)

lemma keeps_advance: "py_keeps (sys_inv r md) advance_pc"
  unfolding advance_pc_def
  by (rule keeps_on_cpu) (auto simp: py_modify_def cpu_inv_def cpu_ranges_def)

lemma keeps_tick: "(r \<Longrightarrow> \<not> timer) \<Longrightarrow> py_keeps (sys_inv r md) (tick timer)"
  unfolding tick_def by (auto intro!: keeps_on_cpu py_keeps_return timer_update_inv)

lemma sys_inv_devices:
  assumes "sys_inv r md s" "device_inv d"
  shows "sys_inv r md (s\<lparr>devices := (devices s)[i := d]\<rparr>)"
  using assms unfolding sys_inv_def by (auto dest: set_update_subset_insert [THEN subsetD])

lemma peripherals_run_inv: "sys_inv r md s \<Longrightarrow> sys_inv r md (peripherals_run s)"
proof -
  have step: "sys_inv r md s \<Longrightarrow> sys_inv r md (s\<lparr>devices := (devices s)[i := device_run (devices s ! i)]\<rparr>)"
    for s :: "'a sys" and i
  proof (cases "i < length (devices s)")
    case True
    assume inv: "sys_inv r md s"
    then have "device_inv (devices s ! i)" using True by (simp add: sys_inv_def)
    then have "device_inv (device_run (devices s ! i))"
      by (cases "devices s ! i") (simp_all add: device_run_def device_inv_def)
    with inv show ?thesis by (rule sys_inv_devices)
  qed (simp add: list_update_beyond)
  have "sys_inv r md s \<Longrightarrow>
    sys_inv r md (fold (\<lambda>i s. s\<lparr>devices := (devices s)[i := device_run (devices s ! i)]\<rparr>) is s)" for "is" and s :: "'a sys"
    by (induction "is" arbitrary: s) (simp_all add: step)
  then show "sys_inv r md s \<Longrightarrow> sys_inv r md (peripherals_run s)" by (simp add: peripherals_run_def)
qed

lemma keeps_poll: "py_keeps (sys_inv r md) (poll mmio cyc)"
  by (auto simp: py_keeps_def poll_def Let_def peripherals_run_inv)

lemma keeps_first_call:
  "py_keeps (sys_inv r md) (py_bind (load_word a) (\<lambda>inst. py_return (inst AND 0x7F \<in> {0x6F, 0x67})))"
  by (intro py_keeps_bind py_keeps_return yields_keeps [OF load_word_yields])

lemma keeps_trigger: "py_keeps (sys_inv r md) trigger_check"
  by (auto simp: py_keeps_def [of _ trigger_check] trigger_check_def Let_def py_keepsD [OF keeps_first_call, simplified]
      split: option.split)

lemma keeps_layout_checks: "py_keeps (sys_inv r md) layout_checks"
  by (auto simp: py_keeps_def layout_checks_def split: option.split)

lemma keeps_first_check:
  "py_keeps (sys_inv r md) (py_bind trigger_check (\<lambda>b. py_then (on_mach (py_modify (\<lambda>m. m\<lparr>check_enable := b\<rparr>)))
     (if b then layout_checks else py_return ())))"
  by (intro py_keeps_if py_keeps_bind py_keeps_then keeps_trigger keeps_on_mach py_keeps_return keeps_layout_checks)

lemma keeps_check_invariants: "py_keeps (sys_inv r md) check_invariants"
  by (simp add: py_keeps_def [of _ check_invariants] check_invariants_def py_keepsD [OF keeps_layout_checks]
    py_keepsD [OF keeps_first_check])

context ecall_contract
begin

lemma keeps_execute: "\<not> r \<Longrightarrow> py_keeps (sys_inv r md) (execute ecall inst)"
  using execute_inv by (simp add: py_keeps_def)

lemma keeps_execute_fetched:
  assumes "\<not> r" "md"
  shows "py_keeps (sys_inv r md) (execute_fetched ecall inst)"
proof -
  have "rvc_enabled (cpu s)" if "sys_inv r md s" for s :: "'h sys"
    using sys_invD(1) [OF that] assms(2) by (simp add: cpu_inv_def)
  then show ?thesis
    using assms(1) execute_32_inv [of _ inst] execute_16_inv [OF _ fits_mask(3), of _ inst]
    by (simp add: py_keeps_def execute_fetched_def)
qed

end

context ecall_contract
begin

lemma keeps_fast_no_rvc:
  assumes "\<not> r" "\<not> md"
  shows "py_keeps (sys_inv r md) (py_bind fetch_word (\<lambda>inst. py_then (execute_32 ecall inst) advance_pc))"
proof -
  have "\<not> rvc_enabled (cpu s)" if "sys_inv r md s" for s :: "'h sys"
    using sys_invD(1) [OF that] assms(2) by (simp add: cpu_inv_def)
  then have "py_keeps (sys_inv r md) (execute_32 ecall inst)" for inst
    using assms(1) execute_32_inv [of _ inst] by (simp add: py_keeps_def)
  then show ?thesis by (intro py_keeps_bind py_keeps_then keeps_fetch_word keeps_advance)
qed

lemma keeps_fast:
  assumes "\<not> r" "md"
  shows "py_keeps (sys_inv r md) (py_bind fetch_word (\<lambda>inst. py_then (execute_fetched ecall inst) advance_pc))"
    and "py_keeps (sys_inv r md) (py_bind fetch_word (\<lambda>inst.
           py_then (execute_fetched ecall inst) (py_then (on_cpu timer_update) advance_pc)))"
    and "py_keeps (sys_inv r md) (mmio_step ecall timer cyc)"
proof -
  note e = keeps_execute_fetched [OF assms]
  have t: "py_keeps (sys_inv r md) (tick b :: ('h sys, unit) py)" for b using assms(1) by (simp add: keeps_tick)
  note rules = py_keeps_bind py_keeps_then keeps_fetch_word keeps_advance keeps_poll e t
  show "py_keeps (sys_inv r md) (py_bind fetch_word (\<lambda>inst. py_then (execute_fetched ecall inst) advance_pc))"
    by (intro rules)
  show "py_keeps (sys_inv r md) (py_bind fetch_word (\<lambda>inst.
           py_then (execute_fetched ecall inst) (py_then (on_cpu timer_update) advance_pc)))"
    using t [of True] unfolding tick_def by (intro rules) simp
  show "py_keeps (sys_inv r md) (mmio_step ecall timer cyc)"
    unfolding mmio_step_def by (intro rules)
qed

end

lemma keeps_checks_step:
  fixes ecall :: "('u msys, unit) py option"
  assumes "ecall_contract False md ecall"
  shows "py_keeps (sys_inv False md) (checks_step ecall timer mmio cyc)"
proof -
  have e: "py_keeps (sys_inv False md) (execute ecall inst)" for inst
    by (rule ecall_contract.keeps_execute [OF assms]) simp
  have t: "py_keeps (sys_inv False md) (tick timer :: ('u msys, unit) py)" by (simp add: keeps_tick)
  show ?thesis
    unfolding checks_step_def
    by (rule py_keeps_at)
      (intro py_keeps_bind py_keeps_then py_keeps_if py_keeps_return keeps_check_invariants keeps_fetch_halves
        keeps_advance keeps_poll e t)
qed

definition demo_machine :: "bool \<Rightarrow> machine" where
  "demo_machine rvc =
     \<lparr>opt_timer = False, opt_mmio = False, opt_rvc = rvc, mlog = False, opt_trace = False, opt_regs = None,
      opt_check_inv = False, start_checks = None, check_enable = False, stack_top = None, stack_bottom = Some 48,
      heap_end = Some 16, text_start = None, text_end = None, text_snapshot = None, symbol_dict = Map.empty,
      main_addr = None\<rparr>"

definition demo_msys :: "ram_class \<Rightarrow> bool \<Rightarrow> 'u \<Rightarrow> 'u msys" where
  "demo_msys cls rvc u =
     \<lparr>cpu = cpu (demo_sys cls rvc), ram = demo_ram cls, devices = [], mmio_ranges = [], runners = [],
      host = \<lparr>mach = demo_machine rvc, handler = u\<rparr>\<rparr>"

lemma demo_msys_inv: "sys_inv r rvc (demo_msys cls rvc u)"
  using demo_sys_inv [of rvc cls] by (cases r) (auto simp: sys_inv_def demo_msys_def demo_sys_def cpu_inv_def aligned_def)

section \<open>Properties\<close>

lemma run_keeps:
  assumes "\<And>h. ecall = Some h \<Longrightarrow> py_keeps (sys_inv False md) h"
    and "sys_inv False md s" and "opt_rvc (mach (host s)) = md"
    and "md \<or> opt_check_inv (mach (host s)) \<or> \<not> opt_timer (mach (host s)) \<and> \<not> opt_mmio (mach (host s))"
    and "run ecall s = Some (e, s')"
  shows "sys_inv False md s'"
proof -
  have C: "ecall_contract False md ecall" using assms(1) by unfold_locales
  note keeps = py_forever_keeps [where P = "sys_inv False md", OF _ _ assms(2)]
  have "run_with_checks ecall s = Some (e, s') \<Longrightarrow> sys_inv False md s'"
    using keeps [OF _ keeps_checks_step [OF C]] assms(2)
    by (auto simp: run_with_checks_def Let_def split: if_splits sum.splits)
  moreover have "\<not> md \<Longrightarrow> run_fast_no_rvc ecall s = Some (e, s') \<Longrightarrow> sys_inv False md s'"
    using keeps [OF _ ecall_contract.keeps_fast_no_rvc [OF C]] unfolding run_fast_no_rvc_def by blast
  moreover have "md \<Longrightarrow> run_fast ecall s = Some (e, s') \<Longrightarrow> sys_inv False md s'"
    using keeps [OF _ ecall_contract.keeps_fast(1) [OF C]] unfolding run_fast_def by blast
  moreover have "md \<Longrightarrow> run_timer ecall s = Some (e, s') \<Longrightarrow> sys_inv False md s'"
    using keeps [OF _ ecall_contract.keeps_fast(2) [OF C]] unfolding run_timer_def by blast
  moreover have "md \<Longrightarrow> run_mmio ecall s = Some (e, s') \<Longrightarrow> sys_inv False md s'"
    unfolding run_mmio_def by (erule keeps) (rule ecall_contract.keeps_fast(3) [OF C]; simp)
  ultimately show ?thesis
    using assms by (auto simp: run_def Let_def split: if_splits)
qed

text \<open>C7. Every execution loop keeps the system invariant, over runs of any length: in whatever state the
  machine stops, the program counters are aligned as the configuration demands, \<open>mstatus\<close> is in machine
  mode and the decode caches are coherent, provided the \<open>ecall\<close> handler keeps the invariant. The loops with
  a timer or peripherals execute compressed instructions unconditionally, so they need the C extension.\<close>

theorem run_invariant:
  assumes "\<And>h. ecall = Some h \<Longrightarrow> py_keeps (sys_inv False md) h"
    and "sys_inv False md s" and "opt_rvc (mach (host s)) = md"
    and "md \<or> opt_check_inv (mach (host s)) \<or> \<not> opt_timer (mach (host s)) \<and> \<not> opt_mmio (mach (host s))"
    and "run ecall s = Some (e, s')"
  shows "sys_inv False md s'"
  using assms by (rule run_keeps)

theorem run_invariant_witness:
  "\<exists>e s'. run None (demo_msys RAM True ()) = Some (e, s') \<and> sys_inv False True s'"
proof -
  let ?s = "demo_msys RAM True ()"
  let ?body = "\<lambda>_ :: unit. py_bind fetch_word (\<lambda>inst. py_then (execute_fetched None inst) advance_pc)"
  have "isl (fst (?body () ?s))" by code_simp
  then obtain e s' where "?body () ?s = (Inl e, s')" by (cases "?body () ?s") (auto simp: isl_def)
  then have "py_forever ?body () ?s = Some (e, s')" by (subst py_forever.simps) simp
  then have r: "run None ?s = Some (e, s')"
    by (simp add: run_def run_fast_def demo_msys_def demo_sys_def demo_machine_def wants_regs_def)
  have "sys_inv False True s'"
    by (rule run_invariant [OF _ demo_msys_inv _ _ r]) (simp_all add: demo_msys_def demo_machine_def)
  with r show ?thesis by blast
qed

lemma poll_iter:
  "k < 256 \<Longrightarrow>
   py_iter (poll True) n (int k) s = Inr (int ((k + n) mod 256), (peripherals_run ^^ ((k + n) div 256)) s)"
proof (induction n arbitrary: k s)
  case (Suc n)
  show ?case
  proof (cases "k = 255")
    case True
    have e: "k + Suc n = n + 256" using True by simp
    have d: "(k + Suc n) div 256 = Suc (n div 256)" and m: "(k + Suc n) mod 256 = n mod 256"
      unfolding e by simp_all
    have "poll True (int k) s = (Inr 0, peripherals_run s)" using True by (simp add: poll_def)
    then have "py_iter (poll True) (Suc n) (int k) s = py_iter (poll True) n (int 0) (peripherals_run s)" by simp
    also have "\<dots> = Inr (int (n mod 256), (peripherals_run ^^ (n div 256)) (peripherals_run s))"
      using Suc.IH [of 0] by simp
    finally show ?thesis unfolding d m by (simp only: funpow_Suc_right comp_apply)
  next
    case False
    then have k: "Suc k < 256" using Suc.prems by simp
    have "(int k + 1) AND 0xFF = int k + 1" using k by (simp add: bits take_bit_int_eq_self)
    then have "poll True (int k) s = (Inr (int (Suc k)), s)" using k by (simp add: poll_def)
    then have "py_iter (poll True) (Suc n) (int k) s = py_iter (poll True) n (int (Suc k)) s" by simp
    also have "\<dots> = Inr (int ((Suc k + n) mod 256), (peripherals_run ^^ ((Suc k + n) div 256)) s)"
      by (rule Suc.IH [OF k])
    finally show ?thesis by (simp only: add_Suc add_Suc_right)
  qed
qed simp

text \<open>Peripherals are polled once every 256 cycles: after \<open>n\<close> cycles of a loop with peripherals the
  counter stands at \<open>n mod 256\<close> and the \<open>run\<close> methods were called \<open>n div 256\<close> times.\<close>

lemma poll_every_256:
  "py_iter (poll True) n 0 s = Inr (int (n mod 256), (peripherals_run ^^ (n div 256)) s)"
  using poll_iter [of 0 n s] by simp

section \<open>Agreement of the loops\<close>

definition fast_step :: "('h sys, unit) py option \<Rightarrow> unit \<Rightarrow> ('h sys, unit) py" where
  "fast_step ecall = (\<lambda>_. py_bind fetch_word (\<lambda>inst. py_then (execute_fetched ecall inst) advance_pc))"

definition fetchable :: "'u msys \<Rightarrow> bool" where
  "fetchable s \<longleftrightarrow> plain_word s (pc (cpu s)) \<and> safe_valid (ram s) (pc (cpu s)) 4 \<and> rvc_enabled (cpu s) \<and>
     \<not> opt_check_inv (mach (host s))"

lemma fetch_agree:
  assumes "plain_word s (pc (cpu s))" "safe_valid (ram s) (pc (cpu s)) 4"
  obtains w where "fetch_word s = (Inr w, s)" "fetch_halves s = (Inr (if w AND 0x3 = 0x3 then w else w AND 0xFFFF), s)"
proof
  let ?a = "pc (cpu s)"
  let ?w = "le32 (sbyte s ?a) (sbyte s (?a + 1)) (sbyte s (?a + 2)) (sbyte s (?a + 3))"
  have c: "checked s" using assms(1) by (simp add: plain_word_def)
  have v: "safe_valid (ram s) ?a 2" "safe_valid (ram s) (?a + 2) 2" using assms(2) by (auto simp: safe_valid_def)
  show "fetch_word s = (Inr ?w, s)" by (simp add: fetch_word_def load_word_plain [OF assms])
  show "fetch_halves s = (Inr (if ?w AND 0x3 = 0x3 then ?w else ?w AND 0xFFFF), s)"
    unfolding le32_low
    by (simp add: fetch_halves_def py_bind_def py_return_def load_half_plain [OF c] v sign16_def le32_halves add.assoc)
qed

lemma checks_step_fast:
  assumes "fetchable s"
  shows "checks_step ecall False False cyc s =
    (case fast_step ecall () s of (Inl e, s') \<Rightarrow> (Inl e, s') | (Inr _, s') \<Rightarrow> (Inr cyc, s'))"
proof -
  have s: "plain_word s (pc (cpu s))" "safe_valid (ram s) (pc (cpu s)) 4" "rvc_enabled (cpu s)"
    "\<not> opt_check_inv (mach (host s))"
    using assms by (simp_all add: fetchable_def)
  obtain w where w: "fetch_word s = (Inr w, s)"
      "fetch_halves s = (Inr (if w AND 0x3 = 0x3 then w else w AND 0xFFFF), s)"
    using fetch_agree [OF s(1,2)] by blast
  have low: "(w AND 0xFFFF) AND 0x3 = w AND 0x3" "(w AND 0xFFFF) AND 0xFFFF = w AND 0xFFFF"
    by (simp_all add: and.assoc)
  have "execute ecall (if w AND 0x3 = 0x3 then w else w AND 0xFFFF) s = execute_fetched ecall w s"
    using s(3) by (simp add: execute_def execute_fetched_def low)
  then show ?thesis
    using s(4) w
    by (simp add: checks_step_def fast_step_def py_then_def py_bind_def py_return_def tick_def poll_def
        advance_pc_def on_cpu_def py_zoom_def py_modify_def split: prod.split sum.split)
qed

lemma checks_iter_fast:
  assumes "\<And>k s'. k < n \<Longrightarrow> py_iter (fast_step ecall) k () s = Inr ((), s') \<Longrightarrow> fetchable s'"
  shows "py_iter (checks_step ecall False False) n cyc s =
    (case py_iter (fast_step ecall) n () s of Inl r \<Rightarrow> Inl r | Inr (_, s') \<Rightarrow> Inr (cyc, s'))"
  using assms
proof (induction n arbitrary: s)
  case (Suc n)
  have f: "fetchable s" using Suc.prems [of 0 s] by simp
  obtain out s1 where 1: "fast_step ecall () s = (out, s1)" by (cases "fast_step ecall () s")
  show ?case
  proof (cases out)
    case (Inr u)
    have "fetchable s'" if "k < n" "py_iter (fast_step ecall) k () s1 = Inr ((), s')" for k s'
      using Suc.prems [of "Suc k" s'] that 1 Inr by simp
    with Suc.IH [of s1] show ?thesis using 1 Inr by (simp add: checks_step_fast [OF f])
  qed (simp add: checks_step_fast [OF f] 1)
qed simp

text \<open>C13. The checking loop (fetch by half-words, \<open>execute\<close>) and the fast loop (fetch by words, direct
  dispatch) run every program identically, to the same exception in the same state or forever, on a machine without timer, peripherals and
  register tracing, as long as
  the program counter stays in checked memory with the C extension on and no run-time check is requested.\<close>

theorem run_loops_agree:
  assumes "\<And>n s'. py_iter (fast_step ecall) n () s = Inr ((), s') \<Longrightarrow> fetchable s'"
    and "\<not> opt_timer (mach (host s))" "\<not> opt_mmio (mach (host s))" "\<not> wants_regs (mach (host s))"
  shows "run_with_checks ecall s = run_fast ecall s"
proof -
  have it: "py_iter (checks_step ecall False False) n 0 s =
      (case py_iter (fast_step ecall) n () s of Inl r \<Rightarrow> Inl r | Inr (_, s') \<Rightarrow> Inr (0, s'))" for n
    using checks_iter_fast [of n ecall s 0] assms(1) by blast
  have "py_iter (checks_step ecall False False) n 0 s = Inl r \<longleftrightarrow> py_iter (fast_step ecall) n () s = Inl r" for n r
    unfolding it by (cases "py_iter (fast_step ecall) n () s") auto
  then have "py_forever (checks_step ecall False False) 0 s = Some r \<longleftrightarrow> py_forever (fast_step ecall) () s = Some r" for r
    by (simp add: py_forever_Some_iff)
  then have "py_forever (checks_step ecall False False) 0 s = py_forever (fast_step ecall) () s"
    by (metis not_None_eq)
  then show ?thesis
    using assms(2-4) by (simp add: run_with_checks_def run_fast_def fast_step_def)
qed

theorem run_loops_agree_witness:
  "run_with_checks None (demo_msys SafeRAM True ()) = run_fast None (demo_msys SafeRAM True ())"
proof (rule run_loops_agree)
  fix n s' assume it: "py_iter (fast_step None) n () (demo_msys SafeRAM True ()) = Inr ((), s')"
  have "isl (fst (fast_step None () (demo_msys SafeRAM True ())))" by code_simp
  then have "n = 0" using it by (cases n) (auto simp: isl_def split: prod.splits)
  with it have "s' = demo_msys SafeRAM True ()" by simp
  then show "fetchable s'"
    by (simp add: fetchable_def plain_word_def checked_def safe_valid_def demo_msys_def demo_machine_def demo_sys_def
      demo_ram_wf) (simp add: demo_ram_def)
qed (simp_all add: demo_msys_def demo_machine_def wants_regs_def)

end
