(* ===== verification/Isa_Step.thy ===== *)
theory Isa_Step
  imports Mem_Props Machine_Props
begin

text \<open>
  The unprivileged instruction set as an abstract machine on words, and the proof that the emulator
  implements it. The state \<open>arch\<close> has 32-bit registers, a program counter and a partial memory of bytes;
  \<open>isa_exec\<close> is the effect of an instruction of the base set, the M extension, the read-modify-write operations of the A
  extension and, through \<open>rvc_table\<close>, the C extension, and \<open>None\<close> where the manual demands an exception or leaves the
  abstract machine (\<open>LR.W\<close>, \<open>SC.W\<close> and system instructions). \<open>isa_step\<close> fetches and executes.
\<close>

unbundle bit_operations_syntax

section \<open>The abstract machine\<close>

record arch =
  xreg :: "int \<Rightarrow> 32 word"
  apc :: "32 word"
  amem :: "int \<rightharpoonup> 8 word"

definition wr :: "int \<Rightarrow> 32 word \<Rightarrow> (int \<Rightarrow> 32 word) \<Rightarrow> int \<Rightarrow> 32 word" where
  "wr rd v x = (if rd = 0 then x else x(rd := v))"

definition mem_read :: "(int \<rightharpoonup> 8 word) \<Rightarrow> int \<Rightarrow> nat \<Rightarrow> 8 word list option" where
  "mem_read m a n =
     (if list_all (\<lambda>k. m (a + int k) \<noteq> None) [0..<n] then Some (map (\<lambda>k. the (m (a + int k))) [0..<n]) else None)"

definition mem_write :: "int \<Rightarrow> 8 word list \<Rightarrow> (int \<rightharpoonup> 8 word) \<Rightarrow> int \<rightharpoonup> 8 word" where
  "mem_write a bs m x = (if a \<le> x \<and> x < a + int (length bs) then Some (bs ! nat (x - a)) else m x)"

fun le_int :: "8 word list \<Rightarrow> int" where
  "le_int [] = 0"
| "le_int (b # bs) = uint b OR push_bit 8 (le_int bs)"

text \<open>The read-modify-write operations of the A extension on words.\<close>

definition amo_spec :: "int \<Rightarrow> 32 word \<Rightarrow> 32 word \<Rightarrow> 32 word option" where
  "amo_spec funct5 old b =
     (if funct5 = 1 then Some b else if funct5 = 0 then Some (old + b) else if funct5 = 4 then Some (old XOR b)
      else if funct5 = 12 then Some (old AND b) else if funct5 = 8 then Some (old OR b)
      else if funct5 = 16 then Some (if old \<le>s b then old else b) else if funct5 = 20 then Some (if old \<le>s b then b else old)
      else if funct5 = 24 then Some (min old b) else if funct5 = 28 then Some (max old b) else None)"

fun isa_exec :: "int \<Rightarrow> rv_inst \<Rightarrow> arch \<Rightarrow> arch option" where
  "isa_exec sz (IType op rd f3 rs1 imm) a =
     (let x = xreg a rs1; i = word_of_int imm; nxt = apc a + word_of_int sz in
      if op = 0x13 then
        map_option (\<lambda>v. a\<lparr>xreg := wr rd v (xreg a), apc := nxt\<rparr>) (itype_spec f3 (fld 11 5 imm) x i)
      else if op = 0x03 \<and> f3 \<in> {0, 1, 2, 4, 5} then
        map_option (\<lambda>bs. a\<lparr>xreg := wr rd (load_spec f3 (word_of_int (le_int bs))) (xreg a), apc := nxt\<rparr>)
          (mem_read (amem a) (uint (x + i)) (access_bytes f3))
      else if op = 0x67 \<and> f3 = 0 then Some (a\<lparr>xreg := wr rd nxt (xreg a), apc := (x + i) AND NOT 1\<rparr>)
      else if op = 0x0F \<and> (f3 = 0 \<or> f3 = 1) then Some (a\<lparr>apc := nxt\<rparr>)
      else None)"
| "isa_exec sz (RType op rd f3 rs1 rs2 f7) a =
     (let x = xreg a rs1; nxt = apc a + word_of_int sz in
      if op = 0x33 then
        map_option (\<lambda>v. a\<lparr>xreg := wr rd v (xreg a), apc := nxt\<rparr>) (rtype_spec f3 f7 x (xreg a rs2))
      else if op = 0x2F \<and> f3 = 2 \<and> uint x AND 3 = 0 then
        Option.bind (mem_read (amem a) (uint x) 4) (\<lambda>bs.
          map_option (\<lambda>v. a\<lparr>xreg := wr rd (word_of_int (le_int bs)) (xreg a), apc := nxt,
                             amem := mem_write (uint x) (word_bytes (uint v)) (amem a)\<rparr>)
            (amo_spec (drop_bit 2 f7) (word_of_int (le_int bs)) (xreg a rs2)))
      else None)"
| "isa_exec sz (SType f3 rs1 rs2 imm) a =
     (let addr = uint (xreg a rs1 + word_of_int imm) in
      if f3 \<in> {0, 1, 2} then
        map_option (\<lambda>_. a\<lparr>amem := mem_write addr (store_bytes f3 (uint (xreg a rs2))) (amem a), apc := apc a + word_of_int sz\<rparr>)
          (mem_read (amem a) addr (access_bytes f3))
      else None)"
| "isa_exec sz (BType f3 rs1 rs2 imm) a =
     map_option (\<lambda>taken. a\<lparr>apc := apc a + word_of_int (if taken then imm else sz)\<rparr>)
       (branch_spec f3 (xreg a rs1) (xreg a rs2))"
| "isa_exec sz (UType op rd imm) a =
     (let v = push_bit 12 (word_of_int imm); nxt = apc a + word_of_int sz in
      if op = 0x37 then Some (a\<lparr>xreg := wr rd v (xreg a), apc := nxt\<rparr>)
      else if op = 0x17 then Some (a\<lparr>xreg := wr rd (apc a + v) (xreg a), apc := nxt\<rparr>)
      else None)"
| "isa_exec sz (JType rd imm) a =
     Some (a\<lparr>xreg := wr rd (apc a + word_of_int sz) (xreg a), apc := apc a + word_of_int imm\<rparr>)"

text \<open>Fetch reads a whole word, also for a compressed instruction.\<close>

inductive isa_fetch :: "arch \<Rightarrow> int \<Rightarrow> rv_inst \<Rightarrow> bool" where
  full: "mem_read (amem a) (uint (apc a)) 4 = Some bs \<Longrightarrow> le_int bs = encode32 i \<Longrightarrow> wf_inst i \<Longrightarrow> isa_fetch a 4 i"
| compressed: "mem_read (amem a) (uint (apc a)) 4 = Some bs \<Longrightarrow> rvc_table (le_int bs AND 0xFFFF) = Some i \<Longrightarrow> isa_fetch a 2 i"

inductive isa_step :: "arch \<Rightarrow> arch \<Rightarrow> bool" where
  step: "isa_fetch a sz i \<Longrightarrow> isa_exec sz i a = Some a' \<Longrightarrow> isa_step a a'"

text \<open>The address and the number of bytes of a load or store, and the access faults: a fetch or an access that leaves
  the memory.\<close>

fun access_of :: "rv_inst \<Rightarrow> arch \<Rightarrow> (int \<times> nat) option" where
  "access_of (IType op rd f3 rs1 imm) a =
     (if op = 0x03 \<and> f3 \<in> {0, 1, 2, 4, 5} then Some (uint (xreg a rs1 + word_of_int imm), access_bytes f3) else None)"
| "access_of (SType f3 rs1 rs2 imm) a =
     (if f3 \<in> {0, 1, 2} then Some (uint (xreg a rs1 + word_of_int imm), access_bytes f3) else None)"
| "access_of _ a = None"

inductive isa_fault :: "arch \<Rightarrow> int \<Rightarrow> nat \<Rightarrow> bool" where
  fetch: "mem_read (amem a) (uint (apc a)) 4 = None \<Longrightarrow> isa_fault a (uint (apc a)) 4"
| access: "isa_fetch a sz i \<Longrightarrow> access_of i a = Some (addr, n) \<Longrightarrow> mem_read (amem a) addr n = None \<Longrightarrow> isa_fault a addr n"

inductive_cases isa_fetchE: "isa_fetch a sz i"

inductive_cases isa_stepE: "isa_step a a'"

section \<open>The state of the emulator as a state of the abstract machine\<close>

definition mem_of :: "'h sys \<Rightarrow> int \<rightharpoonup> 8 word" where
  "mem_of s x = (if safe_valid (ram s) x 1 then Some (sbyte s x) else None)"

definition arch_of :: "'h sys \<Rightarrow> arch" where
  "arch_of s = \<lparr>xreg = \<lambda>i. w32 (registers (cpu s) i), apc = w32 (pc (cpu s)), amem = mem_of s\<rparr>"

definition isa_ok :: "'h sys \<Rightarrow> bool" where
  "isa_ok s \<longleftrightarrow> sys_inv True True s \<and> checked s \<and> mmio_ranges s = [] \<and> registers (cpu s) 0 = 0"

lemma arch_of_simps [simp]:
  "xreg (arch_of s) i = w32 (registers (cpu s) i)" "apc (arch_of s) = w32 (pc (cpu s))" "amem (arch_of s) = mem_of s"
  by (simp_all add: arch_of_def)

lemma mem_of_cpu [simp]: "mem_of (s\<lparr>cpu := c\<rparr>) = mem_of s"
  by (simp add: mem_of_def fun_eq_iff)

lemma plain_everywhere: "checked s \<Longrightarrow> mmio_ranges s = [] \<Longrightarrow> plain_word s a"
  by (simp add: plain_word_def mmio_hit_def)

lemma mem_read_valid:
  assumes "mem_read (mem_of s) a n = Some bs" "0 < n"
  shows "safe_valid (ram s) a n" "bs = map (\<lambda>k. sbyte s (a + int k)) [0..<n]"
proof -
  have all: "\<forall>k < n. safe_valid (ram s) (a + int k) 1"
    using assms(1) by (auto simp: mem_read_def mem_of_def list_all_iff split: if_splits)
  from all [rule_format, of 0] all [rule_format, of "n - 1"] assms(2) show "safe_valid (ram s) a n"
    by (auto simp: safe_valid_def of_nat_diff)
  show "bs = map (\<lambda>k. sbyte s (a + int k)) [0..<n]"
    using assms(1) all by (auto simp: mem_read_def mem_of_def split: if_splits)
qed

lemma mem_of_sput:
  assumes "checked s" "safe_valid (ram s) a (length bs)"
  shows "mem_of (sput s a bs) = mem_write a bs (mem_of s)"
  using assms sbyte_sput [OF assms] by (auto simp: mem_of_def mem_write_def fun_eq_iff safe_valid_def)

lemma le_int_bytes: "le_int [b0, b1, b2, b3] = le32 b0 b1 b2 b3" "le_int [b0, b1] = le16 b0 b1" "le_int [b] = uint b"
  by (simp_all add: le32_def le16_def push_bit_or or.assoc)

section \<open>The opcode handlers\<close>

text \<open>The state in which \<open>dispatch\<close> calls a handler, and what its result is after retirement.\<close>

definition dispatched :: "int \<Rightarrow> 'h sys \<Rightarrow> bool" where
  "dispatched sz s \<longleftrightarrow> cpu_ranges (cpu s) \<and> checked s \<and> mmio_ranges s = [] \<and> registers (cpu s) 0 = 0 \<and>
     alignment_mask (cpu s) = 1 \<and> next_pc (cpu s) = (pc (cpu s) + sz) AND 0xFFFFFFFF \<and> pc (cpu s) AND 1 = 0"

definition retires :: "'h sys \<Rightarrow> arch \<Rightarrow> bool" where
  "retires t a \<longleftrightarrow> a = \<lparr>xreg = \<lambda>j. if j = 0 then 0 else w32 (registers (cpu t) j), apc = w32 (next_pc (cpu t)), amem = mem_of t\<rparr>"

text \<open>What an instruction of the abstract machine leaves alone.\<close>

definition kept :: "'h sys \<Rightarrow> 'h sys \<Rightarrow> bool" where
  "kept s t \<longleftrightarrow> mmio_ranges t = mmio_ranges s \<and> runners t = runners s \<and> host t = host s \<and>
     csrs (cpu t) = csrs (cpu s) \<and> mtime (cpu t) = mtime (cpu s) \<and> mtimecmp (cpu t) = mtimecmp (cpu s) \<and> mtip (cpu t) = mtip (cpu s)"

definition handled :: "('h sys, unit) py option \<Rightarrow> int \<Rightarrow> rv_inst \<Rightarrow> 'h sys \<Rightarrow> arch \<Rightarrow> bool" where
  "handled ecall sz i s a \<longleftrightarrow>
     (case decode_fields (encode32 i) of (opc, rd, f3, rs1, rs2, f7) \<Rightarrow>
        \<exists>h t. opcode_handler ecall opc = Some h \<and> h (encode32 i) sz rd f3 rs1 rs2 f7 s = (Inr (), t) \<and> retires t a \<and>
          checked t \<and> kept s t)"

lemma w32_masked: "w32 (z AND 0xFFFFFFFF) = w32 z"
  by (rule bit_word_eqI) (simp add: bit_simps bits)

lemma w32_next: "w32 ((p + sz) AND 0xFFFFFFFF) = w32 p + w32 sz"
  by (simp only: w32_masked wi_hom_add)

lemma decode_I:
  assumes "wf_inst (IType op rd f3 rs1 imm)"
  shows "decode_fields (encode32 (IType op rd f3 rs1 imm)) = (op, rd, f3, rs1, fld 4 0 imm, fld 11 5 imm)"
    and "imm_i (encode32 (IType op rd f3 rs1 imm)) = imm" and "fits 32 (encode32 (IType op rd f3 rs1 imm))" and "fits 3 f3"
  using assms decode_IType(1) imm_i_encode encode32_fits [OF assms] by (simp_all del: encode32.simps add: wf_opcode_def)

lemma retires_reg:
  assumes "dispatched sz s" "t = s\<lparr>cpu := (cpu s)\<lparr>registers := (registers (cpu s))(rd := uint v)\<rparr>\<rparr>"
  shows "retires t (arch_of s\<lparr>xreg := wr rd v (xreg (arch_of s)), apc := apc (arch_of s) + word_of_int sz\<rparr>)"
  using assms by (auto simp: retires_def arch_of_def wr_def dispatched_def w32_next fun_eq_iff)

lemma retires_next:
  assumes "dispatched sz s"
  shows "retires s (arch_of s\<lparr>apc := apc (arch_of s) + word_of_int sz\<rparr>)"
  using assms by (auto simp: retires_def arch_of_def dispatched_def w32_next fun_eq_iff)

lemma on_cpu_ok: "f (cpu s) = (Inr (), c) \<Longrightarrow> on_cpu f s = (Inr (), s\<lparr>cpu := c\<rparr>)"
  by (simp add: on_cpu_def py_zoom_def)

lemma handledI:
  assumes "decode_fields (encode32 i) = (opc, rd, f3, rs1, rs2, f7)" "opcode_handler ecall opc = Some h"
    "h (encode32 i) sz rd f3 rs1 rs2 f7 s = (Inr (), t)" "retires t a" "checked t" "kept s t"
  shows "handled ecall sz i s a"
  using assms by (auto simp: handled_def)

lemma handled_on_cpu:
  assumes "decode_fields (encode32 i) = (opc, rd, f3, rs1, rs2, f7)" "dispatched sz s"
    "opcode_handler ecall opc = Some (\<lambda>i z rd f3 rs1 rs2 f7. on_cpu (h i z rd f3 rs1 rs2 f7))"
    "h (encode32 i) sz rd f3 rs1 rs2 f7 (cpu s) = (Inr (), c)" "retires (s\<lparr>cpu := c\<rparr>) a" "csrs c = csrs (cpu s)" "mtime c = mtime (cpu s)"
    "mtimecmp c = mtimecmp (cpu s)" "mtip c = mtip (cpu s)"
  shows "handled ecall sz i s a"
  using assms by (intro handledI [OF assms(1,3), where t = "s\<lparr>cpu := c\<rparr>"]) (simp_all add: on_cpu_ok dispatched_def kept_def)

lemma dispatched_ranges: "dispatched sz s \<Longrightarrow> cpu_ranges (cpu s)"
  by (simp add: dispatched_def)

lemma handled_op_imm:
  assumes "dispatched sz s" "wf_inst (IType 0x13 rd f3 rs1 imm)" "isa_exec sz (IType 0x13 rd f3 rs1 imm) (arch_of s) = Some a"
  shows "handled ecall sz (IType 0x13 rd f3 rs1 imm) s a"
proof -
  note d = decode_I [OF assms(2)]
  obtain v where v: "itype_spec f3 (fld 11 5 imm) (w32 (registers (cpu s) rs1)) (word_of_int imm) = Some v"
      "a = arch_of s\<lparr>xreg := wr rd v (xreg (arch_of s)), apc := apc (arch_of s) + word_of_int sz\<rparr>"
    using assms(3) by (auto simp: Let_def)
  have "exec_Itype (encode32 (IType 0x13 rd f3 rs1 imm)) sz rd f3 rs1 (fld 4 0 imm) (fld 11 5 imm) (cpu s) =
      (Inr (), (cpu s)\<lparr>registers := (registers (cpu s))(rd := uint v)\<rparr>)"
    using exec_Itype_refines [OF dispatched_ranges [OF assms(1)] d(3,4), of sz rd rs1] v(1) d(2) imm_i_signed [OF d(3)]
    by (simp del: encode32.simps)
  from handled_on_cpu [where h = exec_Itype, OF d(1) assms(1) _ this] show ?thesis
    using retires_reg [OF assms(1) refl, of rd v] v(2) by (simp add: opcode_handler_def kept_def)
qed

lemma handled_op:
  assumes "dispatched sz s" "wf_inst (RType 0x33 rd f3 rs1 rs2 f7)" "isa_exec sz (RType 0x33 rd f3 rs1 rs2 f7) (arch_of s) = Some a"
  shows "handled ecall sz (RType 0x33 rd f3 rs1 rs2 f7) s a"
proof -
  have d: "decode_fields (encode32 (RType 0x33 rd f3 rs1 rs2 f7)) = (0x33, rd, f3, rs1, rs2, f7)" "fits 3 f3"
    using assms(2) decode_RType by (simp_all del: encode32.simps add: wf_opcode_def)
  obtain v where v: "rtype_spec f3 f7 (w32 (registers (cpu s) rs1)) (w32 (registers (cpu s) rs2)) = Some v"
      "a = arch_of s\<lparr>xreg := wr rd v (xreg (arch_of s)), apc := apc (arch_of s) + word_of_int sz\<rparr>"
    using assms(3) by (auto simp: Let_def)
  have "exec_Rtype (encode32 (RType 0x33 rd f3 rs1 rs2 f7)) sz rd f3 rs1 rs2 f7 (cpu s) =
      (Inr (), (cpu s)\<lparr>registers := (registers (cpu s))(rd := uint v)\<rparr>)"
    using exec_Rtype_refines [OF dispatched_ranges [OF assms(1)] d(2)] v(1) by (simp del: encode32.simps)
  from handled_on_cpu [where h = exec_Rtype, OF d(1) assms(1) _ this] show ?thesis
    using retires_reg [OF assms(1) refl, of rd v] v(2) by (simp add: opcode_handler_def kept_def)
qed

lemma upper_value:
  "push_bit 12 (fld 19 0 imm) AND 0xFFFFFFFF = uint (push_bit 12 (w32 imm))"
  "(p + push_bit 12 (fld 19 0 imm)) AND 0xFFFFFFFF = uint (w32 p + push_bit 12 (w32 imm))"
proof -
  have w: "w32 (push_bit 12 (fld 19 0 imm)) = push_bit 12 (w32 imm)"
    by (rule bit_word_eqI) (auto simp: bit_simps fld_def)
  show "push_bit 12 (fld 19 0 imm) AND 0xFFFFFFFF = uint (push_bit 12 (w32 imm))"
    by (simp only: uint_word_of_int_and flip: w)
  show "(p + push_bit 12 (fld 19 0 imm)) AND 0xFFFFFFFF = uint (w32 p + push_bit 12 (w32 imm))"
    by (simp only: uint_word_of_int_and wi_hom_add flip: w)
qed

lemma handled_upper:
  assumes "dispatched sz s" "wf_inst (UType op rd imm)" "isa_exec sz (UType op rd imm) (arch_of s) = Some a"
  shows "handled ecall sz (UType op rd imm) s a"
proof -
  have d: "decode_fields (encode32 (UType op rd imm)) = (op, rd, fld 2 0 imm, fld 7 3 imm, fld 12 8 imm, fld 19 13 imm)"
      "drop_bit 12 (encode32 (UType op rd imm)) = fld 19 0 imm"
    using assms(2) decode_UType by (simp_all del: encode32.simps add: wf_opcode_def)
  have "op = 0x37 \<or> op = 0x17" using assms(3) by (auto simp: Let_def split: if_splits)
  then show ?thesis
  proof
    assume op: "op = 0x37"
    have "exec_LUI (encode32 (UType op rd imm)) sz rd (fld 2 0 imm) (fld 7 3 imm) (fld 12 8 imm) (fld 19 13 imm) (cpu s) =
        (Inr (), (cpu s)\<lparr>registers := (registers (cpu s))(rd := uint (push_bit 12 (w32 imm)))\<rparr>)"
      using d(2) by (simp del: encode32.simps add: exec_LUI_def set_reg_def py_modify_def upper_value Let_def)
    from handled_on_cpu [where h = exec_LUI, OF d(1) assms(1) _ this] show ?thesis
      using retires_reg [OF assms(1) refl, of rd "push_bit 12 (w32 imm)"] assms(3) op by (auto simp: opcode_handler_def Let_def)
  next
    assume op: "op = 0x17"
    have "exec_AUIPC (encode32 (UType op rd imm)) sz rd (fld 2 0 imm) (fld 7 3 imm) (fld 12 8 imm) (fld 19 13 imm) (cpu s) =
        (Inr (), (cpu s)\<lparr>registers := (registers (cpu s))(rd := uint (w32 (pc (cpu s)) + push_bit 12 (w32 imm)))\<rparr>)"
      using d(2) by (simp del: encode32.simps add: exec_AUIPC_def set_reg_def py_modify_def upper_value Let_def)
    from handled_on_cpu [where h = exec_AUIPC, OF d(1) assms(1) _ this] show ?thesis
      using retires_reg [OF assms(1) refl, of rd "w32 (pc (cpu s)) + push_bit 12 (w32 imm)"] assms(3) op by (auto simp: opcode_handler_def Let_def)
  qed
qed

lemma handled_fence:
  assumes "dispatched sz s" "wf_inst (IType 0x0F rd f3 rs1 imm)" "isa_exec sz (IType 0x0F rd f3 rs1 imm) (arch_of s) = Some a"
  shows "handled ecall sz (IType 0x0F rd f3 rs1 imm) s a"
proof -
  have f3: "f3 = 0 \<or> f3 = 1" "a = arch_of s\<lparr>apc := apc (arch_of s) + word_of_int sz\<rparr>"
    using assms(3) by (auto simp: Let_def split: if_splits)
  then have "exec_MISCMEM (encode32 (IType 0x0F rd f3 rs1 imm)) sz rd f3 rs1 (fld 4 0 imm) (fld 11 5 imm) (cpu s) = (Inr (), cpu s)"
    by (auto simp del: encode32.simps simp: exec_MISCMEM_def py_return_def)
  from handled_on_cpu [where h = exec_MISCMEM, OF decode_I(1) [OF assms(2)] assms(1) _ this] show ?thesis
    using retires_next [OF assms(1)] f3 by (simp add: opcode_handler_def kept_def)
qed

lemma even_target: "pc c AND 1 = 0 \<Longrightarrow> even imm \<Longrightarrow> uint (w32 (pc c) + w32 imm) AND 1 = 0"
proof -
  assume "pc c AND 1 = 0" "even imm"
  then have "even (pc c + imm)" by (simp add: bits) presburger
  then have "take_bit 1 (pc c + imm) = 0" by (simp add: take_bit_Suc)
  then show "uint (w32 (pc c) + w32 imm) AND 1 = 0"
    by (simp add: target_word [symmetric] bits)
qed

lemma retires_jump:
  assumes "dispatched sz s"
    "t = s\<lparr>cpu := (cpu s)\<lparr>registers := if rd = 0 then registers (cpu s) else (registers (cpu s))(rd := uint (w32 (pc (cpu s) + sz))),
                       next_pc := uint target\<rparr>\<rparr>"
  shows "retires t (arch_of s\<lparr>xreg := wr rd (apc (arch_of s) + word_of_int sz) (xreg (arch_of s)), apc := target\<rparr>)"
  using assms by (auto simp: retires_def arch_of_def wr_def dispatched_def fun_eq_iff)

lemma handled_jal:
  assumes "dispatched sz s" "wf_inst (JType rd imm)" "isa_exec sz (JType rd imm) (arch_of s) = Some a"
  shows "handled ecall sz (JType rd imm) s a"
proof -
  obtain f3 rs1 rs2 f7 where d: "decode_fields (encode32 (JType rd imm)) = (0x6F, rd, f3, rs1, rs2, f7)"
    using assms(2) decode_JType(1) [of rd imm] unfolding wf_inst.simps by blast
  let ?c = "(cpu s)\<lparr>registers := if rd = 0 then registers (cpu s) else (registers (cpu s))(rd := uint (w32 (pc (cpu s) + sz))),
                   next_pc := uint (w32 (pc (cpu s)) + w32 imm)\<rparr>"
  have "exec_JAL (encode32 (JType rd imm)) sz rd f3 rs1 rs2 f7 (cpu s) = (Inr (), ?c)"
    using jumps_correct [THEN conjunct1] imm_j_encode [OF assms(2)] even_target [of "cpu s" imm] assms(1,2)
    by (simp del: encode32.simps add: jump_and_link_def dispatched_def)
  from handled_on_cpu [where h = exec_JAL, OF d assms(1) _ this] show ?thesis
    using retires_jump [OF assms(1) refl, where rd = rd and target = "w32 (pc (cpu s)) + w32 imm"] assms(3) by (auto simp: opcode_handler_def)
qed

lemma handled_jalr:
  assumes "dispatched sz s" "wf_inst (IType 0x67 rd f3 rs1 imm)" "isa_exec sz (IType 0x67 rd f3 rs1 imm) (arch_of s) = Some a"
  shows "handled ecall sz (IType 0x67 rd f3 rs1 imm) s a"
proof -
  note d = decode_I [OF assms(2)]
  have f3: "f3 = 0" using assms(3) by (simp add: Let_def split: if_splits)
  let ?t = "(w32 (registers (cpu s) rs1) + w32 imm) AND NOT 1"
  let ?c = "(cpu s)\<lparr>registers := if rd = 0 then registers (cpu s) else (registers (cpu s))(rd := uint (w32 (pc (cpu s) + sz))),
                   next_pc := uint ?t\<rparr>"
  have "uint ?t AND 1 = 0" by (rule bit_eqI) (auto simp: bit_simps)
  then have "exec_JALR (encode32 (IType 0x67 rd f3 rs1 imm)) sz rd f3 rs1 (fld 4 0 imm) (fld 11 5 imm) (cpu s) = (Inr (), ?c)"
    using jumps_correct [THEN conjunct2] d(2) assms(1) f3
    by (simp del: encode32.simps add: jump_and_link_def dispatched_def)
  from handled_on_cpu [where h = exec_JALR, OF d(1) assms(1) _ this] show ?thesis
    using retires_jump [OF assms(1) refl, where rd = rd and target = ?t] assms(3) f3 by (auto simp: opcode_handler_def Let_def)
qed

lemma handled_branch:
  assumes "dispatched sz s" "wf_inst (BType f3 rs1 rs2 imm)" "isa_exec sz (BType f3 rs1 rs2 imm) (arch_of s) = Some a"
  shows "handled ecall sz (BType f3 rs1 rs2 imm) s a"
proof -
  obtain rd f7 where d: "decode_fields (encode32 (BType f3 rs1 rs2 imm)) = (0x63, rd, f3, rs1, rs2, f7)"
    using assms(2) decode_BType(1) [of f3 rs1 rs2 imm] unfolding wf_inst.simps by blast
  obtain taken where t: "branch_spec f3 (w32 (registers (cpu s) rs1)) (w32 (registers (cpu s) rs2)) = Some taken"
      "a = arch_of s\<lparr>apc := apc (arch_of s) + word_of_int (if taken then imm else sz)\<rparr>"
    using assms(3) by auto
  let ?c = "if taken then (cpu s)\<lparr>next_pc := uint (w32 (pc (cpu s)) + w32 imm)\<rparr> else cpu s"
  have "exec_branches (encode32 (BType f3 rs1 rs2 imm)) sz rd f3 rs1 rs2 f7 (cpu s) = (Inr (), ?c)"
    using exec_branches_refines [OF dispatched_ranges [OF assms(1)], of f3] t(1) imm_b_encode [OF assms(2)]
      even_target [of "cpu s" imm] assms(1,2)
    by (simp del: encode32.simps add: jump_spec_def dispatched_def split: bool.split)
  moreover have "retires (s\<lparr>cpu := ?c\<rparr>) a"
    using t(2) assms(1) retires_next [OF assms(1)]
    by (auto simp: retires_def arch_of_def dispatched_def fun_eq_iff)
  ultimately show ?thesis
    using handled_on_cpu [where h = exec_branches, OF d assms(1)] by (simp add: opcode_handler_def kept_def)
qed

lemma reg_addr: "(registers c rs1 + imm) AND 0xFFFFFFFF = uint (w32 (registers c rs1) + w32 imm)"
  by (simp only: uint_word_of_int_and wi_hom_add)

lemma le_int_store_bytes:
  assumes "f3 \<in> {0, 1, 2, 4, 5}" "bs = map b [0..<access_bytes f3]" "k < access_bytes f3"
  shows "b k = store_bytes (f3 AND 3) (le_int bs) ! k"
proof -
  have high: "\<not> bit w (8 + n)" "\<not> bit w (16 + n)" "\<not> bit w (24 + n)" for w :: "8 word" and n
    by (auto dest: bit_imp_le_length)
  consider "f3 AND 3 = 0" "bs = [b 0]" "k = 0" "f3 AND 3 = 0"
    | "f3 AND 3 = 1" "bs = [b 0, b 1]" "k < 2"
    | "f3 AND 3 = 2" "bs = [b 0, b 1, b 2, b 3]" "k < 4"
    using assms by (auto simp: access_bytes_def upt_rec numeral_2_eq_2 numeral_3_eq_3)
  then show ?thesis
  proof cases
    case 1
    then show ?thesis by (simp add: store_bytes_def le_int_bytes)
  next
    case 2
    have "byte (le16 (b 0) (b 1)) = b 0" "byte (drop_bit 8 (le16 (b 0) (b 1))) = b 1"
      by (auto simp: le16_def bit_simps high intro!: bit_word_eqI)
    then show ?thesis using 2 by (auto simp: store_bytes_def half_bytes_def le_int_bytes less_2_cases_iff simp del: le_int.simps)
  next
    case 3
    have "byte (le32 (b 0) (b 1) (b 2) (b 3)) = b 0" "byte (drop_bit 8 (le32 (b 0) (b 1) (b 2) (b 3))) = b 1"
      "byte (drop_bit 16 (le32 (b 0) (b 1) (b 2) (b 3))) = b 2" "byte (drop_bit 24 (le32 (b 0) (b 1) (b 2) (b 3))) = b 3"
      by (auto simp: le32_def bit_simps high intro!: bit_word_eqI)
    moreover have "k = 0 \<or> k = 1 \<or> k = 2 \<or> k = 3" using 3 by linarith
    ultimately show ?thesis using 3 by (auto simp: store_bytes_def word_bytes_def le_int_bytes simp del: le_int.simps)
  qed
qed

lemma handled_load:
  assumes "dispatched sz s" "wf_inst (IType 0x03 rd f3 rs1 imm)" "isa_exec sz (IType 0x03 rd f3 rs1 imm) (arch_of s) = Some a"
  shows "handled ecall sz (IType 0x03 rd f3 rs1 imm) s a"
proof -
  note d = decode_I [OF assms(2)]
  let ?a = "uint (w32 (registers (cpu s) rs1) + w32 imm)"
  have f3: "f3 \<in> {0, 1, 2, 4, 5}" using assms(3) by (simp add: Let_def split: if_splits)
  then obtain bs where bs: "mem_read (mem_of s) ?a (access_bytes f3) = Some bs"
      "a = arch_of s\<lparr>xreg := wr rd (load_spec f3 (w32 (le_int bs))) (xreg (arch_of s)), apc := apc (arch_of s) + word_of_int sz\<rparr>"
    using assms(3) by (auto simp: Let_def)
  have "0 < access_bytes f3" by (simp add: access_bytes_def)
  note v = mem_read_valid [OF bs(1) this]
  have p: "checked s" "plain_word s ?a" using assms(1) by (simp_all add: dispatched_def plain_everywhere)
  have "exec_loads (encode32 (IType 0x03 rd f3 rs1 imm)) sz rd f3 rs1 (fld 4 0 imm) (fld 11 5 imm) s =
      (Inr (), s\<lparr>cpu := (cpu s)\<lparr>registers := (registers (cpu s))(rd := uint (load_spec f3 (w32 (le_int bs))))\<rparr>\<rparr>)"
  proof (rule exec_loads_plain [OF f3 _ p(2) v(1)])
    show "?a = (registers (cpu s) rs1 + imm_i (encode32 (IType 0x03 rd f3 rs1 imm))) AND 0xFFFFFFFF"
      by (simp only: d(2) reg_addr)
  qed (rule le_int_store_bytes [OF f3 v(2)])
  from handledI [where h = exec_loads, OF d(1) _ this] show ?thesis
    using bs(2) retires_reg [OF assms(1) refl] p(1) by (simp add: opcode_handler_def kept_def)
qed

lemma handled_store:
  assumes "dispatched sz s" "wf_inst (SType f3 rs1 rs2 imm)" "isa_exec sz (SType f3 rs1 rs2 imm) (arch_of s) = Some a"
  shows "handled ecall sz (SType f3 rs1 rs2 imm) s a"
proof -
  let ?a = "uint (w32 (registers (cpu s) rs1) + w32 imm)" and ?v = "registers (cpu s) rs2"
  have d: "decode_fields (encode32 (SType f3 rs1 rs2 imm)) = (0x23, fld 4 0 imm, f3, rs1, rs2, fld 11 5 imm)"
    using decode_SType(1) assms(2) by (simp del: encode32.simps)
  have f3: "f3 \<in> {0, 1, 2}" using assms(3) by (simp add: Let_def split: if_splits)
  then obtain bs where bs: "mem_read (mem_of s) ?a (access_bytes f3) = Some bs"
      "a = arch_of s\<lparr>amem := mem_write ?a (store_bytes f3 (uint (w32 ?v))) (mem_of s), apc := apc (arch_of s) + word_of_int sz\<rparr>"
    using assms(3) by (auto simp: Let_def)
  have "0 < access_bytes f3" by (simp add: access_bytes_def)
  note v = mem_read_valid [OF bs(1) this]
  have l: "length (store_bytes f3 x) = access_bytes f3" for x using f3 by (auto simp: store_bytes_def access_bytes_def)
  have p: "checked s" "plain_word s ?a" using assms(1) by (simp_all add: dispatched_def plain_everywhere)
  let ?s = "s\<lparr>cpu := (cpu s)\<lparr>reservation_valid := False\<rparr>\<rparr>"
  let ?t = "sput ?s ?a (store_bytes f3 ?v)"
  have "exec_stores (encode32 (SType f3 rs1 rs2 imm)) sz (fld 4 0 imm) f3 rs1 rs2 (fld 11 5 imm) s = (Inr (), ?t)"
    by (rule exec_stores_plain [OF f3 _ p(2) v(1)]) (simp only: imm_s_encode [OF assms(2)] reg_addr)
  moreover have "mem_of ?t = mem_write ?a (store_bytes f3 ?v) (mem_of s)"
    using mem_of_sput [of ?s ?a "store_bytes f3 ?v"] p(1) v(1) l by simp
  moreover have "checked ?t" using checked_sput [of ?s ?a "store_bytes f3 ?v"] p(1) v(1) l by simp
  moreover have "uint (w32 ?v) = ?v" using cpu_ranges_reg [OF dispatched_ranges [OF assms(1)]] by metis
  ultimately show ?thesis
    using bs(2) assms(1)
    by (intro handledI [OF d, where h = exec_stores and t = ?t])
      (auto simp: opcode_handler_def kept_def retires_def arch_of_def dispatched_def w32_next fun_eq_iff)
qed

lemma sint_mask: "sint a AND 0xFFFFFFFF = uint a" for a :: "32 word"
  using signed_value [of a] by simp

lemma amo_new_words: "amo_new funct5 (uint old) (uint b) = map_option uint (amo_spec funct5 old b)"
proof -
  have m: "uint a AND 0xFFFFFFFF = uint a" for a :: "32 word" using uint_word_of_int_and [of "uint a"] by simp
  have "(uint old XOR uint b) AND 0xFFFFFFFF = uint (old XOR b)" "(uint old AND uint b) AND 0xFFFFFFFF = uint (old AND b)"
    "(uint old OR uint b) AND 0xFFFFFFFF = uint (old OR b)"
    by (simp_all add: m flip: uint_xor uint_and uint_or)
  then show ?thesis
    by (simp add: amo_new_def amo_spec_def m sint_mask signed32_uint uint_arith(1) min_def max_def word_sle_eq word_le_def)
qed

lemma exec_AMO_plain:
  assumes "drop_bit 27 i AND 0x1F = f5" "cpu_ranges (cpu s)" "a = registers (cpu s) rs1" "a AND 3 = 0" "plain_word s a"
    "safe_valid (ram s) a 4" "old = w32 (le32 (sbyte s a) (sbyte s (a + 1)) (sbyte s (a + 2)) (sbyte s (a + 3)))"
    "amo_spec f5 old (w32 (registers (cpu s) rs2)) = Some v"
  shows "exec_AMO i sz rd 2 rs1 rs2 f7 s = (Inr (), sput (s\<lparr>cpu := (cpu s)
    \<lparr>registers := (registers (cpu s))(rd := uint old), reservation_valid := False\<rparr>\<rparr>) a (word_bytes (uint v)))"
proof -
  let ?b = "registers (cpu s) rs2"
  have u: "uint (w32 (registers (cpu s) r)) = registers (cpu s) r" for r using cpu_ranges_reg [OF assms(2), of r] by simp
  have a: "a AND 0xFFFFFFFF = a" using uint_word_of_int_and [of a] u [of rs1] assms(3) by simp
  have old: "le32 (sbyte s a) (sbyte s (a + 1)) (sbyte s (a + 2)) (sbyte s (a + 3)) = uint old"
    using reg_word [OF fits_word_bytes] assms(7) by simp
  have f5: "f5 \<noteq> 2" "f5 \<noteq> 3" "amo_new f5 0 ?b \<noteq> None" using assms(8) by (auto simp: amo_spec_def amo_new_def split: if_splits)
  have n: "amo_new f5 (uint old) ?b = Some (uint v)" using amo_new_words [of f5 old "w32 ?b"] assms(8) u by simp
  have o: "amo_old f5 (uint old) = uint old" using uint_word_of_int_and [of "uint old"] by (simp add: amo_old_def)
  show ?thesis
    using assms(1,3,4) f5 load_word_plain [OF assms(5,6), unfolded old] store_word_plain [OF assms(5,6), of "uint v"] a n o
    by (simp add: exec_AMO_def Let_def py_bind_def py_then_def on_cpu_def py_zoom_def set_reg_def py_modify_def clear_reservation_def
      sput_cpu)
qed

lemma handled_amo:
  assumes "dispatched sz s" "wf_inst (RType 0x2F rd f3 rs1 rs2 f7)" "isa_exec sz (RType 0x2F rd f3 rs1 rs2 f7) (arch_of s) = Some a"
  shows "handled ecall sz (RType 0x2F rd f3 rs1 rs2 f7) s a"
proof -
  let ?i = "encode32 (RType 0x2F rd f3 rs1 rs2 f7)" and ?a = "registers (cpu s) rs1"
  have d: "decode_fields ?i = (0x2F, rd, f3, rs1, rs2, f7)"
    using assms(2) decode_RType by (simp del: encode32.simps add: wf_opcode_def)
  have f5: "drop_bit 27 ?i AND 0x1F = drop_bit 2 f7"
  proof -
    have "drop_bit 27 x AND 0x1F = drop_bit 2 (fld 31 25 x)" for x unfolding bits by (rule bit_eqI) (auto simp: bit_simps)
    then show ?thesis using d by (simp del: encode32.simps add: decode_fields_fld)
  qed
  have u: "uint (w32 ?a) = ?a" using cpu_ranges_reg [OF dispatched_ranges [OF assms(1)], of rs1] by simp
  obtain bs v where v: "f3 = 2" "?a AND 3 = 0" "mem_read (mem_of s) ?a 4 = Some bs"
      "amo_spec (drop_bit 2 f7) (w32 (le_int bs)) (w32 (registers (cpu s) rs2)) = Some v"
      "a = arch_of s\<lparr>xreg := wr rd (w32 (le_int bs)) (xreg (arch_of s)), apc := apc (arch_of s) + word_of_int sz,
        amem := mem_write ?a (word_bytes (uint v)) (mem_of s)\<rparr>"
    using assms(3) u by (auto simp: Let_def bind_eq_Some_conv split: if_splits)
  note m = mem_read_valid [OF v(3)]
  have bs: "le_int bs = le32 (sbyte s ?a) (sbyte s (?a + 1)) (sbyte s (?a + 2)) (sbyte s (?a + 3))"
    using m(2) by (simp add: upt_rec numeral_eq_Suc flip: le_int_bytes(1))
  have p: "checked s" "plain_word s ?a" using assms(1) by (simp_all add: dispatched_def plain_everywhere)
  let ?s = "s\<lparr>cpu := (cpu s)\<lparr>registers := (registers (cpu s))(rd := uint (w32 (le_int bs))), reservation_valid := False\<rparr>\<rparr>"
  let ?t = "sput ?s ?a (word_bytes (uint v))"
  have "exec_AMO ?i sz rd f3 rs1 rs2 f7 s = (Inr (), ?t)"
    unfolding v(1) using exec_AMO_plain [OF _ dispatched_ranges [OF assms(1)] refl v(2) p(2) m(1) _ v(4)] f5 bs v(1)
    by (simp del: encode32.simps)
  moreover have "length (word_bytes (uint v)) = 4" by (simp add: word_bytes_def)
  then have "mem_of ?t = mem_write ?a (word_bytes (uint v)) (mem_of s)" "checked ?t"
    using mem_of_sput [of ?s ?a "word_bytes (uint v)"] checked_sput [of ?s ?a "word_bytes (uint v)"] p(1) m(1) by simp_all
  ultimately show ?thesis
    using v(5) assms(1)
    by (intro handledI [OF d, where h = exec_AMO and t = ?t])
      (auto simp: opcode_handler_def kept_def retires_def arch_of_def dispatched_def w32_next wr_def fun_eq_iff)
qed

lemma handled_inst:
  assumes "dispatched sz s" "wf_inst i" "isa_exec sz i (arch_of s) = Some a"
  shows "handled ecall sz i s a"
proof (cases i)
  case (IType op rd f3 rs1 imm)
  then consider "op = 0x13" | "op = 0x03" | "op = 0x67" | "op = 0x0F" using assms(3) by (auto simp: Let_def split: if_splits)
  then show ?thesis
    using assms IType by cases (auto intro: handled_op_imm handled_load handled_jalr handled_fence)
next
  case (RType op rd f3 rs1 rs2 f7)
  then have "op = 0x33 \<or> op = 0x2F" using assms(3) by (auto simp: Let_def split: if_splits)
  then show ?thesis using assms RType by (auto intro: handled_op handled_amo)
qed (use assms in \<open>auto intro: handled_store handled_branch handled_upper handled_jal\<close>)

section \<open>One instruction of the execution loop\<close>

lemma isa_opcode:
  assumes "wf_inst i" "isa_exec sz i a = Some a'" "decode_fields (encode32 i) = (opc, rd, f3, rs1, rs2, f7)"
  shows "opc \<noteq> 0x73"
proof (cases i)
  case (IType op rd' f3' rs1' imm)
  then show ?thesis using assms decode_I(1) by (auto simp del: encode32.simps simp: Let_def split: if_splits)
next
  case (RType op rd' f3' rs1' rs2' f7')
  then show ?thesis using assms decode_RType by (auto simp del: encode32.simps simp: wf_opcode_def Let_def split: if_splits)
next
  case (SType f3' rs1' rs2' imm)
  then show ?thesis using assms decode_SType(1) by (auto simp del: encode32.simps)
next
  case (BType f3' rs1' rs2' imm)
  then show ?thesis using assms decode_BType(1) [of f3' rs1' rs2' imm] by (auto simp del: encode32.simps)
next
  case (UType op rd' imm)
  then show ?thesis using assms decode_UType(1) by (auto simp del: encode32.simps simp: wf_opcode_def Let_def split: if_splits)
next
  case (JType rd' imm)
  then show ?thesis using assms decode_JType(1) [of rd' imm] by (auto simp del: encode32.simps)
qed

text \<open>Only \<open>SYSTEM\<close> instructions look at the \<open>ecall\<close> handler.\<close>

lemma dispatch_any_ecall:
  "fst d \<noteq> 0x73 \<Longrightarrow> dispatch ecall inst sz d = dispatch None inst sz d"
  by (cases d) (simp add: dispatch_def opcode_handler_def)

definition adv :: "'h sys \<Rightarrow> 'h sys" where
  "adv t = t\<lparr>cpu := (cpu t)\<lparr>pc := next_pc (cpu t)\<rparr>\<rparr>"

lemma advance_adv: "advance_pc t = (Inr (), adv t)"
  by (simp add: advance_pc_def adv_def on_cpu_def py_zoom_def py_modify_def)

lemma kept_cpu: "kept s (t\<lparr>cpu := c\<rparr>) \<longleftrightarrow> mmio_ranges t = mmio_ranges s \<and> runners t = runners s \<and> host t = host s \<and>
    csrs c = csrs (cpu s) \<and> mtime c = mtime (cpu s) \<and> mtimecmp c = mtimecmp (cpu s) \<and> mtip c = mtip (cpu s)"
  by (simp add: kept_def)

lemma dispatch_commit:
  assumes "handled ecall sz i (s\<lparr>cpu := (cpu s)\<lparr>next_pc := (pc (cpu s) + sz) AND 0xFFFFFFFF\<rparr>\<rparr>) a"
  shows "\<exists>t. dispatch ecall (encode32 i) sz (decode_fields (encode32 i)) s = (Inr (), t) \<and> arch_of (adv t) = a \<and> checked t \<and>
    kept s t \<and> registers (cpu t) 0 = 0"
proof -
  let ?s = "s\<lparr>cpu := (cpu s)\<lparr>next_pc := (pc (cpu s) + sz) AND 0xFFFFFFFF\<rparr>\<rparr>"
  obtain opc rd f3 rs1 rs2 f7 h t where *: "decode_fields (encode32 i) = (opc, rd, f3, rs1, rs2, f7)"
      "opcode_handler ecall opc = Some h" "h (encode32 i) sz rd f3 rs1 rs2 f7 ?s = (Inr (), t)"
      "retires t a" "checked t" "kept ?s t"
    using assms unfolding handled_def by (auto simp del: encode32.simps split: prod.splits)
  let ?t = "t\<lparr>cpu := (cpu t)\<lparr>registers := (registers (cpu t))(0 := 0)\<rparr>\<rparr>"
  have "dispatch ecall (encode32 i) sz (decode_fields (encode32 i)) s = (Inr (), ?t)"
    using * by (simp add: dispatch_def py_then_def py_bind_def py_modify_def on_cpu_def py_zoom_def set_reg_def del: encode32.simps)
  moreover have "arch_of (adv ?t) = a" using *(4) by (simp add: retires_def arch_of_def adv_def fun_eq_iff)
  ultimately show ?thesis using *(5,6) by (auto simp: kept_def)
qed

lemma isa_ok_dispatched:
  assumes "isa_ok s" "cpu s' = (cpu s)\<lparr>decode_cache := x, decode_cache_compressed := y, next_pc := (pc (cpu s) + sz) AND 0xFFFFFFFF\<rparr>"
    "ram s' = ram s" "mmio_ranges s' = mmio_ranges s"
  shows "dispatched sz s'" "arch_of s' = arch_of s"
proof -
  have "cpu_inv True True (cpu s)" using assms(1) sys_invD(1) by (auto simp: isa_ok_def)
  then show "dispatched sz s'"
    using assms by (auto simp: dispatched_def isa_ok_def cpu_inv_def cpu_ranges_def aligned_def checked_def)
  show "arch_of s' = arch_of s" using assms(2,3) by (auto simp: arch_of_def mem_of_def fun_eq_iff)
qed

lemma isa_dispatch:
  assumes "isa_ok s" "wf_inst i" "isa_exec sz i (arch_of s) = Some a" "sz = 4 \<or> sz = 2"
    "s1 = s\<lparr>cpu := (cpu s)\<lparr>decode_cache := x, decode_cache_compressed := y\<rparr>\<rparr>"
  shows "\<exists>t. dispatch ecall (encode32 i) sz (decode_fields (encode32 i)) s1 = (Inr (), t) \<and> arch_of (adv t) = a \<and> checked t \<and>
    kept s t \<and> registers (cpu t) 0 = 0"
proof -
  let ?s0 = "s1\<lparr>cpu := (cpu s1)\<lparr>next_pc := (pc (cpu s1) + sz) AND 0xFFFFFFFF\<rparr>\<rparr>"
  have "dispatched sz ?s0" "arch_of ?s0 = arch_of s"
    using isa_ok_dispatched [OF assms(1), where s' = ?s0 and x = x and y = y and sz = sz] assms(5) by simp_all
  then have "handled ecall sz i ?s0 a" using handled_inst assms(2,3) by metis
  from dispatch_commit [OF this] show ?thesis using assms(5) by (auto simp: kept_def)
qed

lemma execute_fetched_execute: "rvc_enabled (cpu s) \<Longrightarrow> execute_fetched ecall w s = execute ecall w s"
  by (simp add: execute_fetched_def execute_def)

definition fetched :: "int \<Rightarrow> rv_inst \<Rightarrow> int \<Rightarrow> bool" where
  "fetched sz i w \<longleftrightarrow> wf_inst i \<and> fits 32 w \<and> (sz = 4 \<and> w = encode32 i \<or> sz = 2 \<and> rvc_table (w AND 0xFFFF) = Some i)"

lemma isa_ok_inv:
  assumes "isa_ok s"
  shows "sys_inv True True s" "rvc_enabled (cpu s)" "checked s" "mmio_ranges s = []" "fits 32 (pc (cpu s))"
  using assms sys_invD(1) [of True True s] by (auto simp: isa_ok_def cpu_inv_def aligned_def)

lemma fetched_dispatch:
  assumes "isa_ok s" "fetched sz i w"
  shows "\<exists>x y. \<forall>ec. execute ec w s = dispatch ec (encode32 i) sz (decode_fields (encode32 i))
      (s\<lparr>cpu := (cpu s)\<lparr>decode_cache := x, decode_cache_compressed := y\<rparr>\<rparr>)"
proof -
  let ?c = "decode_fields (encode32 i)"
  note inv = isa_ok_inv(1,2) [OF assms(1)]
  consider "w = encode32 i" "wf_inst i" "sz = 4" | "rvc_table (w AND 0xFFFF) = Some i" "sz = 2"
    using assms(2) by (auto simp: fetched_def)
  then show ?thesis
  proof cases
    case 1
    then have "w AND 3 = 3" using encode32_low_bits by auto
    then have "execute ec w s = dispatch ec (encode32 i) sz ?c (s\<lparr>cpu := (cpu s)\<lparr>decode_cache :=
        (decode_cache (cpu s))(drop_bit 2 w \<mapsto> ?c), decode_cache_compressed := decode_cache_compressed (cpu s)\<rparr>\<rparr>)" for ec
      using execute_fresh [OF inv, of ec w] 1 by (simp del: encode32.simps)
    then show ?thesis by blast
  next
    case 2
    have "(w AND 0xFFFF) AND 3 = w AND 3" by (simp add: and.assoc)
    then have "w AND 3 \<noteq> 3"
      using 2 rvc_table_q3 [of "w AND 0xFFFF"] by (auto simp: fld_def bits numeral_2_eq_2)
    then have "execute ec w s = dispatch ec (encode32 i) sz ?c (s\<lparr>cpu := (cpu s)\<lparr>decode_cache := decode_cache (cpu s),
        decode_cache_compressed := (decode_cache_compressed (cpu s))(w AND 0xFFFF \<mapsto> (?c, encode32 i))\<rparr>\<rparr>)" for ec
      using execute_fresh [OF inv, of ec w] 2 by (simp del: encode32.simps)
    then show ?thesis by blast
  qed
qed

lemma isa_execute:
  assumes "isa_ok s" "isa_exec sz i (arch_of s) = Some a" "fetched sz i w"
  shows "\<exists>t. execute ecall w s = (Inr (), t) \<and> arch_of (adv t) = a \<and> isa_ok t \<and> kept s t"
proof -
  let ?c = "decode_fields (encode32 i)"
  have f: "wf_inst i" "sz = 4 \<or> sz = 2" "fits 32 w" using assms(3) by (auto simp: fetched_def)
  obtain x y where xy: "execute ec w s = dispatch ec (encode32 i) sz ?c
      (s\<lparr>cpu := (cpu s)\<lparr>decode_cache := x, decode_cache_compressed := y\<rparr>\<rparr>)" for ec
    using fetched_dispatch [OF assms(1,3)] by blast
  obtain t where t: "execute ecall w s = (Inr (), t)" "arch_of (adv t) = a" "checked t" "kept s t" "registers (cpu t) 0 = 0"
    using isa_dispatch [OF assms(1) f(1) assms(2) f(2) refl, where x = x and y = y and ecall = ecall] unfolding xy by blast
  have "fst ?c \<noteq> 0x73" using isa_opcode [OF f(1) assms(2)] by (cases ?c) (auto simp del: encode32.simps)
  then have "execute None w s = (Inr (), t)"
    using t(1) dispatch_any_ecall [of ?c ecall "encode32 i" sz] unfolding xy by metis
  then have "sys_inv True True t" using no_ecall.execute_inv [OF isa_ok_inv(1) [OF assms(1)]] f(3) by (metis snd_conv)
  with t show ?thesis using isa_ok_inv(4) [OF assms(1)] by (auto simp: isa_ok_def kept_def)
qed

lemma isa_ok_adv: "isa_ok t \<Longrightarrow> isa_ok (adv t)"
  using py_keepsD [where P = "sys_inv True True", OF keeps_advance, of t]
  by (auto simp: isa_ok_def advance_adv) (simp_all add: adv_def)

lemma pc_word: "isa_ok s \<Longrightarrow> uint (w32 (pc (cpu s))) = pc (cpu s)"
  by (rule reg_word [OF isa_ok_inv(5), symmetric])

lemma fetch_bytes:
  assumes "isa_ok s" "mem_read (mem_of s) (pc (cpu s)) 4 = Some bs"
  shows "fetch_word s = (Inr (le_int bs), s)" "fits 32 (le_int bs)"
proof -
  let ?p = "pc (cpu s)"
  note v = mem_read_valid [OF assms(2)]
  have b: "bs = [sbyte s ?p, sbyte s (?p + 1), sbyte s (?p + 2), sbyte s (?p + 3)]"
    using v(2) by (simp add: upt_rec numeral_eq_Suc)
  show "fetch_word s = (Inr (le_int bs), s)"
    using load_word_plain [OF plain_everywhere [OF isa_ok_inv(3,4) [OF assms(1)]] v(1)] unfolding b le_int_bytes fetch_word_def by simp
  show "fits 32 (le_int bs)" unfolding b le_int_bytes by (rule fits_word_bytes)
qed

lemma fetch_isa:
  assumes "isa_ok s" "isa_fetch (arch_of s) sz i"
  shows "\<exists>w. fetch_word s = (Inr w, s) \<and> fetched sz i w"
proof -
  obtain bs where bs: "mem_read (mem_of s) (pc (cpu s)) 4 = Some bs" "wf_inst i"
      "sz = 4 \<and> le_int bs = encode32 i \<or> sz = 2 \<and> rvc_table (le_int bs AND 0xFFFF) = Some i"
    using assms(2) rvc_table_wf pc_word [OF assms(1)] by (auto elim!: isa_fetchE)
  then show ?thesis using fetch_bytes [OF assms(1) bs(1)] by (auto simp: fetched_def)
qed

lemma fast_step_fetched:
  assumes "isa_ok s" "fetch_word s = (Inr w, s)"
  shows "fast_step ecall () s = py_then (execute ecall w) advance_pc s"
  using assms(2) isa_ok_inv(2) [OF assms(1)] by (simp add: fast_step_def py_bind_def py_then_def execute_fetched_execute)

lemma isa_simulates:
  assumes "isa_ok s" "isa_step (arch_of s) a"
  shows "\<exists>s'. fast_step ecall () s = (Inr (), s') \<and> arch_of s' = a \<and> isa_ok s'"
proof -
  obtain sz i where st: "isa_fetch (arch_of s) sz i" "isa_exec sz i (arch_of s) = Some a" using assms(2) by (rule isa_stepE)
  obtain w where w: "fetch_word s = (Inr w, s)" "fetched sz i w" using fetch_isa [OF assms(1) st(1)] by blast
  obtain t where "execute ecall w s = (Inr (), t)" "arch_of (adv t) = a" "isa_ok t" using isa_execute [OF assms(1) st(2) w(2)] by blast
  then show ?thesis
    unfolding fast_step_fetched [OF assms(1) w(1)] by (auto simp: py_then_def py_bind_def advance_adv isa_ok_adv)
qed

section \<open>Access faults\<close>

lemma mem_read_invalid:
  assumes "mem_read (mem_of s) a n = None"
  shows "\<not> safe_valid (ram s) a n"
proof
  assume "safe_valid (ram s) a n"
  then have "\<forall>k < n. safe_valid (ram s) (a + int k) 1" by (auto simp: safe_valid_def)
  then have "list_all (\<lambda>k. mem_of s (a + int k) \<noteq> None) [0..<n]" by (simp add: mem_of_def list_all_iff)
  then show False using assms by (simp add: mem_read_def)
qed

lemma exec_loads_bad:
  assumes "funct3 \<in> {0, 1, 2, 4, 5}" "a = (registers (cpu s) rs1 + imm_i j) AND 0xFFFFFFFF"
    "plain_word s a" "\<not> safe_valid (ram s) a (access_bytes funct3)"
  shows "exec_loads j sz rd funct3 rs1 rs2 f7 s = (Inl (MemoryAccessError (OutOfBounds a (int (access_bytes funct3)))), s)"
  using assms by (auto simp: exec_loads_def access_bytes_def load_byte_bad load_half_bad load_word_bad plain_word_def py_bind_def Let_def)

lemma exec_stores_bad:
  assumes "funct3 \<in> {0, 1, 2}" "a = (registers (cpu s) rs1 + imm_s j) AND 0xFFFFFFFF"
    "plain_word s a" "\<not> safe_valid (ram s) a (access_bytes funct3)"
  shows "exec_stores j sz rd funct3 rs1 rs2 f7 s = (Inl (MemoryAccessError (OutOfBounds a (int (access_bytes funct3)))), s)"
  using assms by (auto simp: exec_stores_def access_bytes_def store_byte_bad store_half_bad store_word_bad plain_word_def py_bind_def
      py_then_def Let_def)

lemma dispatch_raises:
  assumes "decode_fields i = (opc, rd, f3, rs1, rs2, f7)" "opcode_handler ecall opc = Some h"
    "h i sz rd f3 rs1 rs2 f7 (s\<lparr>cpu := (cpu s)\<lparr>next_pc := (pc (cpu s) + sz) AND 0xFFFFFFFF\<rparr>\<rparr>) = (Inl e, t)"
  shows "dispatch ecall i sz (decode_fields i) s = (Inl e, t)"
  using assms by (simp add: dispatch_def py_then_def py_bind_def py_modify_def on_cpu_def py_zoom_def)

lemma dispatch_access_fault:
  assumes "wf_inst i" "access_of i (arch_of s) = Some (addr, n)" "\<not> safe_valid (ram s) addr n" "checked s" "mmio_ranges s = []"
  shows "\<exists>c. dispatch ecall (encode32 i) sz (decode_fields (encode32 i)) s =
    (Inl (MemoryAccessError (OutOfBounds addr (int n))), s\<lparr>cpu := (cpu s)\<lparr>next_pc := c\<rparr>\<rparr>)"
proof -
  have p: "checked (s\<lparr>cpu := c\<rparr>)" "mmio_ranges (s\<lparr>cpu := c\<rparr>) = []" for c using assms(4,5) by simp_all
  note pl = plain_everywhere [OF p]
  show ?thesis
  proof (cases i)
    case (IType op rd f3 rs1 imm)
    then have a: "op = 0x03" "f3 \<in> {0, 1, 2, 4, 5}" "addr = uint (w32 (registers (cpu s) rs1) + w32 imm)" "n = access_bytes f3"
      using assms(2) by (simp_all split: if_splits)
    note d = decode_I(1,2) [OF assms(1) [unfolded IType], folded IType]
    show ?thesis
      using exec_loads_bad [OF a(2) _ pl, where j = "encode32 i"] assms(3) a d(2)
      by (intro exI dispatch_raises [where h = exec_loads, OF d(1)]) (simp_all del: encode32.simps add: opcode_handler_def reg_addr)
  next
    case (SType f3 rs1 rs2 imm)
    then have a: "f3 \<in> {0, 1, 2}" "addr = uint (w32 (registers (cpu s) rs1) + w32 imm)" "n = access_bytes f3"
      using assms(2) by (simp_all split: if_splits)
    have d: "decode_fields (encode32 i) = (0x23, fld 4 0 imm, f3, rs1, rs2, fld 11 5 imm)" "imm_s (encode32 i) = imm"
      using decode_SType(1) imm_s_encode assms(1) SType by (simp_all del: encode32.simps)
    show ?thesis
      using exec_stores_bad [OF a(1) _ pl, where j = "encode32 i"] assms(3) a d(2)
      by (intro exI dispatch_raises [where h = exec_stores, OF d(1)]) (simp_all del: encode32.simps add: opcode_handler_def reg_addr)
  qed (use assms(2) in simp_all)
qed

lemma execute_access_fault:
  assumes "isa_ok s" "fetched sz i w" "access_of i (arch_of s) = Some (addr, n)" "mem_read (mem_of s) addr n = None"
  shows "\<exists>t. execute ecall w s = (Inl (MemoryAccessError (OutOfBounds addr (int n))), t) \<and> arch_of t = arch_of s \<and> kept s t"
proof -
  obtain x y where xy: "execute ecall w s = dispatch ecall (encode32 i) sz (decode_fields (encode32 i))
      (s\<lparr>cpu := (cpu s)\<lparr>decode_cache := x, decode_cache_compressed := y\<rparr>\<rparr>)"
    using fetched_dispatch [OF assms(1,2)] by blast
  let ?s1 = "s\<lparr>cpu := (cpu s)\<lparr>decode_cache := x, decode_cache_compressed := y\<rparr>\<rparr>"
  have "arch_of ?s1 = arch_of s" by (simp add: arch_of_def)
  then obtain c where "execute ecall w s = (Inl (MemoryAccessError (OutOfBounds addr (int n))), ?s1\<lparr>cpu := (cpu ?s1)\<lparr>next_pc := c\<rparr>\<rparr>)"
    using dispatch_access_fault [of i ?s1 addr n ecall sz] assms(2,3) mem_read_invalid [OF assms(4)] isa_ok_inv(3,4) [OF assms(1)] xy
    by (auto simp del: encode32.simps simp: fetched_def)
  then show ?thesis by (simp add: arch_of_def kept_def)
qed

lemma isa_faults:
  assumes "isa_ok s" "isa_fault (arch_of s) addr n"
  shows "\<exists>s'. fast_step ecall () s = (Inl (MemoryAccessError (OutOfBounds addr (int n))), s') \<and> arch_of s' = arch_of s"
  using assms(2)
proof (cases rule: isa_fault.cases)
  case fetch
  have "\<not> safe_valid (ram s) (pc (cpu s)) 4" using fetch mem_read_invalid [of s] pc_word [OF assms(1)] by simp
  then have "fetch_word s = (Inl (MemoryAccessError (OutOfBounds addr (int n))), s)"
    using fetch load_word_bad [OF plain_everywhere [OF isa_ok_inv(3,4) [OF assms(1)]]] pc_word [OF assms(1)] by (simp add: fetch_word_def)
  then show ?thesis by (simp add: fast_step_def py_bind_def)
next
  case (access sz i)
  obtain w where w: "fetch_word s = (Inr w, s)" "fetched sz i w" using fetch_isa [OF assms(1) access(1)] by blast
  show ?thesis
    using execute_access_fault [OF assms(1) w(2) access(2), of ecall] access(3)
    unfolding fast_step_fetched [OF assms(1) w(1)] by (auto simp: py_then_def py_bind_def)
qed

section \<open>Runs\<close>

text \<open>
  Forward simulation of a loop with a local variable: from states that satisfy an invariant the body follows every
  abstract step, so an abstract run of \<open>n\<close> steps is a concrete one of \<open>n\<close> iterations, and the loop goes on from its
  last state. The invariant \<open>ok n\<close> may depend on the number of iterations still to come. Where the abstract machine
  stops with an exception the concrete one raises it.
\<close>

locale forward_simulation =
  fixes body :: "'l \<Rightarrow> ('s, 'l) py" and astep :: "'a \<Rightarrow> 'a \<Rightarrow> bool" and abstr :: "'s \<Rightarrow> 'a" and ok :: "nat \<Rightarrow> 's \<Rightarrow> bool"
  assumes follows: "ok (Suc n) s \<Longrightarrow> astep (abstr s) a \<Longrightarrow> \<exists>l' s'. body l s = (Inr l', s') \<and> abstr s' = a \<and> ok n s'"
begin

lemma follows_run:
  "ok n s \<Longrightarrow> (astep ^^ n) (abstr s) a \<Longrightarrow> \<exists>l' s'. py_iter body n l s = Inr (l', s') \<and> abstr s' = a \<and> ok 0 s'"
proof (induction n arbitrary: l s)
  case (Suc n)
  then obtain b where b: "astep (abstr s) b" "(astep ^^ n) b a" by (meson relpowp_Suc_E2)
  obtain l1 s1 where "body l s = (Inr l1, s1)" "abstr s1 = b" "ok n s1" using follows [OF Suc.prems(1) b(1)] by blast
  then show ?case using Suc.IH [of s1 l1] b(2) by simp
qed simp

lemma follows_forever:
  assumes "ok n s" "(astep ^^ n) (abstr s) a"
  shows "\<exists>l' s'. py_iter body n l s = Inr (l', s') \<and> abstr s' = a \<and> ok 0 s' \<and> py_forever body l s = py_forever body l' s'"
proof -
  obtain l' s' where "py_iter body n l s = Inr (l', s')" "abstr s' = a" "ok 0 s'" using follows_run [OF assms] by blast
  then show ?thesis using py_forever_iter [of body l s n] by auto
qed

end

locale stopping_simulation = forward_simulation body astep abstr ok
  for body :: "'l \<Rightarrow> ('s, 'l) py" and astep :: "'a \<Rightarrow> 'a \<Rightarrow> bool" and abstr :: "'s \<Rightarrow> 'a" and ok :: "nat \<Rightarrow> 's \<Rightarrow> bool" +
  fixes stops :: "'a \<Rightarrow> exn \<Rightarrow> 'a \<Rightarrow> bool"
  assumes raises: "ok 0 s \<Longrightarrow> stops (abstr s) e b \<Longrightarrow> \<exists>s'. body l s = (Inl e, s') \<and> abstr s' = b"
begin

lemma stops_forever:
  assumes "ok n s" "(astep ^^ n) (abstr s) a" "stops a e b"
  shows "\<exists>s'. py_forever body l s = Some (e, s') \<and> abstr s' = b"
proof -
  obtain l' t where t: "abstr t = a" "ok 0 t" "py_forever body l s = py_forever body l' t" using follows_forever [OF assms(1,2)] by blast
  then obtain s' where "body l' t = (Inl e, s')" "abstr s' = b" using raises [of t e b l'] assms(3) by auto
  with t(3) show ?thesis by (subst (asm) (2) py_forever.simps) auto
qed

end

interpretation isa: stopping_simulation "fast_step ecall" isa_step arch_of "\<lambda>_. isa_ok"
    "\<lambda>a e b. b = a \<and> (\<exists>addr n. e = MemoryAccessError (OutOfBounds addr (int n)) \<and> isa_fault a addr n)"
  for ecall :: "('h sys, unit) py option"
  by unfold_locales (use isa_simulates isa_faults in \<open>simp, blast\<close>)+

lemma run_fast_forever: "run_fast ecall = py_forever (fast_step ecall) ()"
  by (simp add: run_fast_def fast_step_def)

section \<open>Properties\<close>

definition isa_demo :: "unit msys" where
  "isa_demo = (demo_msys SafeRAM True ())\<lparr>ram := (demo_ram SafeRAM)
     \<lparr>memory := [0x93, 0x00, 0x50, 0x00, 0x85, 0x00, 0x03, 0xA1, 0xC0, 0x7F] @ replicate 10 0\<rparr>\<rparr>"

text \<open>C3. The execution loop implements the instruction set: from a state of the invariant with the C extension, in checked
  memory without peripherals, every run of \<open>n\<close> steps of the abstract machine (RV32IM, the atomic read-modify-write
  operations and compressed instructions) is a run of \<open>n\<close> iterations of the fast loop, to a state with the same registers, program counter
  and memory from which the loop goes on, whatever the decode caches hold and also if the program modifies itself.\<close>

theorem isa_run_refines:
  assumes "sys_inv True True s" "checked s" "mmio_ranges s = []" "registers (cpu s) 0 = 0"
    "(isa_step ^^ n) (arch_of s) a"
  shows "\<exists>s'. py_iter (fast_step ecall) n () s = Inr ((), s') \<and> arch_of s' = a \<and> sys_inv True True s' \<and>
    run_fast ecall s = run_fast ecall s'"
  using isa.follows_forever [of s n a ecall "()"] assms unfolding run_fast_forever by (auto simp: isa_ok_def)

lemma isa_demo_ok:
  "sys_inv True True isa_demo" "checked isa_demo" "mmio_ranges isa_demo = []" "registers (cpu isa_demo) 0 = 0"
proof -
  show "sys_inv True True isa_demo"
    using demo_msys_inv [of True True SafeRAM "()"]
    by (simp add: isa_demo_def demo_msys_def sys_inv_def ram_wf_def demo_ram_def)
  show "checked isa_demo" by (simp add: isa_demo_def checked_def ram_wf_def demo_ram_def)
qed (simp_all add: isa_demo_def demo_msys_def demo_sys_def CPU_init_def)

definition isa_demo_end :: arch where
  "isa_demo_end = (arch_of isa_demo)\<lparr>xreg := (xreg (arch_of isa_demo))(1 := 6), apc := 6\<rparr>"

lemma isa_demo_fetch:
  "isa_fetch (arch_of isa_demo) 4 (IType 0x13 1 0 0 5)"
  "isa_fetch ((arch_of isa_demo)\<lparr>xreg := x, apc := 4\<rparr>) 2 (IType 0x13 1 0 1 1)"
  "isa_fetch ((arch_of isa_demo)\<lparr>xreg := x, apc := 6\<rparr>) 4 (IType 0x03 2 2 1 0x7FC)"
proof -
  have m: "mem_read (mem_of isa_demo) 0 4 = Some [0x93, 0x00, 0x50, 0x00]" "mem_read (mem_of isa_demo) 4 4 = Some [0x85, 0x00, 0x03, 0xA1]"
    "mem_read (mem_of isa_demo) 6 4 = Some [0x03, 0xA1, 0xC0, 0x7F]" "pc (cpu isa_demo) = 0"
    by code_simp+
  have c: "rvc_table (le_int [0x85, 0x00, 0x03, 0xA1] AND 0xFFFF) = Some (IType 0x13 1 0 1 1)"
    "le_int [0x93, 0x00, 0x50, 0x00] = encode32 (IType 0x13 1 0 0 5)" "wf_inst (IType 0x13 1 0 0 5)"
    "le_int [0x03, 0xA1, 0xC0, 0x7F] = encode32 (IType 0x03 2 2 1 0x7FC)" "wf_inst (IType 0x03 2 2 1 0x7FC)"
    by code_simp+
  show "isa_fetch (arch_of isa_demo) 4 (IType 0x13 1 0 0 5)"
    using m by (intro isa_fetch.full [OF _ c(2,3)]) simp
  show "isa_fetch ((arch_of isa_demo)\<lparr>xreg := x, apc := 4\<rparr>) 2 (IType 0x13 1 0 1 1)"
    using m by (intro isa_fetch.compressed [OF _ c(1)]) simp
  show "isa_fetch ((arch_of isa_demo)\<lparr>xreg := x, apc := 6\<rparr>) 4 (IType 0x03 2 2 1 0x7FC)"
    using m by (intro isa_fetch.full [OF _ c(4,5)]) simp
qed

lemma isa_demo_run: "(isa_step ^^ 2) (arch_of isa_demo) isa_demo_end"
proof -
  let ?b = "(arch_of isa_demo)\<lparr>xreg := (xreg (arch_of isa_demo))(1 := 5), apc := 4\<rparr>"
  have p: "apc (arch_of isa_demo) = 0" "xreg (arch_of isa_demo) 0 = 0" by code_simp+
  have "isa_step (arch_of isa_demo) ?b"
    by (rule isa_step.step [OF isa_demo_fetch(1)]) (use p in \<open>simp add: itype_spec_def wr_def Let_def\<close>)
  moreover have "isa_step ?b isa_demo_end"
    by (rule isa_step.step [OF isa_demo_fetch(2)]) (simp add: itype_spec_def wr_def Let_def isa_demo_end_def)
  ultimately show ?thesis by (auto simp: numeral_2_eq_2)
qed

theorem isa_run_refines_witness:
  "\<exists>s'. py_iter (fast_step None) 2 () isa_demo = Inr ((), s') \<and> arch_of s' = isa_demo_end \<and> sys_inv True True s' \<and>
    run_fast None isa_demo = run_fast None s'"
  using isa_run_refines [OF isa_demo_ok isa_demo_run] .

text \<open>C8. A run that leaves the memory stops there: in checked memory without peripherals, with the C extension, if the abstract machine reaches after \<open>n\<close> steps a state whose next fetch,
  load or store leaves the memory, the fast loop ends with the exception that names the address and the width of the access,
  and the registers, the program counter and the memory are those of that state.\<close>

theorem isa_run_faults:
  assumes "sys_inv True True s" "checked s" "mmio_ranges s = []" "registers (cpu s) 0 = 0"
    "(isa_step ^^ n) (arch_of s) a" "isa_fault a addr k"
  shows "\<exists>s'. run_fast ecall s = Some (MemoryAccessError (OutOfBounds addr (int k)), s') \<and> arch_of s' = a"
  using isa.stops_forever [where l = "()" and s = s and n = n and a = a and b = a and ecall = ecall] assms unfolding run_fast_forever by (auto simp: isa_ok_def)

lemma isa_demo_fault: "isa_fault isa_demo_end 0x802 4"
proof -
  have "mem_read (mem_of isa_demo) 0x802 4 = None" by code_simp
  then show ?thesis
    unfolding isa_demo_end_def by (intro isa_fault.access [OF isa_demo_fetch(3)]) (simp_all add: access_bytes_def)
qed

theorem isa_run_faults_witness:
  "\<exists>s'. run_fast None isa_demo = Some (MemoryAccessError (OutOfBounds 0x802 (int 4)), s') \<and> arch_of s' = isa_demo_end"
  using isa_run_faults [OF isa_demo_ok isa_demo_run isa_demo_fault] .

end
