(* ===== verification/Isa_Complete.thy ===== *)
theory Isa_Complete
  imports Isa_Step
begin

text \<open>
  The other direction of \<open>Isa_Step\<close>: what the emulator does with a word that encodes no instruction, and that each iteration
  of the execution loop is a step of the abstract machine, an access fault, an illegal instruction or an instruction the
  abstract machine leaves out. \<open>disasm\<close> inverts the encoding of the manual on every word.
\<close>

unbundle bit_operations_syntax

section \<open>Illegal instructions\<close>

text \<open>The words that encode an instruction of RV32IMA, Zicsr, Zifencei or one of \<open>ECALL\<close>, \<open>EBREAK\<close>, \<open>MRET\<close> and \<open>WFI\<close>.
  (Fields that the manual reserves or tells to ignore in them, such as \<open>rs2\<close> of \<open>LR.W\<close>, are not looked at.)\<close>

definition AMO_OPS :: "int list" where
  "AMO_OPS = [0x02, 0x03, 0x01, 0x00, 0x04, 0x0C, 0x08, 0x10, 0x14, 0x18, 0x1C]"

definition legal32 :: "int \<Rightarrow> bool" where
  "legal32 w =
     (let op = fld 6 0 w; f3 = fld 14 12 w; f7 = fld 31 25 w in
      op = 0x33 \<and> rtype_spec f3 f7 0 0 \<noteq> None \<or> op = 0x13 \<and> itype_spec f3 f7 0 0 \<noteq> None \<or>
      op = 0x03 \<and> f3 \<in> {0, 1, 2, 4, 5} \<or> op = 0x23 \<and> f3 \<in> {0, 1, 2} \<or>
      op = 0x63 \<and> branch_spec f3 0 0 \<noteq> None \<or> op = 0x37 \<or> op = 0x17 \<or> op = 0x6F \<or>
      op = 0x67 \<and> f3 = 0 \<or> op = 0x0F \<and> f3 \<in> {0, 1} \<or>
      op = 0x2F \<and> f3 = 2 \<and> fld 31 27 w \<in> set AMO_OPS \<or> op = 0x73 \<and> (f3 \<notin> {0, 4} \<or> w \<in> {0x00000073, 0x00100073, 0x30200073, 0x10500073}))"

text \<open>The 32-bit form of the instruction in a fetched word, if there is one, whether the word is illegal, and what is then
  reported: the half-word where there is no 32-bit form.\<close>

definition expanded :: "int \<Rightarrow> int option" where
  "expanded w = (if w AND 3 = 3 then Some w else map_option encode32 (rvc_table (w AND 0xFFFF)))"

definition illegal :: "int \<Rightarrow> bool" where
  "illegal w \<longleftrightarrow> (case expanded w of Some x \<Rightarrow> \<not> legal32 x | None \<Rightarrow> True)"

definition reported :: "int \<Rightarrow> int" where
  "reported w = (case expanded w of Some x \<Rightarrow> x | None \<Rightarrow> w AND 0xFFFF)"

lemma spec_undefined:
  "rtype_spec f3 f7 0 0 = None \<Longrightarrow> rtype_spec f3 f7 a b = None"
  "itype_spec f3 f7 0 0 = None \<Longrightarrow> itype_spec f3 f7 a b = None"
  "branch_spec f3 0 0 = None \<Longrightarrow> branch_spec f3 a b = None"
  by (auto simp: rtype_spec_def itype_spec_def branch_spec_def split: if_splits)

lemma fits_f3: "fits 3 (fld 14 12 w)"
  by (rule fits_fld) simp

text \<open>The instructions whose format is that of their opcode, outside the atomics and the system instructions.\<close>

fun formatted :: "rv_inst \<Rightarrow> bool" where
  "formatted (IType op rd f3 rs1 imm) \<longleftrightarrow> op \<in> {0x13, 0x03, 0x67, 0x0F}"
| "formatted (RType op rd f3 rs1 rs2 f7) \<longleftrightarrow> op = 0x33"
| "formatted (UType op rd imm) \<longleftrightarrow> op \<in> {0x37, 0x17}"
| "formatted _ \<longleftrightarrow> True"

lemma rvc_formatted: "rvc_table c = Some i \<Longrightarrow> i \<noteq> IType 0x73 0 0 0 1 \<Longrightarrow> formatted i"
  unfolding rvc_table_def Let_def by (auto split: if_splits)

lemma decoded_fields:
  assumes "decode_fields w = (op, rd, f3, rs1, rs2, f7)"
  shows "fld 6 0 w = op" "fld 14 12 w = f3" "fld 31 25 w = f7"
  using assms by (simp_all add: decode_fields_fld)

lemma rvc_not_atomic:
  assumes "rvc_table c = Some i"
  shows "fld 6 0 (encode32 i) \<noteq> 0x2F"
proof (cases "i = IType 0x73 0 0 0 1")
  case False
  then have f: "formatted i" "wf_inst i" using rvc_formatted rvc_table_wf assms by blast+
  show ?thesis
  proof (cases i)
    case (IType op rd f3 rs1 imm)
    then show ?thesis using f decoded_fields(1) [OF decode_I(1), of op rd f3 rs1 imm] by (auto simp del: encode32.simps)
  next
    case (RType op rd f3 rs1 rs2 f7)
    then show ?thesis using f decoded_fields(1) [OF decode_RType, of op rd f3 rs1 rs2 f7] by (auto simp: wf_opcode_def simp del: encode32.simps)
  qed (use f in \<open>auto simp: fld_def wf_opcode_def take_bit_push_bit\<close>)
qed (simp add: fld_def)

text \<open>The cause and the value of the trap: an atomic looks at the alignment of its address before its operation.\<close>

definition illegal_trap :: "int \<Rightarrow> cpu \<Rightarrow> int \<times> int" where
  "illegal_trap w c =
     (let addr = registers c (fld 19 15 w)
      in if fld 6 0 w = 0x2F \<and> fld 14 12 w = 2 \<and> addr AND 3 \<noteq> 0 then (6, addr) else (2, w))"

definition enter_illegal :: "int \<Rightarrow> ('h sys, unit) py" where
  "enter_illegal w s = (case illegal_trap w (cpu s) of (cause, tval) \<Rightarrow> on_cpu (trap cause tval True) s)"

lemma illegal_amo:
  assumes "\<not> legal32 w" "cpu_ranges (cpu s)" "fld 6 0 w = 0x2F"
  shows "exec_AMO w sz rd (fld 14 12 w) (fld 19 15 w) rs2 f7 s = enter_illegal w s"
proof -
  have a: "registers (cpu s) (fld 19 15 w) AND 0xFFFFFFFF = registers (cpu s) (fld 19 15 w)"
    using cpu_ranges_reg [OF assms(2), of "fld 19 15 w"] uint_and_mask by metis
  have f: "drop_bit 27 w AND 0x1F = fld 31 27 w" by (simp add: fld_def take_bit_eq_mask mask_eq_exp_minus_1)
  have "fld 14 12 w = 2 \<Longrightarrow> fld 31 27 w \<notin> set AMO_OPS" using assms(1,3) by (auto simp: legal32_def Let_def)
  then have "fld 14 12 w = 2 \<Longrightarrow> fld 31 27 w \<noteq> 2 \<and> fld 31 27 w \<noteq> 3 \<and> amo_new (fld 31 27 w) x y = None" for x y
    by (auto simp: AMO_OPS_def amo_new_def)
  then show ?thesis using assms(3) by (simp add: exec_AMO_def enter_illegal_def illegal_trap_def Let_def a f)
qed

lemma illegal_handler:
  assumes "\<not> legal32 w" "fits 32 w" "cpu_ranges (cpu s)"
    "opcode_handler ecall (fld 6 0 w) = Some h"
  shows "h w sz (fld 11 7 w) (fld 14 12 w) (fld 19 15 w) (fld 24 20 w) (fld 31 25 w) s = enter_illegal w s"
proof (cases "fld 6 0 w = 0x2F")
  case True
  then show ?thesis using assms(4) illegal_amo [OF assms(1,3) True] by (simp add: opcode_handler_def)
next
  case False
  then have t: "enter_illegal w s = on_cpu (trap 2 w True) s" by (simp add: enter_illegal_def illegal_trap_def Let_def)
  let ?op = "fld 6 0 w" and ?f3 = "fld 14 12 w" and ?f7 = "fld 31 25 w"
  have sys: "?op = 0x73 \<Longrightarrow> ?f3 = 0 \<or> ?f3 = 4" "?op = 0x73 \<Longrightarrow> w \<notin> {0x00000073, 0x00100073, 0x30200073, 0x10500073}"
    using assms(1) by (auto simp: legal32_def)
  have cpu: "?op = 0x33 \<Longrightarrow> exec_Rtype w sz rd ?f3 rs1 rs2 ?f7 (cpu s) = trap 2 w True (cpu s)"
    "?op = 0x13 \<Longrightarrow> exec_Itype w sz rd ?f3 rs1 rs2 ?f7 (cpu s) = trap 2 w True (cpu s)"
    "?op = 0x63 \<Longrightarrow> exec_branches w sz rd ?f3 rs1 rs2 ?f7 (cpu s) = trap 2 w True (cpu s)" for rd rs1 rs2
    using assms(1) exec_Rtype_refines [OF assms(3) fits_f3] exec_Itype_refines [OF assms(3,2) fits_f3]
      exec_branches_refines [OF assms(3) fits_f3]
    by (simp_all add: legal32_def spec_undefined)
  have on: "f (cpu s) = g (cpu s) \<Longrightarrow> on_cpu f s = on_cpu g s" for f g by (simp add: on_cpu_def py_zoom_def)
  show ?thesis
    using assms(1,4) sys cpu False unfolding t
    by (auto simp: opcode_handler_def legal32_def exec_loads_def exec_stores_def exec_JALR_def exec_MISCMEM_def
      exec_SYSTEM_def Let_def split: if_splits intro!: on)
qed

lemma illegal_dispatch:
  assumes "\<not> legal32 w" "fits 32 w" "cpu_ranges (cpu s)" "registers (cpu s) 0 = 0"
  shows "dispatch ecall w sz (decode_fields w) s =
    enter_illegal w (s\<lparr>cpu := (cpu s)\<lparr>next_pc := (pc (cpu s) + sz) AND 0xFFFFFFFF\<rparr>\<rparr>)"
proof -
  let ?s = "s\<lparr>cpu := (cpu s)\<lparr>next_pc := (pc (cpu s) + sz) AND 0xFFFFFFFF\<rparr>\<rparr>"
  have r: "cpu_ranges (cpu ?s)" using assms(3) by (simp add: cpu_ranges_def)
  have "opcode_handler ecall (fld 6 0 w) = None \<Longrightarrow> enter_illegal w ?s = on_cpu (trap 2 w True) ?s"
    by (auto simp: opcode_handler_def enter_illegal_def illegal_trap_def Let_def split: if_splits)
  then have "(case opcode_handler ecall (fld 6 0 w) of
      Some h \<Rightarrow> h w sz (fld 11 7 w) (fld 14 12 w) (fld 19 15 w) (fld 24 20 w) (fld 31 25 w)
    | None \<Rightarrow> on_cpu (trap 2 w True)) ?s = enter_illegal w ?s"
    using illegal_handler [OF assms(1,2) r] by (cases "opcode_handler ecall (fld 6 0 w)") auto
  moreover have "registers (trap_state cause tval True (cpu ?s)) = registers (cpu s)" for cause tval
    by (simp add: trap_state_def set_csr_def Let_def)
  ultimately show ?thesis
    using assms(4) unfolding decode_fields_fld dispatch_def
    by (simp add: enter_illegal_def py_then_def py_bind_def py_modify_def on_cpu_def py_zoom_def set_reg_def trap_def fun_upd_idem
        split: prod.split)
qed

lemma half_word_trap: "w AND 3 \<noteq> 3 \<Longrightarrow> illegal_trap (w AND 0xFFFF) c = (2, w AND 0xFFFF)"
proof -
  have "fld 6 0 (w AND 0xFFFF) AND 3 = w AND 3" by (simp add: fld_def bits and.assoc)
  then show "w AND 3 \<noteq> 3 \<Longrightarrow> illegal_trap (w AND 0xFFFF) c = (2, w AND 0xFFFF)" by (auto simp: illegal_trap_def Let_def)
qed

lemma reported_trap:
  assumes "fits 32 w"
  shows "illegal_trap (reported w) c = (if fld 6 0 w = 0x2F \<and> fld 14 12 w = 2 \<and> registers c (fld 19 15 w) AND 3 \<noteq> 0
    then (6, registers c (fld 19 15 w)) else (2, reported w))"
proof (cases "w AND 3 = 3")
  case True
  then show ?thesis by (simp add: reported_def expanded_def illegal_trap_def Let_def)
next
  case False
  have "fld 6 0 w AND 3 = w AND 3" by (simp add: fld_def bits)
  then have "fld 6 0 w \<noteq> 0x2F" using False by auto
  moreover have "fld 6 0 (encode32 i) \<noteq> 0x2F" if "rvc_table (w AND 0xFFFF) = Some i" for i
    using rvc_not_atomic [OF that] .
  then have "illegal_trap (reported w) c = (2, reported w)"
    using False half_word_trap [OF False, of c]
    by (cases "rvc_table (w AND 0xFFFF)") (simp_all add: reported_def expanded_def illegal_trap_def [of "encode32 _"] Let_def del: encode32.simps)
  ultimately show ?thesis by simp
qed

lemma illegal_execute:
  assumes "sys_inv True True s" "registers (cpu s) 0 = 0" "fits 32 w" "illegal w"
  shows "\<exists>x y p. \<forall>ecall. execute ecall w s =
    enter_illegal (reported w) (s\<lparr>cpu := (cpu s)\<lparr>decode_cache := x, decode_cache_compressed := y, next_pc := p\<rparr>\<rparr>)"
proof -
  have inv: "rvc_enabled (cpu s)" "cpu_ranges ((cpu s)\<lparr>decode_cache := x, decode_cache_compressed := y\<rparr>)" for x y
    using sys_invD(1) [OF assms(1)] by (simp_all add: cpu_inv_def cpu_ranges_def)
  let ?s = "\<lambda>x y. s\<lparr>cpu := (cpu s)\<lparr>decode_cache := x, decode_cache_compressed := y\<rparr>\<rparr>"
  note fresh = execute_fresh [OF assms(1) inv(1), of _ w]
  consider (full) "w AND 3 = 3" | (bad) "w AND 3 \<noteq> 3" "rvc_table (w AND 0xFFFF) = None"
    | (half) i where "w AND 3 \<noteq> 3" "rvc_table (w AND 0xFFFF) = Some i" by blast
  then obtain sz x y where "\<And>ecall. execute ecall w s = (if expanded w = None then enter_illegal (reported w) s
      else dispatch ecall (reported w) sz (decode_fields (reported w)) (?s x y))"
  proof cases
    case full
    then show ?thesis using fresh that [where sz = 4 and x = "(decode_cache (cpu s))(drop_bit 2 w \<mapsto> decode_fields w)" and y = "decode_cache_compressed (cpu s)"]
      by (simp add: expanded_def reported_def)
  next
    case bad
    then show ?thesis using fresh that half_word_trap by (simp add: expanded_def reported_def enter_illegal_def)
  next
    case half
    then show ?thesis using fresh that [where sz = 2 and x = "decode_cache (cpu s)" and y = "(decode_cache_compressed (cpu s))
        (w AND 0xFFFF \<mapsto> (decode_fields (encode32 i), encode32 i))"]
      by (simp add: expanded_def reported_def)
  qed
  note ex = this
  show ?thesis
  proof (cases "expanded w")
    case None
    then have "execute ecall w s = enter_illegal (reported w) (s\<lparr>cpu := (cpu s)\<lparr>decode_cache := decode_cache (cpu s),
        decode_cache_compressed := decode_cache_compressed (cpu s), next_pc := next_pc (cpu s)\<rparr>\<rparr>)" for ecall
      using ex by simp
    then show ?thesis by blast
  next
    case (Some v)
    then have "\<not> legal32 v" "reported w = v" using assms(4) by (simp_all add: illegal_def reported_def)
    moreover have "fits 32 v" using Some assms(3) rvc_table_wf encode32_fits by (auto simp: expanded_def simp del: encode32.simps split: if_splits)
    ultimately show ?thesis
      using ex Some illegal_dispatch [of v "?s x y" _ sz] inv(2) assms(2) by (simp, blast)
  qed
qed

text \<open>C9. Illegal instructions trap: in a state of the invariant with the C extension, executing a word that is neither a 32-bit
  instruction of \<open>legal32\<close> nor a half-word of the expansion table whose 32-bit form is one (the hints that \<open>rvc.py\<close> refuses count as illegal) leaves the registers,
  the program counter and the memory as they are. With a trap vector installed it
  records the address, the cause 2 and the offending instruction, in its 32-bit form where it has one, in \<open>mepc\<close>, \<open>mcause\<close> and \<open>mtval\<close> and
  continues at the vector; without one it ends the run. The exception is an undefined word operation of the atomics with a misaligned
  address, for which cause and value are 6 and the address.\<close>

theorem illegal_traps:
  assumes "sys_inv True True s" "registers (cpu s) 0 = 0" "fits 32 w" "illegal w"
  shows "\<exists>s' cause tval.
    (cause, tval) = (if fld 6 0 w = 0x2F \<and> fld 14 12 w = 2 \<and> registers (cpu s) (fld 19 15 w) AND 3 \<noteq> 0
       then (6, registers (cpu s) (fld 19 15 w)) else (2, reported w)) \<and>
    execute ecall w s =
      (if csrs (cpu s) 0x305 = 0 then Inl (ExecutionTerminated (TrapWithoutHandler (pc (cpu s)) cause)) else Inr (), s') \<and>
    arch_of s' = arch_of s \<and> host s' = host s \<and>
    (csrs (cpu s) 0x305 \<noteq> 0 \<longrightarrow> next_pc (cpu s') = csrs (cpu s) 0x305 AND NOT 3 \<and> csrs (cpu s') 0x341 = pc (cpu s) \<and>
       csrs (cpu s') 0x342 = cause \<and> csrs (cpu s') 0x343 = tval)"
proof -
  obtain x y p where e: "execute ecall w s =
      enter_illegal (reported w) (s\<lparr>cpu := (cpu s)\<lparr>decode_cache := x, decode_cache_compressed := y, next_pc := p\<rparr>\<rparr>)"
    using illegal_execute [OF assms] by blast
  have t: "illegal_trap (reported w) (cpu s) = (if fld 6 0 w = 0x2F \<and> fld 14 12 w = 2 \<and> registers (cpu s) (fld 19 15 w) AND 3 \<noteq> 0
      then (6, registers (cpu s) (fld 19 15 w)) else (2, reported w))"
    by (rule reported_trap [OF assms(3)])
  obtain cause tval where ct: "illegal_trap (reported w) (cpu s) = (cause, tval)" by fastforce
  moreover have "illegal_trap (reported w) ((cpu s)\<lparr>decode_cache := x, decode_cache_compressed := y, next_pc := p\<rparr>) = (cause, tval)"
    using ct by (simp add: illegal_trap_def)
  ultimately show ?thesis unfolding e t [symmetric]
    by (auto simp: enter_illegal_def on_cpu_def py_zoom_def trap_def trap_state_def set_csr_def Let_def arch_of_def)
qed

theorem illegal_traps_witness:
  "(\<exists>s'. execute None 0xFFFFFFFF isa_demo = (Inl (ExecutionTerminated (TrapWithoutHandler 0 2)), s') \<and> arch_of s' = arch_of isa_demo)"
proof -
  have "csrs (cpu isa_demo) 0x305 = 0" "pc (cpu isa_demo) = 0" "illegal 0xFFFFFFFF" "fld 6 0 0xFFFFFFFF \<noteq> 0x2F" by code_simp+
  then show ?thesis
    using illegal_traps [OF isa_demo_ok(1,4), of "0xFFFFFFFF" None] by (auto simp: fits_def)
qed

section \<open>The abstract machine covers the legal instructions\<close>

text \<open>Disassembly of a 32-bit instruction.\<close>

definition disasm :: "int \<Rightarrow> rv_inst" where
  "disasm w =
     (let op = fld 6 0 w; rd = fld 11 7 w; f3 = fld 14 12 w; rs1 = fld 19 15 w; rs2 = fld 24 20 w; f7 = fld 31 25 w in
      if op = 0x33 \<or> op = 0x2F then RType op rd f3 rs1 rs2 f7
      else if op = 0x23 then SType f3 rs1 rs2 (signed_take_bit 11 (rd OR push_bit 5 f7))
      else if op = 0x63 then BType f3 rs1 rs2 (signed_take_bit 12 (push_bit 1 (fld 11 8 w) OR push_bit 5 (fld 30 25 w) OR
        push_bit 11 (fld 7 7 w) OR push_bit 12 (fld 31 31 w)))
      else if op = 0x37 \<or> op = 0x17 then UType op rd (fld 31 12 w)
      else if op = 0x6F then JType rd (signed_take_bit 20 (push_bit 1 (fld 30 21 w) OR push_bit 11 (fld 20 20 w) OR
        push_bit 12 (fld 19 12 w) OR push_bit 20 (fld 31 31 w)))
      else IType op rd f3 rs1 (signed_take_bit 11 (fld 31 20 w)))"

lemma signed_imm_range:
  fixes x :: int
  shows "- 2048 \<le> signed_take_bit 11 x" "signed_take_bit 11 x < 2048" "- 4096 \<le> signed_take_bit 12 x" "signed_take_bit 12 x < 4096"
    "- 1048576 \<le> signed_take_bit 20 x" "signed_take_bit 20 x < 1048576"
  using signed_take_bit_int_greater_eq_minus_exp [of 11 x] signed_take_bit_int_less_exp [of 11 x]
    signed_take_bit_int_greater_eq_minus_exp [of 12 x] signed_take_bit_int_less_exp [of 12 x]
    signed_take_bit_int_greater_eq_minus_exp [of 20 x] signed_take_bit_int_less_exp [of 20 x] by simp_all

lemma disasm_wf:
  assumes "w AND 3 = 3"
  shows "wf_inst (disasm w)"
proof -
  have "fld 6 0 w AND 3 = 3" using assms by (simp add: fld_def bits)
  moreover have "fits 7 (fld 6 0 w)" "fits 5 (fld 11 7 w)" "fits 3 (fld 14 12 w)" "fits 5 (fld 19 15 w)" "fits 5 (fld 24 20 w)" "fits 7 (fld 31 25 w)"
    by (rule fits_fld; simp)+
  moreover have "even (push_bit (numeral k) x)" "even (push_bit 1 x)" for k and x :: int by simp_all
  ultimately show ?thesis
    unfolding disasm_def Let_def
    by (simp only: wf_inst.simps wf_opcode_def even_signed_take_bit_iff even_or_iff signed_imm_range split: if_split) simp
qed

lemma encode_fields:
  fixes w :: int
  defines "op \<equiv> fld 6 0 w" and "rd \<equiv> fld 11 7 w" and "f3 \<equiv> fld 14 12 w" and "rs1 \<equiv> fld 19 15 w" and "rs2 \<equiv> fld 24 20 w"
    and "f7 \<equiv> fld 31 25 w"
  assumes "fits 32 w"
  shows "encode32 (IType op rd f3 rs1 (signed_take_bit 11 (fld 31 20 w))) = w"
    "encode32 (RType op rd f3 rs1 rs2 f7) = w"
    "encode32 (UType op rd (fld 31 12 w)) = w"
    "op = 0x23 \<Longrightarrow> encode32 (SType f3 rs1 rs2 (signed_take_bit 11 (rd OR push_bit 5 f7))) = w"
    "op = 0x63 \<Longrightarrow> encode32 (BType f3 rs1 rs2 (signed_take_bit 12 (push_bit 1 (fld 11 8 w) OR push_bit 5 (fld 30 25 w) OR
        push_bit 11 (fld 7 7 w) OR push_bit 12 (fld 31 31 w)))) = w"
    "op = 0x6F \<Longrightarrow> encode32 (JType rd (signed_take_bit 20 (push_bit 1 (fld 30 21 w) OR push_bit 11 (fld 20 20 w) OR
        push_bit 12 (fld 19 12 w) OR push_bit 20 (fld 31 31 w)))) = w"
proof -
  note eq = bits32I [OF _ assms(7)]
  show "encode32 (IType op rd f3 rs1 (signed_take_bit 11 (fld 31 20 w))) = w"
    unfolding assms(1-6) encode32.simps by (rule eq) ((intro fits_intros; simp) | simp add: bit_simps flip: numeral_2_eq_2)+
  show "encode32 (RType op rd f3 rs1 rs2 f7) = w"
    unfolding assms(1-6) encode32.simps by (rule eq) ((intro fits_intros; simp) | simp add: bit_simps flip: numeral_2_eq_2)+
  show "encode32 (UType op rd (fld 31 12 w)) = w"
    unfolding assms(1-6) encode32.simps by (rule eq) ((intro fits_intros; simp) | simp add: bit_simps flip: numeral_2_eq_2)+
  show "encode32 (SType f3 rs1 rs2 (signed_take_bit 11 (rd OR push_bit 5 f7))) = w" if "op = 0x23"
    unfolding encode32.simps that [symmetric] unfolding assms(1-6)
    by (rule eq) ((intro fits_intros; simp) | simp add: bit_simps flip: numeral_2_eq_2)+
  show "encode32 (BType f3 rs1 rs2 (signed_take_bit 12 (push_bit 1 (fld 11 8 w) OR push_bit 5 (fld 30 25 w) OR
        push_bit 11 (fld 7 7 w) OR push_bit 12 (fld 31 31 w)))) = w" if "op = 0x63"
    unfolding encode32.simps that [symmetric] unfolding assms(1-6)
    by (rule eq) ((intro fits_intros; simp) | simp add: bit_simps flip: numeral_2_eq_2)+
  show "encode32 (JType rd (signed_take_bit 20 (push_bit 1 (fld 30 21 w) OR push_bit 11 (fld 20 20 w) OR
        push_bit 12 (fld 19 12 w) OR push_bit 20 (fld 31 31 w)))) = w" if "op = 0x6F"
    unfolding encode32.simps that [symmetric] unfolding assms(1-6)
    by (rule eq) ((intro fits_intros; simp) | simp add: bit_simps flip: numeral_2_eq_2)+
qed

lemma disasm_encode: "fits 32 w \<Longrightarrow> encode32 (disasm w) = w"
  unfolding disasm_def Let_def using encode_fields [of w] by presburger

lemma disasm_formatted:
  assumes "legal32 w" "fld 6 0 w \<noteq> 0x2F" "fld 6 0 w \<noteq> 0x73"
  shows "formatted (disasm w)"
  using assms by (auto simp: legal32_def disasm_def Let_def)

text \<open>What is legal is executed by the abstract machine, up to faults.\<close>

definition goes :: "int \<Rightarrow> rv_inst \<Rightarrow> arch \<Rightarrow> bool" where
  "goes sz i a \<longleftrightarrow> isa_exec sz i a \<noteq> None \<or> (\<exists>addr n. access_of i a = Some (addr, n) \<and> mem_read (amem a) addr n = None)"

lemma spec_defined:
  "rtype_spec f3 f7 0 0 \<noteq> None \<Longrightarrow> rtype_spec f3 f7 x y \<noteq> None"
  "itype_spec f3 f7 0 0 \<noteq> None \<Longrightarrow> itype_spec f3 f7 x y \<noteq> None"
  "branch_spec f3 0 0 \<noteq> None \<Longrightarrow> branch_spec f3 x y \<noteq> None"
  by (auto simp: rtype_spec_def itype_spec_def branch_spec_def split: if_splits)

lemma legal_goes:
  assumes "wf_inst i" "formatted i" "legal32 (encode32 i)"
  shows "goes sz i a"
proof (cases i)
  case (IType op rd f3 rs1 imm)
  note d = decoded_fields [OF decode_I(1) [OF assms(1) [unfolded IType]]]
  show ?thesis
    using assms(2,3) spec_defined(2) [of f3 "fld 11 5 imm"] unfolding IType legal32_def d Let_def by (auto simp: goes_def Let_def)
next
  case (RType op rd f3 rs1 rs2 f7)
  then have "decode_fields (encode32 i) = (op, rd, f3, rs1, rs2, f7)" using assms(1) decode_RType by (simp del: encode32.simps add: wf_opcode_def)
  note d = decoded_fields [OF this]
  show ?thesis
    using assms(2,3) spec_defined(1) [of f3 f7] unfolding legal32_def d Let_def by (auto simp: RType goes_def)
next
  case (SType f3 rs1 rs2 imm)
  then have "decode_fields (encode32 i) = (0x23, fld 4 0 imm, f3, rs1, rs2, fld 11 5 imm)"
    using decode_SType(1) assms(1) by (simp del: encode32.simps)
  note d = decoded_fields [OF this]
  show ?thesis using assms(3) unfolding legal32_def d Let_def by (auto simp: SType goes_def Let_def)
next
  case (BType f3 rs1 rs2 imm)
  then obtain rd f7 where "decode_fields (encode32 i) = (0x63, rd, f3, rs1, rs2, f7)"
    using assms(1) decode_BType(1) [of f3 rs1 rs2 imm] unfolding wf_inst.simps by (metis wf_inst.simps(4))
  note d = decoded_fields [OF this]
  show ?thesis using assms(3) spec_defined(3) [of f3] unfolding legal32_def d Let_def by (auto simp: BType goes_def)
qed (use assms(2) in \<open>auto simp: goes_def Let_def\<close>)

text \<open>The words whose instruction the abstract machine leaves out: atomics and system instructions.\<close>

definition outside :: "int \<Rightarrow> bool" where
  "outside w \<longleftrightarrow> (case expanded w of Some x \<Rightarrow> fld 6 0 x \<in> {0x2F, 0x73} | None \<Rightarrow> False)"

lemma fetch_covers:
  assumes "isa_ok s" "fetch_word s = (Inr w, s)" "\<not> illegal w" "\<not> outside w"
  shows "\<exists>sz i. isa_fetch (arch_of s) sz i \<and> goes sz i (arch_of s)"
proof -
  let ?p = "pc (cpu s)"
  note pl = plain_everywhere [OF isa_ok_inv(3,4) [OF assms(1)], of ?p]
  have v: "safe_valid (ram s) ?p 4" using assms(2) load_word_bad [OF pl] by (auto simp: fetch_word_def)
  let ?bs = "[sbyte s ?p, sbyte s (?p + 1), sbyte s (?p + 2), sbyte s (?p + 3)]"
  have w: "w = le_int ?bs" using assms(2) load_word_plain [OF pl v] unfolding fetch_word_def le_int_bytes by simp
  have "fits 32 w" unfolding w le_int_bytes by (rule fits_word_bytes)
  have "mem_read (mem_of s) ?p 4 = Some ?bs"
    using v by (simp add: mem_read_def mem_of_def safe_valid_def upt_rec numeral_eq_Suc)
  then have m: "mem_read (amem (arch_of s)) (uint (apc (arch_of s))) 4 = Some ?bs" using pc_word [OF assms(1)] by simp
  show ?thesis
  proof (cases "w AND 3 = 3")
    case True
    then have l: "legal32 w" "fld 6 0 w \<noteq> 0x2F" "fld 6 0 w \<noteq> 0x73" using assms(3,4) by (auto simp: illegal_def outside_def expanded_def)
    note e = disasm_encode [OF \<open>fits 32 w\<close>] disasm_wf [OF True]
    have "isa_fetch (arch_of s) 4 (disasm w)" by (rule isa_fetch.full [OF m _ e(2)]) (simp only: e(1) flip: w)
    moreover have "goes 4 (disasm w) (arch_of s)" using l by (intro legal_goes e(2) disasm_formatted) (simp_all add: e(1) del: encode32.simps)
    ultimately show ?thesis by blast
  next
    case False
    then obtain i where i: "rvc_table (w AND 0xFFFF) = Some i" "legal32 (encode32 i)" "fld 6 0 (encode32 i) \<notin> {0x2F, 0x73}"
      using assms(3,4) by (auto simp: illegal_def outside_def expanded_def simp del: encode32.simps split: option.splits)
    have "i \<noteq> IType 0x73 0 0 0 1" using i(3) by (auto simp: fld_def)
    then have "goes 2 i (arch_of s)" using i(1,2) by (intro legal_goes rvc_table_wf rvc_formatted) auto
    moreover have "isa_fetch (arch_of s) 2 i" using i(1) unfolding w by (rule isa_fetch.compressed [OF m])
    ultimately show ?thesis by blast
  qed
qed

lemma isa_covers:
  assumes "isa_ok s"
  shows "(\<exists>a. isa_step (arch_of s) a) \<or> (\<exists>addr n. isa_fault (arch_of s) addr n) \<or>
    (\<exists>w. fetch_word s = (Inr w, s) \<and> (illegal w \<or> outside w))"
proof (cases "safe_valid (ram s) (pc (cpu s)) 4")
  case True
  then obtain w where w: "fetch_word s = (Inr w, s)"
    using load_word_plain [OF plain_everywhere [OF isa_ok_inv(3,4) [OF assms]]] by (simp add: fetch_word_def)
  show ?thesis
  proof (cases "illegal w \<or> outside w")
    case False
    then obtain sz i where i: "isa_fetch (arch_of s) sz i" "goes sz i (arch_of s)" using fetch_covers [OF assms w] by blast
    then show ?thesis using isa_step.step [OF i(1)] isa_fault.access [OF i(1)] unfolding goes_def by blast
  qed (use w in blast)
next
  case False
  then have "mem_read (mem_of s) (pc (cpu s)) 4 = None"
    using mem_read_valid(1) [of s "pc (cpu s)" 4] by (cases "mem_read (mem_of s) (pc (cpu s)) 4") auto
  then show ?thesis using isa_fault.fetch [of "arch_of s"] pc_word [OF assms] by auto
qed

text \<open>C4. The execution loop does nothing but what the instruction set allows: in a state of the invariant with the C extension,
  in checked memory without peripherals, each iteration is a step of the abstract machine, or an access
  fault of it, which raises and changes no register, program counter or byte, or the instruction is illegal, or it is an atomic
  or system instruction.\<close>

theorem fast_step_covered:
  assumes "sys_inv True True s" "checked s" "mmio_ranges s = []" "registers (cpu s) 0 = 0"
  shows "(\<exists>s'. fast_step ecall () s = (Inr (), s') \<and> isa_step (arch_of s) (arch_of s')) \<or>
    (\<exists>addr n s'. fast_step ecall () s = (Inl (MemoryAccessError (OutOfBounds addr (int n))), s') \<and> isa_fault (arch_of s) addr n \<and>
       arch_of s' = arch_of s) \<or>
    (\<exists>w. fetch_word s = (Inr w, s) \<and> (illegal w \<or> outside w))"
proof -
  have ok: "isa_ok s" using assms by (simp add: isa_ok_def)
  show ?thesis using isa_covers [OF ok] isa_simulates [OF ok] isa_faults [OF ok] by metis
qed

theorem fast_step_covered_witness:
  "\<exists>s'. fast_step None () isa_demo = (Inr (), s') \<and> isa_step (arch_of isa_demo) (arch_of s')"
proof -
  have "case fetch_word isa_demo of (Inr w, _) \<Rightarrow> \<not> illegal w \<and> \<not> outside w | _ \<Rightarrow> False"
    "fst (fast_step None () isa_demo) = Inr ()" by code_simp+
  then show ?thesis using fast_step_covered [OF isa_demo_ok, of None] by (auto split: prod.splits sum.splits)
qed

end
