(* ===== verification/Syscalls.thy ===== *)
theory Syscalls
  imports Machine
begin

text \<open>
  Class \<open>SyscallHandler\<close> of \<open>syscalls.py\<close>: the Newlib system calls of the guest, served by the host
  operating system.

  The host's calls are the parameter \<open>os\<close>, a record of functions on a host state \<open>'o\<close>: each returns its
  result or, as \<open>Inl\<close>, the \<open>errno\<close> of an \<open>OSError\<close>. A path is passed as the bytes of the guest's C string.
  \<open>os_input\<close> is \<open>input()\<close>, the encoded line or \<open>None\<close> at the end of the file; \<open>os_stdin\<close> is
  \<open>sys.stdin.read(1)\<close>, the code point read or \<open>None\<close> for the empty string. \<open>console\<close> collects the byte
  values written to the standard output, as Latin-1 text or raw.

  \<open>sc_logger\<close> says whether a logger is installed. Debug messages are guarded by it and are output only;
  warnings are not guarded everywhere, and \<open>None.warning\<close> is an \<open>AttributeError\<close>.
\<close>

unbundle bit_operations_syntax

section \<open>State\<close>

record 'o os =
  os_write :: "int \<Rightarrow> 8 word list \<Rightarrow> 'o \<Rightarrow> (int + int) \<times> 'o"
  os_read :: "int \<Rightarrow> int \<Rightarrow> 'o \<Rightarrow> (int + 8 word list) \<times> 'o"
  os_open :: "8 word list \<Rightarrow> int \<Rightarrow> int \<Rightarrow> 'o \<Rightarrow> (int + int) \<times> 'o"
  os_close :: "int \<Rightarrow> 'o \<Rightarrow> (int + unit) \<times> 'o"
  os_lseek :: "int \<Rightarrow> int \<Rightarrow> int \<Rightarrow> 'o \<Rightarrow> (int + int) \<times> 'o"
  os_fstat :: "int \<Rightarrow> 'o \<Rightarrow> int + int \<times> int"       \<comment> \<open>\<open>st_mode\<close>, \<open>st_size\<close>\<close>
  os_mkdir :: "8 word list \<Rightarrow> int \<Rightarrow> 'o \<Rightarrow> (int + unit) \<times> 'o"
  os_rmdir :: "8 word list \<Rightarrow> 'o \<Rightarrow> (int + unit) \<times> 'o"
  os_unlink :: "8 word list \<Rightarrow> 'o \<Rightarrow> (int + unit) \<times> 'o"
  os_input :: "'o \<Rightarrow> 8 word list option \<times> 'o"
  os_stdin :: "'o \<Rightarrow> nat option \<times> 'o"

record 'o sc_state =
  fd_map :: "int \<rightharpoonup> int"
  next_fd :: int
  umask :: int
  sc_logger :: bool
  raw_tty :: bool
  console :: "8 word list"
  os_state :: 'o

type_synonym ('o, 'a) sc = "('o sc_state msys, 'a) py"

definition SyscallHandler_init :: "int \<Rightarrow> int \<Rightarrow> int \<Rightarrow> bool \<Rightarrow> bool \<Rightarrow> 'o \<Rightarrow> 'o sc_state" where
  "SyscallHandler_init stdin stdout stderr log raw o0 =
     \<lparr>fd_map = [0 \<mapsto> stdin, 1 \<mapsto> stdout, 2 \<mapsto> stderr], next_fd = 3, umask = 18,
      sc_logger = log, raw_tty = raw, console = [], os_state = o0\<rparr>"

definition EBADF :: int where "EBADF = 9"
definition ENOTSUP :: int where "ENOTSUP = 95"
definition ENOSYS :: int where "ENOSYS = 38"
definition EEXIST :: int where "EEXIST = 17"
definition EPERM :: int where "EPERM = 1"
definition EACCES :: int where "EACCES = 13"
definition EIO :: int where "EIO = 5"
definition ENOENT :: int where "ENOENT = 2"
definition EISDIR :: int where "EISDIR = 21"

section \<open>Helpers\<close>

definition reg :: "int \<Rightarrow> 'h sys \<Rightarrow> int" where
  "reg i s = registers (cpu s) i"

definition set_a0 :: "int \<Rightarrow> ('h sys, unit) py" where
  "set_a0 v = on_cpu (set_reg 10 v)"

definition sc :: "'o sc_state msys \<Rightarrow> 'o sc_state" where
  "sc s = handler (host s)"

definition upd_sc :: "('o sc_state \<Rightarrow> 'o sc_state) \<Rightarrow> ('o, unit) sc" where
  "upd_sc f = py_modify (\<lambda>s. s\<lparr>host := (host s)\<lparr>handler := f (handler (host s))\<rparr>\<rparr>)"

text \<open>A host call: its result, with the host state updated.\<close>

definition call_os :: "('o \<Rightarrow> 'r \<times> 'o) \<Rightarrow> ('o, 'r) sc" where
  "call_os f s =
     (case f (os_state (sc s)) of
        (r, o') \<Rightarrow> (Inr r, s\<lparr>host := (host s)\<lparr>handler := (handler (host s))\<lparr>os_state := o'\<rparr>\<rparr>\<rparr>))"

definition warn :: "('o, unit) sc" where
  "warn s = (if sc_logger (sc s) then (Inr (), s) else (Inl AttributeError, s))"

definition to_signed :: "int \<Rightarrow> int" where
  "to_signed v = (if v \<ge> 0x80000000 then v - 0x100000000 else v)"

text \<open>The guard of the \<open>*at\<close> calls: only \<open>AT_FDCWD\<close>.\<close>

definition at_cwd :: "('o, unit) sc \<Rightarrow> ('o, unit) sc" where
  "at_cwd body s =
     (if to_signed (reg 10 s) \<noteq> -100 then py_then warn (set_a0 (- ENOTSUP)) s else body s)"

section \<open>System calls\<close>

definition handle_exit :: "('o, unit) sc" where
  "handle_exit s =
     (Inl (ExecutionTerminated (ExitCode (to_signed (reg 10 s)))), s\<lparr>cpu := (cpu s)\<lparr>pc := next_pc (cpu s)\<rparr>\<rparr>)"

definition handle_sbrk :: "('o, unit) sc" where
  "handle_sbrk s =
     (case (stack_bottom (mach (host s)), heap_end (mach (host s))) of
        (None, _) \<Rightarrow> (Inl InvalidSyscallError, s)
      | (Some _, None) \<Rightarrow> (Inl TypeError, s)
      | (Some bottom, Some old_heap_end) \<Rightarrow>
          let new_heap_end = old_heap_end + reg 10 s
          in if new_heap_end \<ge> bottom then set_a0 0xFFFFFFFF s
             else py_then (set_heap_end new_heap_end) (set_a0 old_heap_end) s)"

definition handle_write :: "'o os \<Rightarrow> ('o, unit) sc" where
  "handle_write os s =
     (let fd = reg 10 s; count = reg 12 s in
      py_bind (load_binary (reg 11 s) count) (\<lambda>data.
        if fd = 1 \<or> fd = 2 then
          py_then (upd_sc (\<lambda>h. h\<lparr>console := console h @ data\<rparr>)) (set_a0 count)
        else (case fd_map (sc s) fd of
                Some host_fd \<Rightarrow>
                  py_bind (call_os (os_write os host_fd data)) (\<lambda>r.
                    case r of Inr n \<Rightarrow> set_a0 n | Inl e \<Rightarrow> py_then (set_a0 (- e)) warn)
              | None \<Rightarrow> py_then (set_a0 (- EBADF)) warn)) s)"

definition handle_read :: "'o os \<Rightarrow> ('o, unit) sc" where
  "handle_read os s =
     (let fd = reg 10 s; addr = reg 11 s; count = reg 12 s in
      (if fd = 0 then
         if \<not> raw_tty (sc s) then
           py_bind (call_os (os_input os)) (\<lambda>r.
             let data = (case r of Some line \<Rightarrow> py_slice (line @ [10]) 0 count | None \<Rightarrow> [])
             in py_then (store_binary addr data) (set_a0 (int (length data))))
         else
           py_bind (call_os (os_stdin os)) (\<lambda>r.
             case r of None \<Rightarrow> py_raise TypeError
                     | Some ch \<Rightarrow> py_then (store_byte addr (int ch)) (set_a0 1))
       else case fd_map (sc s) fd of
              Some host_fd \<Rightarrow>
                py_bind (call_os (os_read os host_fd count)) (\<lambda>r.
                  case r of Inl e \<Rightarrow> py_raise (OSError e)
                          | Inr data \<Rightarrow> py_then (store_binary addr data) (set_a0 (int (length data))))
            | None \<Rightarrow> py_then (set_a0 (- EBADF)) warn) s)"

definition install_fd :: "int \<Rightarrow> ('o, unit) sc" where
  "install_fd host_fd s =
     (let emu_fd = next_fd (sc s)
      in py_then (upd_sc (\<lambda>h. h\<lparr>fd_map := (fd_map h)(emu_fd \<mapsto> host_fd), next_fd := next_fd h + 1\<rparr>))
           (set_a0 emu_fd) s)"

text \<open>The arguments that the functions of \<open>os\<close> take as C integers; others are an \<^const>\<open>OverflowError\<close> before the call.\<close>

definition c_int :: "int \<Rightarrow> bool" where
  "c_int v \<longleftrightarrow> - (2 ^ 31) \<le> v \<and> v < 2 ^ 31"

definition handle_openat :: "'o os \<Rightarrow> ('o, unit) sc" where
  "handle_openat os = at_cwd (\<lambda>s.
     let flags = reg 12 s; mode = reg 13 s AND NOT (umask (sc s)) in
     py_bind (load_cstring (reg 11 s) 1024) (\<lambda>pathname.
       if \<not> c_int flags \<or> \<not> c_int mode then py_raise OverflowError
       else py_bind (call_os (os_open os pathname flags mode)) (\<lambda>r.
         case r of
           Inr host_fd \<Rightarrow> install_fd host_fd
         | Inl e \<Rightarrow> set_a0 (- e))) s)"

definition handle_close :: "'o os \<Rightarrow> ('o, unit) sc" where
  "handle_close os s =
     (let fd = reg 10 s in
      case fd_map (sc s) fd of
        Some host_fd \<Rightarrow>
          py_bind (call_os (os_close os host_fd)) (\<lambda>r.
            case r of Inr _ \<Rightarrow> py_then (upd_sc (\<lambda>h. h\<lparr>fd_map := (fd_map h)(fd := None)\<rparr>)) (set_a0 0)
                    | Inl e \<Rightarrow> py_then (set_a0 (- e)) warn) s
      | None \<Rightarrow> py_then (set_a0 (- EBADF)) warn s)"

definition handle_lseek :: "'o os \<Rightarrow> ('o, unit) sc" where
  "handle_lseek os s =
     (case fd_map (sc s) (reg 10 s) of
        None \<Rightarrow> py_then (set_a0 (- EBADF)) warn s
      | Some host_fd \<Rightarrow>
          if \<not> c_int (reg 12 s) then (Inl OverflowError, s)
          else py_bind (call_os (os_lseek os host_fd (reg 11 s) (reg 12 s))) (\<lambda>r.
            case r of Inr n \<Rightarrow> set_a0 n | Inl e \<Rightarrow> py_then (set_a0 (- e)) warn) s)"

text \<open>
  \<open>struct.pack_into\<close> at offsets 4 (\<open>"<I"\<close>) and 16 (\<open>"<Q"\<close>) of 88 zero bytes; a value that does not fit
  is a \<open>struct.error\<close>, here a \<^const>\<open>ValueError\<close>.
\<close>

definition stat_buf :: "int \<Rightarrow> int \<Rightarrow> 8 word list" where
  "stat_buf mode sz =
     replicate 4 0 @ word_bytes mode @ replicate 8 0 @ word_bytes sz @ word_bytes (drop_bit 32 sz) @ replicate 64 0"

definition put_stat :: "int \<Rightarrow> int \<Rightarrow> int \<Rightarrow> ('h sys, unit) py" where
  "put_stat buf_ptr mode sz =
     (if 0 \<le> mode \<and> mode < 2 ^ 32 \<and> 0 \<le> sz \<and> sz < 2 ^ 64
      then py_then (store_binary buf_ptr (stat_buf mode sz)) (set_a0 0)
      else py_raise ValueError)"

definition handle_fstat :: "'o os \<Rightarrow> ('o, unit) sc" where
  "handle_fstat os s =
     (let fd = reg 10 s; buf_ptr = reg 11 s in
      if fd = 0 \<or> fd = 1 \<or> fd = 2 then put_stat buf_ptr (0x2000 OR 0x1B6) 0 s
      else case fd_map (sc s) fd of
             Some host_fd \<Rightarrow>
               (case os_fstat os host_fd (os_state (sc s)) of
                  Inr (mode, sz) \<Rightarrow> put_stat buf_ptr mode sz s
                | Inl e \<Rightarrow> py_then (set_a0 (- e)) warn s)
           | None \<Rightarrow> py_then (set_a0 (- EBADF)) warn s)"

definition handle_isatty :: "('o, unit) sc" where
  "handle_isatty s =
     (let fd = reg 10 s in
      if fd = 0 \<or> fd = 1 \<or> fd = 2 then set_a0 1 s
      else if fd_map (sc s) fd \<noteq> None then set_a0 0 s
      else py_then (set_a0 (- EBADF)) warn s)"

definition handle_kill :: "('o, unit) sc" where
  "handle_kill = set_a0 (- ENOSYS)"

definition handle_getpid :: "('o, unit) sc" where
  "handle_getpid = set_a0 1"

definition handle_umask :: "('o, unit) sc" where
  "handle_umask s =
     (let new_mask = reg 10 s; old_mask = umask (sc s)
      in py_then (upd_sc (\<lambda>h. h\<lparr>umask := new_mask AND 0x1FF\<rparr>)) (set_a0 old_mask) s)"

definition handle_mkdirat :: "'o os \<Rightarrow> ('o, unit) sc" where
  "handle_mkdirat os = at_cwd (\<lambda>s.
     let mode = reg 12 s AND NOT (umask (sc s)) in
     py_bind (load_cstring (reg 11 s) 1024) (\<lambda>pathname.
       if \<not> c_int mode then set_a0 (- EIO)
       else py_bind (call_os (os_mkdir os pathname mode)) (\<lambda>r.
         case r of
           Inr _ \<Rightarrow> set_a0 0
         | Inl e \<Rightarrow> set_a0 (if e = EEXIST then - EEXIST else if e = EPERM \<or> e = EACCES then - EPERM else - EIO))) s)"

definition handle_unlinkat :: "'o os \<Rightarrow> ('o, unit) sc" where
  "handle_unlinkat os = at_cwd (\<lambda>s.
     let flags = reg 12 s in
     py_bind (load_cstring (reg 11 s) 1024) (\<lambda>pathname.
       py_bind (call_os (if flags AND 0x200 \<noteq> 0 then os_rmdir os pathname else os_unlink os pathname)) (\<lambda>r.
         case r of
           Inr _ \<Rightarrow> set_a0 0
         | Inl e \<Rightarrow> set_a0 (if e = ENOENT then - ENOENT else if e = EISDIR then - EISDIR
                         else if e = EPERM \<or> e = EACCES then - EPERM else - EIO))) s)"

section \<open>Dispatch\<close>

definition syscall_handler :: "'o os \<Rightarrow> int \<Rightarrow> ('o, unit) sc option" where
  "syscall_handler os n =
     (if n = 93 then Some handle_exit
      else if n = 214 then Some handle_sbrk
      else if n = 64 then Some (handle_write os)
      else if n = 63 then Some (handle_read os)
      else if n = 1024 then Some (handle_openat os)
      else if n = 57 then Some (handle_close os)
      else if n = 62 then Some (handle_lseek os)
      else if n = 80 then Some (handle_fstat os)
      else if n = 89 then Some handle_isatty
      else if n = 129 then Some handle_kill
      else if n = 172 then Some handle_getpid
      else if n = 60 then Some handle_umask
      else if n = 34 then Some (handle_mkdirat os)
      else if n = 35 then Some (handle_unlinkat os)
      else None)"

definition handle :: "'o os \<Rightarrow> ('o, unit) sc" where
  "handle os s =
     (case syscall_handler os (reg 17 s) of
        Some h \<Rightarrow> h s
      | None \<Rightarrow> (Inl InvalidSyscallError, s))"

end
