(* ===== verification/Machine_Load.thy ===== *)
theory Machine_Load
  imports Machine_Props
begin

text \<open>
  The memory image of a program: what \<open>load_elf\<close> and \<open>setup_argv\<close> leave in checked memory, and that
  loading keeps the system invariant and the options of the machine.
\<close>

unbundle bit_operations_syntax

section \<open>Loading an executable\<close>

definition bytes_at :: "'h sys \<Rightarrow> int \<Rightarrow> 8 word list \<Rightarrow> bool" where
  "bytes_at s a bs \<longleftrightarrow> (\<forall>i < length bs. sbyte s (a + int i) = bs ! i)"

definition outside :: "int \<Rightarrow> int \<times> 8 word list \<Rightarrow> bool" where
  "outside x = (\<lambda>(a, bs). x < a \<or> a + int (length bs) \<le> x)"

definition apart :: "int \<times> 8 word list \<Rightarrow> int \<times> 8 word list \<Rightarrow> bool" where
  "apart = (\<lambda>(a, bs) (b, cs). a + int (length bs) \<le> b \<or> b + int (length cs) \<le> a)"

definition loaded :: "elf_file \<Rightarrow> (int \<times> 8 word list) list" where
  "loaded elf = map snd (filter fst (segments elf))"

lemma bytes_at_cong:
  assumes "bytes_at s a bs" "\<And>x. a \<le> x \<Longrightarrow> x < a + int (length bs) \<Longrightarrow> sbyte s' x = sbyte s x"
  shows "bytes_at s' a bs"
  using assms by (simp add: bytes_at_def)

lemma bytes_at_sput:
  assumes "checked s" "safe_valid (ram s) a (length bs)"
  shows "bytes_at (sput s a bs) a bs"
  unfolding bytes_at_def
proof (intro allI impI)
  fix i assume "i < length bs"
  then show "sbyte (sput s a bs) (a + int i) = bs ! i"
    using assms sbyte_sput [OF assms, of "a + int i"] by (simp add: safe_valid_def)
qed

lemma safe_valid_sub: "safe_valid R a n \<Longrightarrow> a \<le> b \<Longrightarrow> b + int m \<le> a + int n \<Longrightarrow> safe_valid R b m"
  by (simp add: safe_valid_def)

lemma load_segments_ok:
  assumes "checked s" "\<forall>(a, bs) \<in> set (map snd (filter fst segs)). safe_valid (ram s) a (length bs)"
    "sorted_wrt apart (map snd (filter fst segs))"
  shows "\<exists>s'. load_segments segs s = (Inr (), s') \<and> checked s' \<and> cpu s' = cpu s \<and> host s' = host s \<and>
    safe_valid (ram s') = safe_valid (ram s) \<and>
    (\<forall>(a, bs) \<in> set (map snd (filter fst segs)). bytes_at s' a bs) \<and>
    (\<forall>x. safe_valid (ram s) x 1 \<longrightarrow> (\<forall>seg \<in> set (map snd (filter fst segs)). outside x seg) \<longrightarrow> sbyte s' x = sbyte s x)"
  using assms
proof (induction segs arbitrary: s)
  case Nil
  then show ?case by (simp add: py_return_def)
next
  case (Cons seg segs)
  obtain l a bs where seg: "seg = (l, a, bs)" by (cases seg)
  show ?case
  proof (cases l)
    case False
    then show ?thesis using Cons.IH [of s] Cons.prems seg by simp
  next
    case True
    let ?s1 = "sput s a bs"
    have v: "safe_valid (ram s) a (length bs)" using Cons.prems(2) seg True by auto
    have s1: "store_binary a bs s = (Inr (), ?s1)" "checked ?s1"
      using store_binary_plain [OF Cons.prems(1) v] checked_sput [OF Cons.prems(1) v] by simp_all
    have p: "\<forall>(a, bs) \<in> set (map snd (filter fst segs)). safe_valid (ram ?s1) a (length bs)"
        "sorted_wrt apart (map snd (filter fst segs))"
      using Cons.prems seg True by simp_all
    obtain s' where s': "load_segments segs ?s1 = (Inr (), s')" "checked s'" "cpu s' = cpu s" "host s' = host s"
        "safe_valid (ram s') = safe_valid (ram s)"
        "\<forall>(a, bs) \<in> set (map snd (filter fst segs)). bytes_at s' a bs"
        "\<forall>x. safe_valid (ram s) x 1 \<longrightarrow> (\<forall>seg \<in> set (map snd (filter fst segs)). outside x seg) \<longrightarrow> sbyte s' x = sbyte ?s1 x"
      using Cons.IH [OF s1(2) p] by auto
    have ap: "\<forall>seg \<in> set (map snd (filter fst segs)). apart (a, bs) seg"
      using Cons.prems(3) seg True by simp
    have at: "bytes_at s' a bs"
    proof (rule bytes_at_cong [OF bytes_at_sput [OF Cons.prems(1) v]])
      fix x assume x: "a \<le> x" "x < a + int (length bs)"
      then have "safe_valid (ram s) x 1" using v by (simp add: safe_valid_def)
      moreover have "\<forall>seg \<in> set (map snd (filter fst segs)). outside x seg"
        using ap x by (fastforce simp: apart_def outside_def)
      ultimately show "sbyte s' x = sbyte ?s1 x" using s'(7) by blast
    qed
    have fr: "sbyte s' x = sbyte s x"
      if "safe_valid (ram s) x 1" "outside x (a, bs)" "\<forall>seg \<in> set (map snd (filter fst segs)). outside x seg" for x
      using s'(7) sbyte_sput [OF Cons.prems(1) v that(1)] that by (auto simp: outside_def)
    show ?thesis
      using s' at fr s1(1) seg True by (intro exI [of _ s']) (simp add: py_then_def py_bind_def)
  qed
qed

text \<open>C16. In checked memory, loading an executable whose loadable segments fit the memory and do not overlap succeeds and
  builds its image: every segment is in memory byte for byte, every byte outside the segments is as before,
  the program counter is the entry point, and the text snapshot that the integrity check compares with is
  the text of the image.\<close>

theorem load_elf_image:
  assumes "checked s" "\<forall>(a, bs) \<in> set (loaded elf). safe_valid (ram s) a (length bs)" "sorted_wrt apart (loaded elf)"
  shows "\<exists>s'. load_elf elf load_symbols check_text s = (Inr (), s') \<and> pc (cpu s') = e_entry elf \<and>
    registers (cpu s') = registers (cpu s) \<and>
    (\<forall>(a, bs) \<in> set (loaded elf). bytes_at s' a bs) \<and>
    (\<forall>x. safe_valid (ram s) x 1 \<longrightarrow> (\<forall>seg \<in> set (loaded elf). outside x seg) \<longrightarrow> sbyte s' x = sbyte s x) \<and>
    (check_text \<and> text_section elf \<noteq> None \<longrightarrow> text_snapshot (mach (host s')) = Some (text_now (mach (host s')) (ram s')))"
proof -
  obtain s1 where s1: "load_segments (segments elf) s = (Inr (), s1)" "cpu s1 = cpu s"
      "\<forall>(a, bs) \<in> set (loaded elf). bytes_at s1 a bs"
      "\<forall>x. safe_valid (ram s) x 1 \<longrightarrow> (\<forall>seg \<in> set (loaded elf). outside x seg) \<longrightarrow> sbyte s1 x = sbyte s x"
    using load_segments_ok [OF assms [unfolded loaded_def]] unfolding loaded_def by blast
  obtain s2 where s2: "load_elf elf load_symbols check_text s = (Inr (), s2)" "ram s2 = ram s1"
      "cpu s2 = (cpu s1)\<lparr>pc := e_entry elf\<rparr>"
      "check_text \<and> text_section elf \<noteq> None \<longrightarrow> text_snapshot (mach (host s2)) = Some (text_now (mach (host s2)) (ram s1))"
    using s1(1)
    by (auto simp: load_elf_def note_elf_def py_then_def py_bind_def set_pc_def on_cpu_def on_mach_def py_zoom_def py_modify_def
        note_text_def text_now_def Let_def split: option.split)
  show ?thesis using s1 s2 by (intro exI [of _ s2]) (auto simp: bytes_at_def)
qed

theorem load_elf_image_witness:
  "\<exists>s'. load_elf \<lparr>segments = [(True, 4, [1, 2]), (False, 0, [9]), (True, 8, [3])], e_entry = 4, symtab = None,
       text_section = Some (4, 2)\<rparr> False True (demo_msys SafeRAM False ()) = (Inr (), s') \<and> pc (cpu s') = 4 \<and>
     bytes_at s' 4 [1, 2] \<and> bytes_at s' 8 [3] \<and> text_snapshot (mach (host s')) = Some (text_now (mach (host s')) (ram s'))"
proof -
  let ?elf = "\<lparr>segments = [(True, 4, [1, 2]), (False, 0, [9]), (True, 8, [3])], e_entry = 4, symtab = None,
       text_section = Some (4, 2)\<rparr>"
  have l: "loaded ?elf = [(4, [1, 2]), (8, [3])]" by (simp add: loaded_def)
  have "checked (demo_msys SafeRAM False ())" by (simp add: checked_def demo_msys_def) (simp add: demo_ram_def)
  moreover have "ram (demo_msys SafeRAM False ()) = demo_ram SafeRAM" by (simp add: demo_msys_def)
  ultimately show ?thesis
    using load_elf_image [of "demo_msys SafeRAM False ()" ?elf False True]
    by (simp add: l apart_def safe_valid_def demo_ram_def) blast
qed

section \<open>Program arguments\<close>

lemma and_not_mask: "z AND NOT (mask n) = z - take_bit n z" for z :: int
proof -
  have "z AND NOT (mask n) = push_bit n (drop_bit n z)"
    by (rule bit_eqI) (auto simp: bit_simps)
  then show ?thesis by (simp add: push_bit_eq_mult drop_bit_eq_div take_bit_eq_mod minus_mod_eq_div_mult)
qed

lemma round_up:
  "x \<le> (x + 3) AND NOT 3" "(x + 3) AND NOT 3 \<le> x + 3" "((x + 3) AND NOT 3) mod 4 = 0"
  "x \<le> (x + 7) AND NOT 7" "(x + 7) AND NOT 7 \<le> x + 7" "((x + 7) AND NOT 7) mod 8 = 0" for x :: int
proof -
  have e: "z AND NOT 3 = z - z mod 4" "z AND NOT 7 = z - z mod 8" for z :: int
    using and_not_mask [of z 2] and_not_mask [of z 3]
    by (simp_all add: mask_eq_exp_minus_1 take_bit_eq_mod)
  show "x \<le> (x + 3) AND NOT 3" "(x + 3) AND NOT 3 \<le> x + 3" "((x + 3) AND NOT 3) mod 4 = 0"
    "x \<le> (x + 7) AND NOT 7" "(x + 7) AND NOT 7 \<le> x + 7" "((x + 7) AND NOT 7) mod 8 = 0"
    unfolding e by presburger+
qed

definition ascii :: "py_str \<Rightarrow> bool" where
  "ascii arg \<longleftrightarrow> (\<forall>c \<in> set arg. c < 0x80)"

definition cstr :: "py_str \<Rightarrow> 8 word list" where
  "cstr arg = map word_of_nat arg @ [0]"

lemma length_cstr [simp]: "length (cstr arg) = Suc (length arg)"
  by (simp add: cstr_def)

text \<open>Room for the strings, and for the strings and the table.\<close>

definition argv_room :: "py_str list \<Rightarrow> int" where
  "argv_room args = sum_list (map (\<lambda>arg. int (length arg) + 4) args)"

lemma argv_room_simps [simp]: "argv_room [] = 0" "argv_room (arg # args) = int (length arg) + 4 + argv_room args"
  by (simp_all add: argv_room_def)

lemma argv_room_nonneg: "0 \<le> argv_room args"
  by (induction args) simp_all

abbreviation heap :: "'u msys \<Rightarrow> int option" where
  "heap s \<equiv> heap_end (mach (host s))"

lemma set_heap_end_eq: "set_heap_end a s = (Inr (), s\<lparr>host := (host s)\<lparr>mach := (mach (host s))\<lparr>heap_end := Some a\<rparr>\<rparr>\<rparr>)"
  by (simp add: set_heap_end_def on_mach_def py_zoom_def py_modify_def)

lemma checked_host [simp]: "checked (s\<lparr>host := h\<rparr>) = checked s" "mmio_hit a (s\<lparr>host := h\<rparr>) = mmio_hit a s"
  by (simp_all add: checked_def mmio_hit_def)

text \<open>What a stage of \<open>setup_argv\<close> that starts with the heap at \<open>h\<close> leaves alone.\<close>

definition below_same :: "int \<Rightarrow> 'u msys \<Rightarrow> 'u msys \<Rightarrow> bool" where
  "below_same h s s' \<longleftrightarrow> checked s' \<and> cpu s' = cpu s \<and> ram_size (ram s') = ram_size (ram s) \<and>
     ram_class (ram s') = ram_class (ram s) \<and> (\<forall>x. 0 \<le> x \<longrightarrow> x < h \<longrightarrow> sbyte s' x = sbyte s x)"

lemma below_same_trans: "below_same h s s' \<Longrightarrow> below_same h' s' s'' \<Longrightarrow> h \<le> h' \<Longrightarrow> below_same h s s''"
  by (simp add: below_same_def)

lemma below_same_put:
  assumes "checked s" "safe_valid (ram s) h (length bs)"
  shows "below_same h s ((sput s h bs)\<lparr>host := e\<rparr>)"
  using assms checked_sput [OF assms] sbyte_sput [OF assms]
  by (auto simp: below_same_def safe_valid_def)

lemma bytes_at_below:
  "bytes_at s a bs \<Longrightarrow> below_same h s s' \<Longrightarrow> 0 \<le> a \<Longrightarrow> a + int (length bs) \<le> h \<Longrightarrow> bytes_at s' a bs"
  by (rule bytes_at_cong) (auto simp: below_same_def)

lemma argv_strings_ok:
  assumes "checked s" "heap s = Some h" "0 \<le> h" "h + argv_room args \<le> ram_size (ram s)" "\<forall>arg \<in> set args. ascii arg"
  shows "\<exists>s' ptrs h'. argv_strings args s = (Inr ptrs, s') \<and> length ptrs = length args \<and> heap s' = Some h' \<and>
    h \<le> h' \<and> h' \<le> h + argv_room args \<and> below_same h s s' \<and>
    (\<forall>i < length args. 0 \<le> ptrs ! i \<and> ptrs ! i + int (length (args ! i)) + 1 \<le> h' \<and> bytes_at s' (ptrs ! i) (cstr (args ! i)))"
  using assms
proof (induction args arbitrary: s h)
  case Nil
  then show ?case by (simp add: py_return_def below_same_def)
next
  case (Cons arg args)
  have room: "h + int (length arg) + 4 + argv_room args \<le> ram_size (ram s)" using Cons.prems(4) by simp
  have v: "safe_valid (ram s) h (length (cstr arg))"
    using Cons.prems(3) room argv_room_nonneg [of args] by (simp add: safe_valid_def)
  define h1 where "h1 = (h + (int (length arg) + 1) + 3) AND NOT 3"
  have h1: "h + int (length arg) + 1 \<le> h1" "h1 \<le> h + int (length arg) + 4"
    using round_up(1,2) [of "h + (int (length arg) + 1)"] by (simp_all add: h1_def)
  define s1 where "s1 = (sput s h (cstr arg))\<lparr>host := (host s)\<lparr>mach := (mach (host s))\<lparr>heap_end := Some h1\<rparr>\<rparr>\<rparr>"
  have b1: "below_same h s s1" unfolding s1_def by (rule below_same_put [OF Cons.prems(1) v])
  have at1: "bytes_at s1 h (cstr arg)"
    using bytes_at_sput [OF Cons.prems(1) v] by (simp add: s1_def bytes_at_def)
  have ih: "checked s1" "heap s1 = Some h1" "0 \<le> h1" "h1 + argv_room args \<le> ram_size (ram s1)" "\<forall>arg \<in> set args. ascii arg"
    using b1 h1 Cons.prems(3,5) room by (simp_all add: below_same_def s1_def)
  obtain s' ptrs h' where s': "argv_strings args s1 = (Inr ptrs, s')" "length ptrs = length args" "heap s' = Some h'"
      "h1 \<le> h'" "h' \<le> h1 + argv_room args" "below_same h1 s1 s'"
      "\<forall>i < length args. 0 \<le> ptrs ! i \<and> ptrs ! i + int (length (args ! i)) + 1 \<le> h' \<and> bytes_at s' (ptrs ! i) (cstr (args ! i))"
    using Cons.IH [OF ih] by blast
  have run: "argv_strings (arg # args) s = (Inr (h # ptrs), s')"
    using Cons.prems(2,5) s'(1) store_binary_plain [OF Cons.prems(1) v]
    by (simp add: utf8_ascii ascii_def cstr_def py_then_def py_bind_def py_return_def set_heap_end_eq s1_def h1_def)
  have at: "bytes_at s' h (cstr arg)"
    using bytes_at_below [OF at1 s'(6)] Cons.prems(3) h1 by simp
  have "below_same h s s'" using below_same_trans [OF b1 s'(6)] h1 by simp
  then show ?case
    using run s' at h1 Cons.prems(3)
    by (intro exI [of _ s'] exI [of _ "h # ptrs"] exI [of _ h']) (auto simp: nth_Cons split: nat.splits)
qed

lemma plain_safe: "checked s \<Longrightarrow> ram_class (ram s) = SafeRAM \<Longrightarrow> plain_word s a"
  by (simp add: plain_word_def)

lemma load_word_at:
  assumes "plain_word s a" "safe_valid (ram s) a 4" "bytes_at s a (word_bytes v)" "fits 32 v"
  shows "load_word a s = (Inr v, s)"
proof -
  have "sbyte s a = byte v" "sbyte s (a + 1) = byte (drop_bit 8 v)" "sbyte s (a + 2) = byte (drop_bit 16 v)"
    "sbyte s (a + 3) = byte (drop_bit 24 v)"
    using assms(3) by (force simp: bytes_at_def word_bytes_def)+
  then show ?thesis
    using load_word_plain [OF assms(1,2)] assms(4) by (simp add: le32_bytes fits_iff_take_bit)
qed

lemma argv_table_ok:
  assumes "checked s" "ram_class (ram s) = SafeRAM" "heap s = Some h" "0 \<le> h" "h + 4 * int (length ptrs) \<le> ram_size (ram s)"
  shows "\<exists>s'. argv_table ptrs s = (Inr (), s') \<and> heap s' = Some (h + 4 * int (length ptrs)) \<and> below_same h s s' \<and>
    (\<forall>i < length ptrs. bytes_at s' (h + 4 * int i) (word_bytes (ptrs ! i)))"
  using assms
proof (induction ptrs arbitrary: s h)
  case Nil
  then show ?case by (simp add: py_return_def below_same_def)
next
  case (Cons ptr ptrs)
  have v: "safe_valid (ram s) h 4" "safe_valid (ram s) h (length (word_bytes ptr))"
    using Cons.prems(4,5) by (simp_all add: safe_valid_def)
  define s1 where "s1 = (sput s h (word_bytes ptr))\<lparr>host := (host s)\<lparr>mach := (mach (host s))\<lparr>heap_end := Some (h + 4)\<rparr>\<rparr>\<rparr>"
  have b1: "below_same h s s1" unfolding s1_def by (rule below_same_put [OF Cons.prems(1) v(2)])
  have at1: "bytes_at s1 h (word_bytes ptr)"
    using bytes_at_sput [OF Cons.prems(1) v(2)] by (simp add: s1_def bytes_at_def)
  have ih: "checked s1" "ram_class (ram s1) = SafeRAM" "heap s1 = Some (h + 4)" "0 \<le> h + 4"
      "h + 4 + 4 * int (length ptrs) \<le> ram_size (ram s1)"
    using b1 Cons.prems by (simp_all add: below_same_def s1_def)
  obtain s' where s': "argv_table ptrs s1 = (Inr (), s')" "heap s' = Some (h + 4 + 4 * int (length ptrs))"
      "below_same (h + 4) s1 s'" "\<forall>i < length ptrs. bytes_at s' (h + 4 + 4 * int i) (word_bytes (ptrs ! i))"
    using Cons.IH [OF ih] by blast
  have run: "argv_table (ptr # ptrs) s = (Inr (), s')"
    using Cons.prems(3) s'(1) store_word_plain [OF plain_safe [OF Cons.prems(1,2)] v(1)]
    by (simp add: py_then_def py_bind_def set_heap_end_eq s1_def)
  have at: "bytes_at s' h (word_bytes ptr)"
    using bytes_at_below [OF at1 s'(3)] Cons.prems(4) by simp
  have "below_same h s s'" using below_same_trans [OF b1 s'(3)] by simp
  then show ?case
    using run s' at by (intro exI [of _ s']) (auto simp: nth_Cons algebra_simps split: nat.splits)
qed

text \<open>C22. \<open>setup_argv\<close> builds the C argument vector: in a \<open>SafeRAM\<close>, for ASCII arguments that fit below the end of memory,
  \<open>a0\<close> is their number, \<open>a1\<close> points to a table of that many pointers and a final null, the \<open>i\<close>-th of
  which points to a NUL-terminated copy of the \<open>i\<close>-th argument; the heap then starts, 8-byte aligned, after
  the table, and memory below the old heap is untouched.\<close>

theorem setup_argv_layout:
  assumes "checked s" "ram_class (ram s) = SafeRAM" "heap_end (mach (host s)) = Some h" "0 \<le> h"
    "h + argv_room args + 4 * (int (length args) + 1) \<le> ram_size (ram s)" "ram_size (ram s) \<le> 2 ^ 32"
    "\<forall>arg \<in> set args. ascii arg"
  shows "\<exists>s' table e. setup_argv args s = (Inr (), s') \<and>
    registers (cpu s') 10 = int (length args) \<and> registers (cpu s') 11 = table \<and>
    (\<forall>i < length args. \<exists>p. load_word (table + 4 * int i) s' = (Inr p, s') \<and> bytes_at s' p (cstr (args ! i))) \<and>
    load_word (table + 4 * int (length args)) s' = (Inr 0, s') \<and>
    heap_end (mach (host s')) = Some e \<and> e mod 8 = 0 \<and> table + 4 * (int (length args) + 1) \<le> e \<and>
    (\<forall>x. 0 \<le> x \<longrightarrow> x < h \<longrightarrow> memory (ram s') ! nat x = memory (ram s) ! nat x)"
proof -
  have "h + argv_room args \<le> ram_size (ram s)" using assms(5) by simp
  then obtain s1 ptrs t where s1: "argv_strings args s = (Inr ptrs, s1)" "length ptrs = length args" "heap s1 = Some t"
      "h \<le> t" "t \<le> h + argv_room args" "below_same h s s1"
      "\<forall>i < length args. 0 \<le> ptrs ! i \<and> ptrs ! i + int (length (args ! i)) + 1 \<le> t \<and> bytes_at s1 (ptrs ! i) (cstr (args ! i))"
    using argv_strings_ok [OF assms(1,3,4) _ assms(7)] by blast
  have c1: "checked s1" "ram_class (ram s1) = SafeRAM" "ram_size (ram s1) = ram_size (ram s)" "cpu s1 = cpu s"
    using s1(6) assms(2) by (simp_all add: below_same_def)
  have t0: "0 \<le> t" "t + 4 * int (length (ptrs @ [0])) \<le> ram_size (ram s1)"
    using s1(2,4,5) assms(4,5) c1(3) by simp_all
  obtain s2 where s2: "argv_table (ptrs @ [0]) s1 = (Inr (), s2)" "heap s2 = Some (t + 4 * int (length (ptrs @ [0])))"
      "below_same t s1 s2" "\<forall>i < length (ptrs @ [0]). bytes_at s2 (t + 4 * int i) (word_bytes ((ptrs @ [0]) ! i))"
    using argv_table_ok [OF c1(1,2) s1(3) t0] by blast
  define e where "e = (t + 4 * int (length (ptrs @ [0])) + 7) AND NOT 7"
  define s3 where "s3 = s2\<lparr>host := (host s2)\<lparr>mach := (mach (host s2))\<lparr>heap_end := Some e\<rparr>\<rparr>,
      cpu := (cpu s2)\<lparr>registers := (registers (cpu s2))(10 := int (length args), 11 := t)\<rparr>\<rparr>"
  have run: "setup_argv args s = (Inr (), s3)"
    using s1(1,3) s2(1,2)
    by (simp add: setup_argv_def py_bind_def py_then_def set_heap_end_eq on_cpu_def py_zoom_def set_reg_def py_modify_def
        s3_def e_def fun_upd_twist)
  have c3: "checked s3" "ram_class (ram s3) = SafeRAM" "ram_size (ram s3) = ram_size (ram s)" "ram s3 = ram s2"
    using s2(3) c1 by (simp_all add: below_same_def s3_def checked_def)
  have word: "load_word (t + 4 * int i) s3 = (Inr ((ptrs @ [0]) ! i), s3)" if i: "i < length (ptrs @ [0])" for i
  proof (rule load_word_at [OF plain_safe [OF c3(1,2)]])
    show "safe_valid (ram s3) (t + 4 * int i) 4" using t0 i c3(3) c1(3) by (simp add: safe_valid_def)
    show "bytes_at s3 (t + 4 * int i) (word_bytes ((ptrs @ [0]) ! i))" using s2(4) i c3(4) by (simp add: bytes_at_def)
    have "0 \<le> (ptrs @ [0]) ! i \<and> (ptrs @ [0]) ! i < ram_size (ram s)"
      using i s1(2,4,5,7) assms(4,5) argv_room_nonneg [of args] by (fastforce simp: nth_append)
    then show "fits 32 ((ptrs @ [0]) ! i)" using assms(6) by (simp add: fits_def)
  qed
  have str: "bytes_at s3 (ptrs ! i) (cstr (args ! i))" if i: "i < length args" for i
  proof -
    have "bytes_at s2 (ptrs ! i) (cstr (args ! i))"
      by (rule bytes_at_below [OF _ s2(3)]) (use s1(7) i in auto)
    then show ?thesis using c3(4) by (simp add: bytes_at_def)
  qed
  have low: "\<forall>x. 0 \<le> x \<longrightarrow> x < h \<longrightarrow> sbyte s3 x = sbyte s x"
    using s1(4) c3(4) below_same_trans [OF s1(6) s2(3)] by (auto simp: below_same_def)
  show ?thesis
    using run word str low s1(2) round_up(4,6) [of "t + 4 * int (length (ptrs @ [0]))"]
    by (intro exI [of _ s3] exI [of _ t] exI [of _ e]) (auto simp: s3_def e_def nth_append)
qed

definition demo_heap :: "unit msys" where
  "demo_heap = (demo_msys SafeRAM False ())\<lparr>ram := \<lparr>memory = replicate 68 0, ram_size = 64, ram_class = SafeRAM,
      base_addr = 0\<rparr>\<rparr>"

theorem setup_argv_layout_witness:
  "\<exists>s' table. setup_argv [[97, 98], [99]] demo_heap = (Inr (), s') \<and> registers (cpu s') 10 = 2 \<and>
     registers (cpu s') 11 = table \<and> (\<exists>p. load_word (table + 4) s' = (Inr p, s') \<and> bytes_at s' p [99, 0])"
proof -
  have d: "checked demo_heap" "ram_class (ram demo_heap) = SafeRAM" "heap_end (mach (host demo_heap)) = Some 16"
    "ram_size (ram demo_heap) = 64"
    by (simp_all add: demo_heap_def demo_msys_def demo_machine_def checked_def ram_wf_def)
  obtain s' where s': "setup_argv [[97, 98], [99]] demo_heap = (Inr (), s')" "registers (cpu s') 10 = 2"
      "\<forall>i < 2. \<exists>p. load_word (registers (cpu s') 11 + 4 * int i) s' = (Inr p, s') \<and> bytes_at s' p (cstr ([[97, 98], [99]] ! i))"
    using setup_argv_layout [OF d(1-3), of "[[97, 98], [99]]"] d(4) by (auto simp: ascii_def)
  from s'(3) [rule_format, of 1] have
    "\<exists>p. load_word (registers (cpu s') 11 + 4) s' = (Inr p, s') \<and> bytes_at s' p [99, 0]"
    by (simp add: cstr_def)
  with s' show ?thesis by blast
qed

text \<open>The heap pointer advances by characters, not by encoded bytes, so an argument outside ASCII is
  overwritten by the next one: with the arguments \<open>"\<close>eee\<open>"\<close> (three times U+00E9) and \<open>"x"\<close> the program finds
  the bytes \<open>C3 A9 C3 A9 78\<close> in its first argument.\<close>

lemma setup_argv_utf8_overlap:
  "(case setup_argv [[0xE9, 0xE9, 0xE9], [0x78]] demo_heap of (_, s') \<Rightarrow> take 6 (drop 16 (memory (ram s')))) =
     [0xC3, 0xA9, 0xC3, 0xA9, 0x78, 0]"
  by code_simp

section \<open>The invariant of a loaded system\<close>

lemma cpu_inv_relax: "cpu_inv True md c \<Longrightarrow> cpu_inv False md c"
  by (auto simp: cpu_inv_def aligned_def)

text \<open>Loading keeps the invariant and does not change the options of the machine.\<close>

definition machine_opts :: "machine \<Rightarrow> bool \<times> bool \<times> bool \<times> bool" where
  "machine_opts m = (opt_rvc m, opt_check_inv m, opt_timer m, opt_mmio m)"

abbreviation opts :: "'u msys \<Rightarrow> bool \<times> bool \<times> bool \<times> bool" where
  "opts s \<equiv> machine_opts (mach (host s))"

definition guest_ok :: "bool \<Rightarrow> bool \<times> bool \<times> bool \<times> bool \<Rightarrow> 'u msys \<Rightarrow> bool" where
  "guest_ok md os s \<longleftrightarrow> sys_inv False md s \<and> opts s = os"

lemma guest_okI: "py_keeps (sys_inv False md) m \<Longrightarrow> (\<And>s. opts (snd (m s)) = opts s) \<Longrightarrow> py_keeps (guest_ok md os) m"
  by (simp add: py_keeps_def guest_ok_def)

lemma store_word_host: "host (snd (store_word a v s)) = host s"
  by (simp add: store_word_def RAM_MMIO_store_word_def SafeRAM_MMIO_store_word_def MMIO_store_word_def device_write32_def
    on_timer_def on_uart_def on_block_def on_ram_def py_zoom_def Let_def
    split: ram_class.split option.split device.split prod.split)

lemma guest_accesses [py_keeps_intros]:
  "py_keeps (guest_ok md os) (store_word a v)" "py_keeps (guest_ok md os) (store_binary a bs)"
  "py_keeps (guest_ok md os) (on_cpu (set_reg rd v))" "py_keeps (guest_ok md os) (set_heap_end b)"
proof -
  show "py_keeps (guest_ok md os) (store_word a v)" by (rule guest_okI) (auto intro: py_keeps_intros simp: store_word_host)
  show "py_keeps (guest_ok md os) (store_binary a bs)"
    by (rule guest_okI, rule keeps_accesses) (simp add: store_binary_def on_ram_def py_zoom_def split: prod.split)
  show "py_keeps (guest_ok md os) (on_cpu (set_reg rd v))"
    by (rule guest_okI, rule keeps_set_reg) (simp_all add: on_cpu_def py_zoom_def split: prod.split)
  show "py_keeps (guest_ok md os) (set_heap_end b)"
    by (rule guest_okI, unfold set_heap_end_def, rule keeps_on_mach) (simp add: machine_opts_def on_mach_def py_zoom_def py_modify_def)
qed

lemma guest_set_pc:
  assumes "a AND (if md then 1 else 3) = 0"
  shows "py_keeps (guest_ok md os) (set_pc a)"
proof (rule guest_okI)
  show "py_keeps (sys_inv False md) (set_pc a)"
    unfolding set_pc_def using assms by (intro keeps_on_cpu) (auto simp: py_modify_def cpu_inv_def aligned_def cache_inv_def)
qed (simp add: set_pc_def on_cpu_def py_zoom_def py_modify_def)

lemmas guest_after = py_keepsD [where P = "guest_ok md os" for md os, OF py_keeps_then]
  py_keepsD [where P = "guest_ok md os" for md os, OF py_keeps_bind]

lemma guest_argv_strings: "py_keeps (guest_ok md os) (argv_strings args)"
proof (induction args)
  case (Cons arg args)
  show ?case by (rule py_keepsI) (auto split: option.split intro!: guest_after py_keeps_intros Cons)
qed (simp add: py_keeps_return)

lemma guest_argv_table: "py_keeps (guest_ok md os) (argv_table ptrs)"
proof (induction ptrs)
  case (Cons ptr ptrs)
  show ?case by (rule py_keepsI) (auto split: option.split intro!: guest_after py_keeps_intros Cons)
qed (simp add: py_keeps_return)

lemma guest_setup_argv: "py_keeps (guest_ok md os) (setup_argv args)"
  unfolding setup_argv_def
  by (intro py_keeps_bind guest_argv_strings py_keepsI)
    (auto split: option.split intro!: guest_after py_keeps_intros guest_argv_table py_keepsI guest_accesses(4) [THEN py_keepsD])

lemma guest_load_segments: "py_keeps (guest_ok md os) (load_segments segs)"
  by (induction segs) (auto intro!: py_keeps_intros)

lemma note_opts:
  "machine_opts (note_symbol x m) = machine_opts m" "machine_opts (note_function x m) = machine_opts m"
  "machine_opts (note_text c mem sec m) = machine_opts m"
  by (simp_all add: machine_opts_def note_symbol_def note_function_def note_text_def Let_def)

lemma fold_note_opts:
  "machine_opts (fold note_symbol syms m) = machine_opts m" "machine_opts (fold note_function syms m) = machine_opts m"
  by (induction syms arbitrary: m) (simp_all add: note_opts)

lemma guest_on_mach:
  "(\<And>m. machine_opts (snd (f m)) = machine_opts m) \<Longrightarrow> py_keeps (guest_ok md os) (on_mach f)"
  by (rule guest_okI, rule keeps_on_mach) (simp add: on_mach_def py_zoom_def split_beta)

lemma guest_loaders:
  shows "py_keeps (guest_ok md os) (load_flatbinary binary)"
    and "e_entry elf AND (if md then 1 else 3) = 0 \<Longrightarrow> py_keeps (guest_ok md os) (load_elf elf load_symbols check_text)"
proof -
  show "py_keeps (guest_ok md os) (load_flatbinary binary)"
    unfolding load_flatbinary_def
    by (intro py_keeps_then guest_accesses guest_set_pc guest_on_mach) (simp_all add: machine_opts_def)
  assume "e_entry elf AND (if md then 1 else 3) = 0"
  then show "py_keeps (guest_ok md os) (load_elf elf load_symbols check_text)"
    unfolding load_elf_def
    by (intro py_keeps_then guest_load_segments guest_set_pc py_keepsI)
      (auto intro!: guest_on_mach [THEN py_keepsD] simp: py_modify_def note_elf_def Let_def fold_note_opts note_opts
        machine_opts_def [of "m\<lparr>start_checks := x\<rparr>" for m x] machine_opts_def [symmetric] split: option.split)
qed

end
