(* ===== verification/Syscalls_Props.thy ===== *)
theory Syscalls_Props
  imports Syscalls Machine_Load
begin

text \<open>
  Properties of the system calls: the handler satisfies the contract of the CPU with its \<open>ecall\<close> handler
  (the interpretation \<open>newlib\<close>), the table of file descriptors, allocation, output, the layout of
  \<open>struct stat\<close>, and two defects of the error path.
\<close>

unbundle bit_operations_syntax

section \<open>The handler keeps the system invariant\<close>

lemma keeps_set_a0 [py_keeps_intros]: "py_keeps (sys_inv False md) (set_a0 v)"
  unfolding set_a0_def by (rule keeps_set_reg) simp

lemma keeps_upd_sc [py_keeps_intros]: "py_keeps (sys_inv r md) (upd_sc f)"
  by (simp add: py_keeps_def upd_sc_def py_modify_def sys_inv_host)

lemma keeps_call_os [py_keeps_intros]: "py_keeps (sys_inv r md) (call_os f)"
  by (auto simp: py_keeps_def call_os_def sys_inv_host split: prod.split)

lemma keeps_warn [py_keeps_intros]: "py_keeps (sys_inv r md) warn"
  by (simp add: py_keeps_def warn_def)

lemma keeps_set_heap_end [py_keeps_intros]: "py_keeps (sys_inv r md) (set_heap_end a)"
  unfolding set_heap_end_def by (rule keeps_on_mach)

text \<open>The same rules applied to a state.\<close>

lemmas after_then = py_keepsD [where P = "sys_inv False md" for md, OF py_keeps_then]
lemmas after_bind = py_keepsD [where P = "sys_inv False md" for md, OF py_keeps_bind]
lemmas after_a0 = py_keepsD [OF keeps_set_a0]
lemmas after = after_then after_bind after_a0

lemma keeps_at_cwd:
  assumes "py_keeps (sys_inv False md) body"
  shows "py_keeps (sys_inv False md) (at_cwd body)"
  using assms by (auto simp: py_keeps_def [of _ "at_cwd body"] at_cwd_def intro!: after py_keeps_intros dest: py_keepsD)

lemma keeps_put_stat: "py_keeps (sys_inv False md) (put_stat p m z)"
  unfolding put_stat_def by (intro py_keeps_intros)

lemma keeps_simple_calls:
  "py_keeps (sys_inv False md) handle_kill" "py_keeps (sys_inv False md) handle_getpid"
  unfolding handle_kill_def handle_getpid_def by (intro py_keeps_intros)+

lemma keeps_exit: "py_keeps (sys_inv False md) handle_exit"
  by (auto simp: py_keeps_def handle_exit_def sys_inv_def cpu_inv_def)

lemma keeps_sbrk: "py_keeps (sys_inv False md) handle_sbrk"
  unfolding py_keeps_def handle_sbrk_def Let_def
  by (auto split: option.split intro!: after py_keeps_intros)

lemma keeps_write: "py_keeps (sys_inv False md) (handle_write os)"
  unfolding py_keeps_def handle_write_def Let_def
  by (auto intro!: after py_keeps_intros)

lemma keeps_read: "py_keeps (sys_inv False md) (handle_read os)"
  unfolding py_keeps_def handle_read_def Let_def
  by (auto split: option.split intro!: after py_keeps_intros)

lemma keeps_install_fd: "py_keeps (sys_inv False md) (install_fd host_fd)"
  unfolding py_keeps_def install_fd_def Let_def by (auto intro!: after py_keeps_intros)

lemma keeps_openat: "py_keeps (sys_inv False md) (handle_openat os)"
  unfolding handle_openat_def Let_def
  by (rule keeps_at_cwd, rule py_keepsI) (intro after py_keeps_intros keeps_install_fd)

lemma keeps_close: "py_keeps (sys_inv False md) (handle_close os)"
  unfolding py_keeps_def handle_close_def Let_def
  by (auto split: option.split intro!: after py_keeps_intros)

lemma keeps_lseek: "py_keeps (sys_inv False md) (handle_lseek os)"
  unfolding py_keeps_def handle_lseek_def Let_def
  by (auto split: option.split intro!: after py_keeps_intros)

lemma keeps_fstat: "py_keeps (sys_inv False md) (handle_fstat os)"
  unfolding py_keeps_def handle_fstat_def Let_def
  by (auto split: option.split sum.split intro!: after py_keeps_intros keeps_put_stat [THEN py_keepsD])

lemma keeps_isatty: "py_keeps (sys_inv False md) handle_isatty"
  unfolding py_keeps_def handle_isatty_def Let_def
  by (auto intro!: after py_keeps_intros)

lemma keeps_umask: "py_keeps (sys_inv False md) handle_umask"
  unfolding py_keeps_def handle_umask_def Let_def
  by (auto intro!: after py_keeps_intros)

lemma keeps_mkdirat: "py_keeps (sys_inv False md) (handle_mkdirat os)"
  unfolding handle_mkdirat_def Let_def
  by (rule keeps_at_cwd, rule py_keepsI) (intro after py_keeps_intros)

lemma keeps_unlinkat: "py_keeps (sys_inv False md) (handle_unlinkat os)"
  unfolding handle_unlinkat_def Let_def
  by (rule keeps_at_cwd, rule py_keepsI) (intro after py_keeps_intros)

lemma keeps_handle: "py_keeps (sys_inv False md) (handle os)"
proof -
  have "py_keeps (sys_inv False md) h" if "syscall_handler os n = Some h" for h n
    using that unfolding syscall_handler_def
    by (auto split: if_splits intro: keeps_simple_calls keeps_exit keeps_sbrk keeps_write keeps_read keeps_openat
      keeps_close keeps_lseek keeps_fstat keeps_isatty keeps_umask keeps_mkdirat keeps_unlinkat)
  then show ?thesis by (auto simp: py_keeps_def handle_def split: option.split)
qed

interpretation newlib: ecall_contract False md "Some (handle os)" for md os
  by unfold_locales (simp add: keeps_handle)

section \<open>The table of file descriptors\<close>

definition fds_are :: "(int \<rightharpoonup> int) \<Rightarrow> int \<Rightarrow> 'o sc_state msys \<Rightarrow> bool" where
  "fds_are m n s \<longleftrightarrow> fd_map (sc s) = m \<and> next_fd (sc s) = n"

lemma fds_on_cpu: "py_keeps (fds_are m n) (on_cpu f)"
  by (auto simp: py_keeps_def on_cpu_def py_zoom_def fds_are_def sc_def split: prod.split)

lemma fds_on_ram: "py_keeps (fds_are m n) (on_ram f)"
  by (auto simp: py_keeps_def on_ram_def py_zoom_def fds_are_def sc_def split: prod.split)

lemma fds_set_a0 [py_keeps_intros]: "py_keeps (fds_are m n) (set_a0 v)"
  unfolding set_a0_def by (rule fds_on_cpu)

lemma fds_accesses [py_keeps_intros]:
  "py_keeps (fds_are m n) (store_byte a v)" "py_keeps (fds_are m n) (load_binary a k)"
  "py_keeps (fds_are m n) (store_binary a bs)" "py_keeps (fds_are m n) (load_cstring a k)"
  unfolding store_byte_def load_binary_def store_binary_def load_cstring_def by (rule fds_on_ram)+

lemma fds_call_os [py_keeps_intros]: "py_keeps (fds_are m n) (call_os f)"
  by (auto simp: py_keeps_def call_os_def fds_are_def sc_def split: prod.split)

lemma fds_warn [py_keeps_intros]: "py_keeps (fds_are m n) warn"
  by (simp add: py_keeps_def warn_def)

lemma fds_upd_sc:
  "(\<And>h. fd_map (f h) = fd_map h) \<Longrightarrow> (\<And>h. next_fd (f h) = next_fd h) \<Longrightarrow> py_keeps (fds_are m n) (upd_sc f)"
  by (simp add: py_keeps_def upd_sc_def py_modify_def fds_are_def sc_def)

lemma fds_set_heap_end [py_keeps_intros]: "py_keeps (fds_are m n) (set_heap_end a)"
  by (simp add: py_keeps_def set_heap_end_def on_mach_def py_zoom_def py_modify_def fds_are_def sc_def)

lemmas fds_after =
  py_keepsD [where P = "fds_are m n" for m n, OF py_keeps_then]
  py_keepsD [where P = "fds_are m n" for m n, OF py_keeps_bind]
  py_keepsD [where P = "fds_are m n" for m n, OF fds_set_a0]

lemma fds_at_cwd:
  "py_keeps (fds_are m n) body \<Longrightarrow> py_keeps (fds_are m n) (at_cwd body)"
  by (auto simp: py_keeps_def [of _ "at_cwd body"] at_cwd_def intro!: fds_after py_keeps_intros dest: py_keepsD)

lemma fds_put_stat: "py_keeps (fds_are m n) (put_stat p md z)"
  unfolding put_stat_def by (intro py_keeps_intros)

lemma fds_calls:
  "py_keeps (fds_are m n) handle_exit" "py_keeps (fds_are m n) handle_sbrk" "py_keeps (fds_are m n) (handle_write os)"
  "py_keeps (fds_are m n) (handle_read os)" "py_keeps (fds_are m n) (handle_lseek os)"
  "py_keeps (fds_are m n) (handle_fstat os)" "py_keeps (fds_are m n) handle_isatty" "py_keeps (fds_are m n) handle_kill"
  "py_keeps (fds_are m n) handle_getpid" "py_keeps (fds_are m n) handle_umask" "py_keeps (fds_are m n) (handle_mkdirat os)"
  "py_keeps (fds_are m n) (handle_unlinkat os)"
proof -
  note defs = handle_exit_def handle_sbrk_def handle_write_def handle_read_def handle_lseek_def handle_fstat_def
    handle_isatty_def handle_kill_def handle_getpid_def handle_umask_def Let_def
  show "py_keeps (fds_are m n) handle_exit" by (simp add: py_keeps_def defs fds_are_def sc_def)
  show "py_keeps (fds_are m n) handle_kill" "py_keeps (fds_are m n) handle_getpid"
    unfolding defs by (intro py_keeps_intros)+
  show "py_keeps (fds_are m n) handle_sbrk" "py_keeps (fds_are m n) (handle_write os)"
    "py_keeps (fds_are m n) (handle_read os)" "py_keeps (fds_are m n) (handle_lseek os)"
    "py_keeps (fds_are m n) (handle_fstat os)" "py_keeps (fds_are m n) handle_isatty" "py_keeps (fds_are m n) handle_umask"
    unfolding py_keeps_def defs
    by (auto split: option.split sum.split intro!: fds_after py_keeps_intros fds_upd_sc fds_put_stat [THEN py_keepsD])
  show "py_keeps (fds_are m n) (handle_mkdirat os)"
    unfolding handle_mkdirat_def Let_def by (rule fds_at_cwd, rule py_keepsI) (intro fds_after py_keeps_intros)
  show "py_keeps (fds_are m n) (handle_unlinkat os)"
    unfolding handle_unlinkat_def Let_def by (rule fds_at_cwd, rule py_keepsI) (intro fds_after py_keeps_intros)
qed

text \<open>The state after \<open>openat\<close> and \<open>close\<close>.\<close>

lemma call_os_returns:
  obtains r s2 where "call_os f s = (Inr r, s2)"
  by (cases "f (os_state (sc s))") (auto simp: call_os_def)

lemma fds_install:
  "fds_are m n s \<Longrightarrow>
   fds_are (m(n \<mapsto> host_fd)) (n + 1) (snd (install_fd host_fd s)) \<and> reg 10 (snd (install_fd host_fd s)) = n"
  by (auto simp: install_fd_def fds_are_def sc_def reg_def py_then_def py_bind_def upd_sc_def py_modify_def set_a0_def
      on_cpu_def py_zoom_def set_reg_def Let_def)

lemma fds_openat:
  assumes "fds_are m n s"
  shows "fds_are m n (snd (handle_openat os s)) \<or>
    (\<exists>host_fd. fds_are (m(n \<mapsto> host_fd)) (n + 1) (snd (handle_openat os s)) \<and> reg 10 (snd (handle_openat os s)) = n)"
proof (cases "to_signed (reg 10 s) = -100")
  case False
  then have "handle_openat os s = py_then warn (set_a0 (- ENOTSUP)) s" by (simp add: handle_openat_def at_cwd_def)
  moreover have "fds_are m n (snd (py_then warn (set_a0 (- ENOTSUP)) s))" using assms by (intro fds_after py_keeps_intros)
  ultimately show ?thesis by simp
next
  case True
  obtain o1 s1 where 1: "load_cstring (reg 11 s) 1024 s = (o1, s1)" by (cases "load_cstring (reg 11 s) 1024 s")
  have s1: "fds_are m n s1" using py_keepsD [OF fds_accesses(4) assms, of "reg 11 s" 1024] 1 by simp
  show ?thesis
  proof (cases o1)
    case (Inl e)
    then show ?thesis using 1 s1 True by (simp add: handle_openat_def at_cwd_def Let_def py_bind_def)
  next
    case (Inr path)
    let ?mode = "reg 13 s AND NOT (umask (sc s))"
    let ?op = "os_open os path (reg 12 s) ?mode"
    obtain r s2 where 2: "call_os ?op s1 = (Inr r, s2)" by (rule call_os_returns)
    have s2: "fds_are m n s2" using py_keepsD [OF fds_call_os s1, of ?op] 2 by simp
    have "handle_openat os s = (if \<not> c_int (reg 12 s) \<or> \<not> c_int ?mode then (Inl OverflowError, s1)
        else (case r of Inr host_fd \<Rightarrow> install_fd host_fd | Inl e \<Rightarrow> set_a0 (- e)) s2)"
      using True 1 2 Inr by (simp add: handle_openat_def at_cwd_def Let_def py_bind_def py_raise_def)
    then show ?thesis
      using s1 fds_install [OF s2] py_keepsD [OF fds_set_a0 s2] by (cases r) auto
  qed
qed

lemma fds_close:
  assumes "fds_are m n s"
  shows "fds_are m n (snd (handle_close os s)) \<or> fds_are (m(reg 10 s := None)) n (snd (handle_close os s))"
proof (cases "fd_map (sc s) (reg 10 s)")
  case None
  have "fds_are m n (snd (py_then (set_a0 (- EBADF)) warn s))" using assms by (intro fds_after py_keeps_intros)
  then show ?thesis using None by (simp add: handle_close_def)
next
  case (Some host_fd)
  obtain r s2 where 2: "call_os (os_close os host_fd) s = (Inr r, s2)" by (rule call_os_returns)
  have s2: "fds_are m n s2" using py_keepsD [OF fds_call_os assms, of "os_close os host_fd"] 2 by simp
  show ?thesis
  proof (cases r)
    case (Inl e)
    have "fds_are m n (snd (py_then (set_a0 (- e)) warn s2))" using s2 by (intro fds_after py_keeps_intros)
    then show ?thesis using Some 2 Inl by (simp add: handle_close_def py_bind_def)
  next
    case (Inr u)
    then show ?thesis using Some 2 s2
      by (simp add: handle_close_def py_bind_def py_then_def upd_sc_def py_modify_def set_a0_def on_cpu_def py_zoom_def
          set_reg_def fds_are_def sc_def)
  qed
qed

definition fd_ok :: "'o sc_state \<Rightarrow> bool" where
  "fd_ok h \<longleftrightarrow> 3 \<le> next_fd h \<and> dom (fd_map h) \<subseteq> {0..<next_fd h}"

lemma fds_handle:
  assumes "fds_are m n s"
  shows "fds_are m n (snd (handle os s)) \<or> (\<exists>fd. fds_are (m(fd := None)) n (snd (handle os s))) \<or>
    (\<exists>host_fd. fds_are (m(n \<mapsto> host_fd)) (n + 1) (snd (handle os s)) \<and> reg 10 (snd (handle os s)) = n)"
  using fds_openat [OF assms, of os] fds_close [OF assms, of os] fds_calls [THEN py_keepsD, OF assms] assms
  unfolding handle_def syscall_handler_def by auto

section \<open>A host for the examples\<close>

text \<open>A host whose files are all open as descriptor 7, empty, and take every byte.\<close>

definition demo_os :: "unit os" where
  "demo_os = \<lparr>os_write = (\<lambda>_ bs o'. (Inr (int (length bs)), o')), os_read = (\<lambda>_ _ o'. (Inr [], o')),
     os_open = (\<lambda>_ _ _ o'. (Inr 7, o')), os_close = (\<lambda>_ o'. (Inr (), o')), os_lseek = (\<lambda>_ n _ o'. (Inr n, o')),
     os_fstat = (\<lambda>_ _. Inr (0x81A4, 0x123456789)), os_mkdir = (\<lambda>_ _ o'. (Inl 17, o')), os_rmdir = (\<lambda>_ o'. (Inr (), o')),
     os_unlink = (\<lambda>_ o'. (Inr (), o')), os_input = (\<lambda>o'. (None, o')), os_stdin = (\<lambda>o'. (None, o'))\<rparr>"

definition demo_call :: "bool \<Rightarrow> int \<Rightarrow> int \<Rightarrow> int \<Rightarrow> int \<Rightarrow> unit sc_state msys" where
  "demo_call log n a b c =
     (let s = demo_msys SafeRAM False (SyscallHandler_init 0 1 2 log False ())
      in s\<lparr>ram := \<lparr>memory = replicate 132 0, ram_size = 128, ram_class = SafeRAM, base_addr = 0\<rparr>,
           cpu := (cpu s)\<lparr>registers := (registers (cpu s))(17 := n, 10 := a, 11 := b, 12 := c)\<rparr>\<rparr>)"

section \<open>Properties\<close>

text \<open>C19. The table of file descriptors stays well-formed under every system call, whatever the host
  answers: all open descriptors are below the next one to be handed out, so a descriptor that appears in the
  table is the value returned in \<open>a0\<close>, was never open before and is not handed out again.\<close>

theorem fd_table_invariant:
  assumes "fd_ok (handler (host s))" "snd (handle os s) = s'"
  shows "fd_ok (handler (host s')) \<and> next_fd (handler (host s)) \<le> next_fd (handler (host s')) \<and>
    (\<forall>fd \<in> dom (fd_map (handler (host s'))). fd \<notin> dom (fd_map (handler (host s))) \<longrightarrow>
      fd = registers (cpu s') 10 \<and> fd = next_fd (handler (host s)) \<and> fd < next_fd (handler (host s')))"
proof -
  have "fds_are (fd_map (sc s)) (next_fd (sc s)) s" by (simp add: fds_are_def)
  moreover have "0 \<le> x \<and> x < next_fd (handler (host s))" if "fd_map (handler (host s)) x = Some y" for x y
    using assms(1) that by (auto simp: fd_ok_def)
  ultimately show ?thesis
    using fds_handle [of "fd_map (sc s)" "next_fd (sc s)" s os] assms unfolding fds_are_def fd_ok_def sc_def reg_def
    by (auto split: if_splits) fastforce+
qed

theorem fd_table_invariant_witness:
  "let s' = snd (handle demo_os (demo_call True 1024 0xFFFFFF9C 0 0)) in
   fd_ok (handler (host s')) \<and> registers (cpu s') 10 = 3 \<and> fd_map (handler (host s')) 3 = Some 7"
proof -
  let ?s = "demo_call True 1024 0xFFFFFF9C 0 0"
  have s: "handler (host ?s) = SyscallHandler_init 0 1 2 True False ()" by (simp add: demo_call_def demo_msys_def Let_def)
  have ok: "fd_ok (handler (host ?s))" by (auto simp: s fd_ok_def SyscallHandler_init_def split: if_splits)
  have m: "fd_map (handler (host (snd (handle demo_os ?s)))) 3 = Some 7" by code_simp
  then have d: "3 \<in> dom (fd_map (handler (host (snd (handle demo_os ?s)))))" by blast
  have "3 \<notin> dom (fd_map (handler (host ?s)))" by (simp add: s SyscallHandler_init_def)
  with fd_table_invariant [OF ok refl, of demo_os] d m show ?thesis
    unfolding Let_def by metis
qed

definition with_a0 :: "int \<Rightarrow> 'h sys \<Rightarrow> 'h sys" where
  "with_a0 v s = s\<lparr>cpu := (cpu s)\<lparr>registers := (registers (cpu s))(10 := v)\<rparr>\<rparr>"

text \<open>A sequence of \<open>sbrk\<close> calls: what they return in \<open>a0\<close>, up to an exception, and the final state.\<close>

fun sbrk_calls :: "int list \<Rightarrow> 'o sc_state msys \<Rightarrow> int list \<times> 'o sc_state msys" where
  "sbrk_calls [] s = ([], s)"
| "sbrk_calls (n # ns) s =
     (case handle_sbrk (with_a0 n s) of
        (Inl e, s1) \<Rightarrow> ([], s1)
      | (Inr _, s1) \<Rightarrow> (case sbrk_calls ns s1 of (rs, s2) \<Rightarrow> (reg 10 s1 # rs, s2)))"

text \<open>The allocator: the break moves up by each request that stays below \<open>b\<close>; the others return \<open>-1\<close>.\<close>

fun bump :: "int \<Rightarrow> int \<Rightarrow> int list \<Rightarrow> int list \<times> int" where
  "bump b h [] = ([], h)"
| "bump b h (n # ns) =
     (if h + n < b then (case bump b (h + n) ns of (rs, h') \<Rightarrow> (h # rs, h'))
      else (case bump b h ns of (rs, h') \<Rightarrow> (0xFFFFFFFF # rs, h')))"

definition blocks :: "int list \<Rightarrow> int list \<Rightarrow> (int \<times> int) list" where
  "blocks rs ns = filter (\<lambda>(p, n). p \<noteq> 0xFFFFFFFF) (zip rs ns)"

definition set_break :: "int \<Rightarrow> 'u msys \<Rightarrow> 'u msys" where
  "set_break a s = s\<lparr>host := (host s)\<lparr>mach := (mach (host s))\<lparr>heap_end := Some a\<rparr>\<rparr>\<rparr>"

lemma set_a0_eq: "set_a0 v s = (Inr (), with_a0 v s)"
  by (simp add: set_a0_def on_cpu_def py_zoom_def set_reg_def py_modify_def with_a0_def)

lemma with_a0_simps [simp]:
  "host (with_a0 v s) = host s" "ram (with_a0 v s) = ram s" "reg 10 (with_a0 v s) = v"
  "i \<noteq> 10 \<Longrightarrow> reg i (with_a0 v s) = reg i s" "with_a0 v (with_a0 w s) = with_a0 v s"
  by (simp_all add: with_a0_def reg_def)

lemma sbrk_step:
  assumes "stack_bottom (mach (host s)) = Some b" "heap s = Some h"
  shows "handle_sbrk (with_a0 n s) =
    (Inr (), if h + n < b then with_a0 h (set_break (h + n) s) else with_a0 0xFFFFFFFF s)"
  using assms
  by (simp add: handle_sbrk_def Let_def py_then_def py_bind_def set_heap_end_eq set_a0_eq set_break_def)
    (simp add: with_a0_def)

lemma sbrk_calls_bump:
  assumes "stack_bottom (mach (host s)) = Some b" "heap s = Some h"
  shows "\<exists>s'. sbrk_calls ns s = (fst (bump b h ns), s') \<and> heap s' = Some (snd (bump b h ns)) \<and> ram s' = ram s"
  using assms
proof (induction ns arbitrary: s h)
  case (Cons n ns)
  define s1 where "s1 = (if h + n < b then with_a0 h (set_break (h + n) s) else with_a0 0xFFFFFFFF s)"
  have s1: "stack_bottom (mach (host s1)) = Some b" "heap s1 = Some (if h + n < b then h + n else h)" "ram s1 = ram s"
    "reg 10 s1 = (if h + n < b then h else 0xFFFFFFFF)"
    using Cons.prems by (simp_all add: s1_def set_break_def)
  then show ?case
    using sbrk_step [OF Cons.prems, of n] Cons.IH [OF s1(1,2)] by (auto simp flip: s1_def split: prod.split)
qed simp

lemma bump_blocks:
  assumes "h < b" "b \<le> 0xFFFFFFFF" "\<forall>n \<in> set ns. 0 \<le> n" "bump b h ns = (rs, h')"
  shows "h \<le> h' \<and> h' < b \<and> sorted_wrt (\<lambda>(p, n) (q, m). p + n \<le> q) (blocks rs ns) \<and>
    (\<forall>(p, n) \<in> set (blocks rs ns). h \<le> p \<and> p + n \<le> h')"
  using assms
proof (induction ns arbitrary: h rs)
  case (Cons n ns)
  show ?case
  proof (cases "h + n < b")
    case True
    then obtain rs' where "bump b (h + n) ns = (rs', h')" "rs = h # rs'" using Cons.prems(4) by (auto split: prod.splits)
    then show ?thesis using Cons.IH [of "h + n" rs'] Cons.prems True by (fastforce simp: blocks_def)
  next
    case False
    then obtain rs' where "bump b h ns = (rs', h')" "rs = 0xFFFFFFFF # rs'" using Cons.prems(4) by (auto split: prod.splits)
    then show ?thesis using Cons.IH [of h rs'] Cons.prems by (auto simp: blocks_def)
  qed
qed (auto simp: blocks_def)

text \<open>C38. Memory allocation through \<open>sbrk\<close>, for a machine whose break lies below its stack: over any sequence of requests, each call does what the allocator \<open>bump\<close> does: a request of \<open>n\<close>
  bytes that keeps the break strictly below the stack returns the break and moves it up by \<open>n\<close>; one that
  would reach the stack returns \<open>-1\<close> and moves nothing. Hence the blocks handed out are
  disjoint, in increasing order, at or above the initial break and strictly below the stack. The memory is not touched.\<close>

theorem sbrk_allocates:
  assumes "stack_bottom (mach (host s)) = Some b" "heap_end (mach (host s)) = Some h" "h < b" "b \<le> 0xFFFFFFFF"
    "\<forall>n \<in> set ns. 0 \<le> n"
  shows "\<exists>rs s' h'. sbrk_calls ns s = (rs, s') \<and> heap_end (mach (host s')) = Some h' \<and> ram s' = ram s \<and> bump b h ns = (rs, h') \<and>
    h \<le> h' \<and> h' < b \<and> sorted_wrt (\<lambda>(p, n) (q, m). p + n \<le> q) (blocks rs ns) \<and>
    (\<forall>(p, n) \<in> set (blocks rs ns). h \<le> p \<and> p + n \<le> h')"
proof -
  obtain rs h' where r: "bump b h ns = (rs, h')" by fastforce
  show ?thesis using sbrk_calls_bump [OF assms(1,2), of ns] bump_blocks [OF assms(3-5) r] r by auto
qed

theorem sbrk_allocates_witness:
  "fst (sbrk_calls [8, 100, 4] (demo_call True 214 0 0 0)) = [16, 0xFFFFFFFF, 24] \<and>
   heap_end (mach (host (snd (sbrk_calls [8, 100, 4] (demo_call True 214 0 0 0))))) = Some 28"
proof -
  let ?s = "demo_call True 214 0 0 0"
  have "stack_bottom (mach (host ?s)) = Some 48" "heap_end (mach (host ?s)) = Some 16"
    by (simp_all add: demo_call_def demo_msys_def demo_machine_def Let_def)
  moreover have "bump 48 16 [8, 100, 4] = ([16, 0xFFFFFFFF, 24], 28)" by code_simp
  ultimately show ?thesis using sbrk_allocates [of ?s 48 16 "[8, 100, 4]"] by auto
qed

text \<open>\<open>write\<close> to the standard output or error sends exactly the requested bytes of memory, in order,
  returns their number and touches neither the memory nor anything else of the machine.\<close>

lemma write_console:
  assumes "checked s" "registers (cpu s) 17 = 64" "registers (cpu s) 10 = 1 \<or> registers (cpu s) 10 = 2"
    "registers (cpu s) 12 = int n" "safe_valid (ram s) (registers (cpu s) 11) n"
  shows "\<exists>s'. handle os s = (Inr (), s') \<and>
    console (handler (host s')) = console (handler (host s)) @ take n (drop (nat (registers (cpu s) 11)) (memory (ram s))) \<and>
    registers (cpu s') = (registers (cpu s))(10 := int n) \<and> ram s' = ram s \<and> mach (host s') = mach (host s) \<and>
    fd_map (handler (host s')) = fd_map (handler (host s))"
  using assms load_binary_plain [OF assms(1,5)]
  by (simp add: handle_def reg_def syscall_handler_def handle_write_def Let_def py_bind_def py_then_def upd_sc_def
      py_modify_def set_a0_eq with_a0_def)

lemma bytes_at_part:
  assumes "bytes_at s a (xs @ ys @ zs)"
  shows "bytes_at s (a + int (length xs)) ys"
  unfolding bytes_at_def
proof (intro allI impI)
  fix i assume "i < length ys"
  then show "sbyte s (a + int (length xs) + int i) = ys ! i"
    using assms [unfolded bytes_at_def, rule_format, of "length xs + i"] by (simp add: nth_append add.assoc)
qed

lemma put_stat_ok:
  assumes "checked s" "ram_class (ram s) = SafeRAM" "safe_valid (ram s) p 88" "fits 32 mode" "fits 64 sz"
  shows "\<exists>s'. put_stat p mode sz s = (Inr (), s') \<and> reg 10 s' = 0 \<and> load_word (p + 4) s' = (Inr mode, s') \<and>
    load_word (p + 16) s' = (Inr (take_bit 32 sz), s') \<and> load_word (p + 20) s' = (Inr (drop_bit 32 sz), s')"
proof -
  let ?s' = "with_a0 0 (sput s p (stat_buf mode sz))"
  have l: "length (stat_buf mode sz) = 88" by (simp add: stat_buf_def)
  have v: "safe_valid (ram s) p (length (stat_buf mode sz))" using assms(3) by (simp add: l)
  have c: "checked ?s'" "ram_class (ram ?s') = SafeRAM" "safe_valid (ram ?s') = safe_valid (ram s)"
    using checked_sput [OF assms(1) v] assms(2) by (simp_all add: with_a0_def checked_def)
  have at: "bytes_at ?s' p (stat_buf mode sz)"
    using bytes_at_sput [OF assms(1) v] by (simp add: bytes_at_def)
  have words: "bytes_at ?s' (p + 4) (word_bytes mode)" "bytes_at ?s' (p + 16) (word_bytes sz)"
      "bytes_at ?s' (p + 20) (word_bytes (drop_bit 32 sz))"
    using bytes_at_part [of ?s' p "replicate 4 0" "word_bytes mode"] at
      bytes_at_part [of ?s' p "replicate 4 0 @ word_bytes mode @ replicate 8 0" "word_bytes sz"]
      bytes_at_part [of ?s' p "replicate 4 0 @ word_bytes mode @ replicate 8 0 @ word_bytes sz" "word_bytes (drop_bit 32 sz)"]
    by (simp_all add: stat_buf_def)
  have run: "put_stat p mode sz s = (Inr (), ?s')"
    using assms(4,5) store_binary_plain [OF assms(1) v]
    by (simp add: put_stat_def fits_def py_then_def py_bind_def set_a0_eq)
  have vw: "safe_valid (ram ?s') (p + 4) 4" "safe_valid (ram ?s') (p + 16) 4" "safe_valid (ram ?s') (p + 20) 4"
    unfolding c(3) using assms(3) by (simp_all add: safe_valid_def)
  have "bytes_at ?s' (p + 16) (word_bytes (take_bit 32 sz))" using words(2) by simp
  then show ?thesis
    using run words vw assms(4) fits_drop_bit [OF assms(5), of 32] load_word_at [OF plain_safe [OF c(1,2)]]
    by (intro exI [of _ ?s']) (simp add: fits_take_bit)
qed

text \<open>\<open>fstat\<close> fills the guest's \<open>struct stat\<close>: the mode is the word at offset 4 and the 64-bit size the two
  words at offset 16, little-endian; the standard streams are character devices of size zero, another open
  descriptor reports what the host says.\<close>

lemma fstat_layout:
  assumes "checked s" "ram_class (ram s) = SafeRAM" "registers (cpu s) 17 = 80" "registers (cpu s) 11 = p"
    "safe_valid (ram s) p 88" "fits 32 mode" "fits 64 sz"
    "registers (cpu s) 10 \<in> {0, 1, 2} \<and> mode = 0x21B6 \<and> sz = 0 \<or>
     registers (cpu s) 10 \<notin> {0, 1, 2} \<and> fd_map (handler (host s)) (registers (cpu s) 10) = Some fd \<and>
       os_fstat os fd (os_state (handler (host s))) = Inr (mode, sz)"
  shows "\<exists>s'. handle os s = (Inr (), s') \<and> registers (cpu s') 10 = 0 \<and> load_word (p + 4) s' = (Inr mode, s') \<and>
    load_word (p + 16) s' = (Inr (sz mod 2 ^ 32), s') \<and> load_word (p + 20) s' = (Inr (sz div 2 ^ 32), s')"
proof -
  have "handle os s = put_stat p mode sz s"
    using assms(3,4,8) by (auto simp: handle_def syscall_handler_def handle_fstat_def reg_def sc_def)
  then show ?thesis
    using put_stat_ok [OF assms(1,2,5-7)] by (simp add: reg_def take_bit_eq_mod drop_bit_eq_div)
qed

text \<open>A call on a descriptor that is not open sets \<open>a0\<close> to \<open>-EBADF\<close>, a negative integer; but the warning
  that follows is not guarded, so without a logger \<open>close\<close>, \<open>lseek\<close>, \<open>read\<close>, \<open>fstat\<close> and \<open>isatty\<close> then raise
  \<open>AttributeError\<close>, which ends the emulation instead of reporting the error to the guest.\<close>

lemma bad_fd_needs_logger:
  assumes "fd_map (handler (host s)) (registers (cpu s) 10) = None" "registers (cpu s) 10 \<notin> {0, 1, 2}"
    "registers (cpu s) 17 \<in> {57, 62, 63, 80, 89}"
  shows "\<exists>s'. handle os s = (if sc_logger (handler (host s)) then Inr () else Inl AttributeError, s') \<and>
    registers (cpu s') = (registers (cpu s))(10 := - 9) \<and> host s' = host s \<and> ram s' = ram s"
proof -
  have "handle os s = py_then (set_a0 (- EBADF)) warn s"
    using assms
    by (elim insertE; simp add: handle_def syscall_handler_def reg_def sc_def handle_close_def handle_lseek_def
        handle_read_def handle_fstat_def handle_isatty_def Let_def)
  then show ?thesis
    by (simp add: py_then_def py_bind_def set_a0_eq warn_def EBADF_def sc_def) (simp add: with_a0_def)
qed

text \<open>Flags of \<open>openat\<close> that are no C integer raise an exception that is no \<open>OSError\<close> and ends the emulation.\<close>

lemma openat_overflow:
  assumes "registers (cpu s) 17 = 1024" "to_signed (registers (cpu s) 10) = - 100" "registers (cpu s) 12 \<ge> 2 ^ 31"
    "load_cstring (registers (cpu s) 11) 1024 s = (Inr path, s')"
  shows "handle os s = (Inl OverflowError, s')"
  using assms by (simp add: handle_def syscall_handler_def reg_def handle_openat_def at_cwd_def c_int_def Let_def py_bind_def py_raise_def)

text \<open>Negative error numbers break comparisons in the guest: after a failed \<open>close\<close>, \<open>a0\<close> holds the
  integer \<open>-9\<close>, and \<open>BNE\<close> finds it different from a register that holds the same 32-bit value
  \<open>0xFFFFFFF7\<close>.\<close>

lemma errno_breaks_bne:
  "\<exists>s'. handle demo_os (demo_call True 57 5 0 0) = (Inr (), s') \<and>
     (word_of_int (registers (cpu s') 10) :: 32 word) = word_of_int 0xFFFFFFF7 \<and>
     branch_taken 1 (registers (cpu s') 10) 0xFFFFFFF7"
proof -
  have "fst (handle demo_os (demo_call True 57 5 0 0)) = Inr ()" by code_simp
  moreover have "registers (cpu (snd (handle demo_os (demo_call True 57 5 0 0)))) 10 = - 9" by code_simp
  ultimately show ?thesis
    by (intro exI [of _ "snd (handle demo_os (demo_call True 57 5 0 0))"]) (simp add: branch_taken_def prod_eq_iff)
qed

end
