(* ===== verification/Isa_Prog.thy ===== *)
theory Isa_Prog
  imports Isa_Complete Syscalls_Props
begin

text \<open>
  Programs: the abstract machine with the system calls that need nothing from the host (output, the heap,
  \<open>isatty\<close>, \<open>getpid\<close> and \<open>_exit\<close>), as an executable reference interpreter, and the proof that every execution
  loop of the emulator gives the answer of the interpreter.
\<close>

unbundle bit_operations_syntax

section \<open>The reference interpreter\<close>

record prog_env =
  out :: "8 word list"
  brk :: "int option"
  stack_limit :: "int option"

type_synonym prog = "arch \<times> prog_env"

text \<open>A system call that returns: the value for \<open>a0\<close> and the environment.\<close>

definition prog_call :: "arch \<Rightarrow> prog_env \<Rightarrow> (32 word \<times> prog_env) option" where
  "prog_call a v =
     (let n = xreg a 17; a0 = xreg a 10 in
      if n = 64 \<and> (a0 = 1 \<or> a0 = 2) \<and> xreg a 12 \<noteq> 0 then
        map_option (\<lambda>bs. (xreg a 12, v\<lparr>out := out v @ bs\<rparr>)) (mem_read (amem a) (uint (xreg a 11)) (unat (xreg a 12)))
      else if n = 214 then
        (case (stack_limit v, brk v) of
           (Some b, Some h) \<Rightarrow>
             if h + uint a0 \<ge> b then Some (0xFFFFFFFF, v)
             else if fits 32 h then Some (word_of_int h, v\<lparr>brk := Some (h + uint a0)\<rparr>)
             else None
         | _ \<Rightarrow> None)
      else if n = 89 \<and> (a0 = 0 \<or> a0 = 1 \<or> a0 = 2) then Some (1, v)
      else if n = 172 then Some (1, v)
      else None)"

abbreviation ecall_inst :: rv_inst where
  "ecall_inst \<equiv> IType 0x73 0 0 0 0"

definition prog_exec :: "int \<Rightarrow> rv_inst \<Rightarrow> prog \<Rightarrow> prog option" where
  "prog_exec sz i g =
     (case g of (a, v) \<Rightarrow>
        if i = ecall_inst
        then map_option (\<lambda>(r, v'). (a\<lparr>xreg := (xreg a)(10 := r), apc := apc a + word_of_int sz\<rparr>, v')) (prog_call a v)
        else map_option (\<lambda>a'. (a', v)) (isa_exec sz i a))"

text \<open>What ends a program: \<open>_exit\<close>, a system call that does not exist, the heap
  without a stack limit, output from outside the memory, and a load or store outside it.\<close>

definition SYSCALLS :: "int list" where
  "SYSCALLS = [93, 214, 64, 63, 1024, 57, 62, 80, 89, 129, 172, 60, 34, 35]"

definition prog_halt :: "rv_inst \<Rightarrow> prog \<Rightarrow> (exn \<times> prog) option" where
  "prog_halt i g =
     (case g of (a, v) \<Rightarrow>
        if i = ecall_inst then
          if xreg a 17 = 93 then Some (ExecutionTerminated (ExitCode (sint (xreg a 10))), (a\<lparr>apc := apc a + 4\<rparr>, v))
          else if uint (xreg a 17) \<notin> set SYSCALLS then Some (InvalidSyscallError, g)
          else if xreg a 17 = 214 \<and> stack_limit v = None then Some (InvalidSyscallError, g)
          else if xreg a 17 = 64 \<and> mem_read (amem a) (uint (xreg a 11)) (unat (xreg a 12)) = None
          then Some (MemoryAccessError (OutOfBounds (uint (xreg a 11)) (uint (xreg a 12))), g)
          else None
        else (case access_of i a of
                Some (addr, n) \<Rightarrow>
                  if mem_read (amem a) addr n = None then Some (MemoryAccessError (OutOfBounds addr (int n)), g) else None
              | None \<Rightarrow> None))"

definition prog_fetch :: "arch \<Rightarrow> (int \<times> rv_inst) option" where
  "prog_fetch a =
     (case mem_read (amem a) (uint (apc a)) 4 of
        None \<Rightarrow> None
      | Some bs \<Rightarrow>
          let w = le_int bs
          in if w AND 3 = 3 then Some (4, disasm w) else map_option (Pair 2) (rvc_table (w AND 0xFFFF)))"

text \<open>\<open>n\<close> instructions at most; \<open>None\<close> if the program has not ended by then or does something the interpreter does not
  know.\<close>

fun prog_run :: "nat \<Rightarrow> prog \<Rightarrow> (exn \<times> prog) option" where
  "prog_run 0 g = None"
| "prog_run (Suc n) g =
     (case prog_fetch (fst g) of
        None \<Rightarrow> None
      | Some (sz, i) \<Rightarrow>
          (case prog_halt i g of
             Some r \<Rightarrow> Some r
           | None \<Rightarrow> (case prog_exec sz i g of Some g' \<Rightarrow> prog_run n g' | None \<Rightarrow> None)))"

section \<open>Its relational form\<close>

inductive prog_step :: "prog \<Rightarrow> prog \<Rightarrow> bool" where
  step: "isa_fetch (fst g) sz i \<Longrightarrow> prog_exec sz i g = Some g' \<Longrightarrow> prog_step g g'"

inductive prog_stop :: "prog \<Rightarrow> exn \<Rightarrow> prog \<Rightarrow> bool" where
  stop: "isa_fetch (fst g) sz i \<Longrightarrow> prog_halt i g = Some (e, g') \<Longrightarrow> prog_stop g e g'"

inductive_cases prog_stepE: "prog_step g g'"

inductive_cases prog_stopE: "prog_stop g e g'"

lemma prog_fetch_sound:
  assumes "prog_fetch a = Some (sz, i)"
  shows "isa_fetch a sz i"
proof -
  obtain bs where bs: "mem_read (amem a) (uint (apc a)) 4 = Some bs"
    "if le_int bs AND 3 = 3 then sz = 4 \<and> i = disasm (le_int bs) else sz = 2 \<and> rvc_table (le_int bs AND 0xFFFF) = Some i"
    using assms by (auto simp: prog_fetch_def Let_def split: option.splits if_splits)
  have "length bs = 4" using bs(1) by (auto simp: mem_read_def split: if_splits)
  then obtain b0 b1 b2 b3 where "bs = [b0, b1, b2, b3]" by (auto simp: numeral_eq_Suc length_Suc_conv)
  then have f: "fits 32 (le_int bs)" unfolding le_int_bytes by (simp only: le_int_bytes fits_word_bytes)
  show ?thesis
  proof (cases "le_int bs AND 3 = 3")
    case True
    then show ?thesis using bs disasm_encode [OF f] disasm_wf [OF True] by (auto intro: isa_fetch.full simp del: encode32.simps)
  qed (use bs in \<open>auto intro: isa_fetch.compressed\<close>)
qed

lemma prog_run_sound:
  assumes "prog_run n g = Some (e, g')"
  shows "\<exists>k g1. k < n \<and> (prog_step ^^ k) g g1 \<and> prog_stop g1 e g'"
  using assms
proof (induction n arbitrary: g)
  case (Suc n)
  obtain sz i where f: "prog_fetch (fst g) = Some (sz, i)" using Suc.prems by (auto split: option.splits)
  note fetch = prog_fetch_sound [OF f]
  show ?case
  proof (cases "prog_halt i g")
    case (Some r)
    then have "prog_stop g e g'" using Suc.prems f prog_stop.stop [OF fetch] by simp
    then show ?thesis by (intro exI [of _ 0] exI [of _ g]) simp
  next
    case None
    then obtain g2 where g2: "prog_exec sz i g = Some g2" "prog_run n g2 = Some (e, g')"
      using Suc.prems f by (auto split: option.splits)
    obtain k g1 where "k < n" "(prog_step ^^ k) g2 g1" "prog_stop g1 e g'" using Suc.IH [OF g2(2)] by blast
    then show ?thesis using prog_step.step [OF fetch g2(1)]
      by (intro exI [of _ "Suc k"] exI [of _ g1]) (auto intro: relpowp_Suc_I2 simp del: relpowp.simps)
  qed
qed simp

section \<open>The state of the emulator as a state of the interpreter\<close>

definition env_of :: "'o sc_state env \<Rightarrow> prog_env" where
  "env_of h = \<lparr>out = console (handler h), brk = heap_end (mach h), stack_limit = stack_bottom (mach h)\<rparr>"

definition prog_of :: "'o sc_state msys \<Rightarrow> prog" where
  "prog_of s = (arch_of s, env_of (host s))"

text \<open>The states in which the interpreter speaks for the emulator: no trap handler, no peripherals, no invariant checks;
  with a timer, interrupts disabled and room for \<open>n\<close> ticks.\<close>

definition prog_ok :: "bool \<Rightarrow> nat \<Rightarrow> 'o sc_state msys \<Rightarrow> bool" where
  "prog_ok timer n s \<longleftrightarrow> isa_ok s \<and> runners s = [] \<and> csrs (cpu s) 0x305 = 0 \<and> \<not> opt_check_inv (mach (host s)) \<and>
     (timer \<longrightarrow> csrs (cpu s) 0x300 AND push_bit 3 1 = 0 \<and> mtime (cpu s) + int n < 2 ^ 64)"

section \<open>System calls\<close>

text \<open>\<open>ECALL\<close> up to the call of the handler, and from its return on.\<close>

definition at_call :: "'h sys \<Rightarrow> 'h sys" where
  "at_call s = s\<lparr>cpu := (cpu s)\<lparr>decode_cache := (decode_cache (cpu s))(drop_bit 2 0x73 \<mapsto> (0x73, 0, 0, 0, 0, 0)),
     next_pc := (pc (cpu s) + 4) AND 0xFFFFFFFF\<rparr>\<rparr>"

definition after_call :: "'h sys \<Rightarrow> 'h sys" where
  "after_call t = t\<lparr>cpu := (bypassed_trap_return 11 0 (cpu t))\<lparr>registers := (registers (cpu t))(0 := 0)\<rparr>\<rparr>"

lemma execute_ecall:
  assumes "isa_ok s" "csrs (cpu s) 0x305 = 0"
  shows "h (at_call s) = (Inr (), t) \<Longrightarrow> execute (Some h) 0x73 s = (Inr (), after_call t)"
    and "h (at_call s) = (Inl e, t) \<Longrightarrow> execute (Some h) 0x73 s = (Inl e, t)"
proof -
  have "decode_fields 0x73 = (0x73, 0, 0, 0, 0, 0)" by (simp add: decode_fields_def)
  moreover have "execute ec 0x73 s = dispatch ec 0x73 4 (decode_fields 0x73)
      (s\<lparr>cpu := (cpu s)\<lparr>decode_cache := (decode_cache (cpu s))(drop_bit 2 0x73 \<mapsto> decode_fields 0x73)\<rparr>\<rparr>)" for ec
    using execute_fresh [OF isa_ok_inv(1,2) [OF assms(1)], of ec "0x73"] by simp
  ultimately show "h (at_call s) = (Inr (), t) \<Longrightarrow> execute (Some h) 0x73 s = (Inr (), after_call t)"
    "h (at_call s) = (Inl e, t) \<Longrightarrow> execute (Some h) 0x73 s = (Inl e, t)"
    using assms(2)
    by (simp_all add: dispatch_def opcode_handler_def exec_SYSTEM_def exec_ECALL_def py_then_def py_bind_def on_cpu_def
        py_zoom_def py_modify_def at_call_def after_call_def bypassed_trap_return_def set_csr_def Let_def set_reg_def)
qed

lemma isa_ok_reg: "isa_ok s \<Longrightarrow> registers (cpu s) i = uint (xreg (arch_of s) i)"
  using cpu_ranges_reg by (simp add: isa_ok_def sys_inv_def cpu_inv_def)

lemma ram_slice:
  assumes "checked s" "safe_valid (ram s) a n"
  shows "take n (drop (nat a) (memory (ram s))) = map (\<lambda>k. sbyte s (a + int k)) [0..<n]"
  using assms by (intro nth_equalityI) (auto simp: checked_def ram_wf_def safe_valid_def nat_add_distrib)

lemma at_call_simps [simp]:
  "registers (cpu (at_call s)) = registers (cpu s)" "ram (at_call s) = ram s" "host (at_call s) = host s"
  "pc (cpu (at_call s)) = pc (cpu s)" "next_pc (cpu (at_call s)) = (pc (cpu s) + 4) AND 0xFFFFFFFF"
  "mmio_ranges (at_call s) = mmio_ranges s" "runners (at_call s) = runners s" "csrs (cpu (at_call s)) = csrs (cpu s)"
  "mtime (cpu (at_call s)) = mtime (cpu s)" "(at_call s)\<lparr>host := host s\<rparr> = at_call s"
  by (simp_all add: at_call_def)

lemma handle_number:
  "registers (cpu s) 17 = n \<Longrightarrow> handle os s = (case syscall_handler os n of Some h \<Rightarrow> h s | None \<Rightarrow> (Inl InvalidSyscallError, s))"
  by (simp add: handle_def reg_def)

lemma prog_call_handle:
  assumes "isa_ok s" "prog_call (arch_of s) (env_of (host s)) = Some (r, v)"
  shows "\<exists>h. handle os (at_call s) = (Inr (), with_a0 (uint r) ((at_call s)\<lparr>host := h\<rparr>)) \<and> env_of h = v \<and>
    machine_opts (mach h) = opts s"
proof -
  let ?x = "xreg (arch_of s)"
  note R = isa_ok_reg [OF assms(1)]
  consider (w) bs where "?x 17 = 64" "?x 10 = 1 \<or> ?x 10 = 2" "?x 12 \<noteq> 0" "mem_read (mem_of s) (uint (?x 11)) (unat (?x 12)) = Some bs"
      "r = ?x 12" "v = (env_of (host s))\<lparr>out := out (env_of (host s)) @ bs\<rparr>"
    | (full) b h where "?x 17 = 214" "stack_bottom (mach (host s)) = Some b" "heap_end (mach (host s)) = Some h"
      "h + uint (?x 10) \<ge> b" "r = 0xFFFFFFFF" "v = env_of (host s)"
    | (more) b h where "?x 17 = 214" "stack_bottom (mach (host s)) = Some b" "heap_end (mach (host s)) = Some h"
      "h + uint (?x 10) < b" "fits 32 h" "r = word_of_int h" "v = (env_of (host s))\<lparr>brk := Some (h + uint (?x 10))\<rparr>"
    | (t) "?x 17 = 89" "?x 10 = 0 \<or> ?x 10 = 1 \<or> ?x 10 = 2" "r = 1" "v = env_of (host s)"
    | (p) "?x 17 = 172" "r = 1" "v = env_of (host s)"
    using assms(2) unfolding prog_call_def Let_def
    by (auto simp: env_of_def not_le simp del: arch_of_simps(1) split: if_splits option.splits)
  then show ?thesis
  proof cases
    case w
    have n: "uint (?x 12) = int (unat (?x 12))" "0 < unat (?x 12)" using w(3) by (simp_all add: unat_gt_0)
    have c: "checked (at_call s)" using isa_ok_inv(3) [OF assms(1)] by (simp add: checked_def)
    note m = mem_read_valid [OF w(4) n(2)]
    have "load_binary (uint (?x 11)) (uint (?x 12)) (at_call s) = (Inr bs, at_call s)"
      unfolding n(1) using load_binary_plain [OF c, of "uint (?x 11)" "unat (?x 12)"] m ram_slice [OF isa_ok_inv(3) [OF assms(1)] m(1)] by simp
    then show ?thesis
      using w(1,2,5,6) R
      by (auto simp: handle_number [where n = 64] syscall_handler_def handle_write_def Let_def reg_def py_bind_def py_then_def upd_sc_def py_modify_def
        set_a0_eq env_of_def simp del: arch_of_simps(1))
  next
    case full
    then show ?thesis using R
      by (intro exI [of _ "host s"]) (auto simp: handle_number [where n = 214] syscall_handler_def handle_sbrk_def reg_def set_a0_eq simp del: arch_of_simps(1))
  next
    case more
    then show ?thesis using R
      by (auto simp: handle_number [where n = 214] syscall_handler_def handle_sbrk_def Let_def reg_def py_then_def py_bind_def
        set_heap_end_def on_mach_def py_zoom_def py_modify_def set_a0_eq env_of_def machine_opts_def reg_word [symmetric] simp del: arch_of_simps(1))
  next
    case t
    then show ?thesis using R
      by (intro exI [of _ "host s"]) (auto simp: handle_number [where n = 89] syscall_handler_def handle_isatty_def Let_def reg_def set_a0_eq simp del: arch_of_simps(1))
  next
    case p
    then show ?thesis using R
      by (intro exI [of _ "host s"]) (auto simp: handle_number [where n = 172] syscall_handler_def handle_getpid_def Let_def reg_def set_a0_eq simp del: arch_of_simps(1))
  qed
qed

lemma prog_halt_handle:
  assumes "isa_ok s" "prog_halt ecall_inst (prog_of s) = Some (e, g)"
  shows "\<exists>t. handle os (at_call s) = (Inl e, t) \<and> prog_of t = g"
proof -
  let ?x = "xreg (arch_of s)"
  note R = isa_ok_reg [OF assms(1)]
  have a: "arch_of (at_call s) = arch_of s" "prog_of (at_call s) = prog_of s"
    by (simp_all add: arch_of_def prog_of_def mem_of_def fun_eq_iff)
  consider (exit) "?x 17 = 93" "e = ExecutionTerminated (ExitCode (sint (?x 10)))" "g = ((arch_of s)\<lparr>apc := apc (arch_of s) + 4\<rparr>, env_of (host s))"
    | (unknown) "uint (?x 17) \<notin> set SYSCALLS" "e = InvalidSyscallError" "g = prog_of s"
    | (no_heap) "?x 17 = 214" "stack_bottom (mach (host s)) = None" "e = InvalidSyscallError" "g = prog_of s"
    | (bad) "?x 17 = 64" "mem_read (mem_of s) (uint (?x 11)) (unat (?x 12)) = None"
      "e = MemoryAccessError (OutOfBounds (uint (?x 11)) (uint (?x 12)))" "g = prog_of s"
    using assms(2) by (auto simp: prog_halt_def prog_of_def env_of_def simp del: arch_of_simps(1) split: if_splits)
  then show ?thesis
  proof cases
    case exit
    have "to_signed (uint (?x 10)) = sint (?x 10)" using signed32_uint [of "?x 10"] by (auto simp: to_signed_def signed32_def)
    then have "handle os (at_call s) = (Inl e, adv (at_call s))"
      using exit(1,2) R by (simp add: handle_number [where n = 93] syscall_handler_def handle_exit_def reg_def adv_def del: arch_of_simps(1))
    moreover have "prog_of (adv (at_call s)) = g"
      using exit(3) w32_next [of "pc (cpu s)" 4] by (simp add: prog_of_def arch_of_def adv_def mem_of_def fun_eq_iff)
    ultimately show ?thesis by blast
  next
    case unknown
    then show ?thesis
      using R a by (simp add: handle_def reg_def syscall_handler_def SYSCALLS_def del: arch_of_simps(1))
  next
    case no_heap
    then show ?thesis
      using R a by (simp add: handle_number [where n = 214] syscall_handler_def handle_sbrk_def del: arch_of_simps(1))
  next
    case bad
    have "\<not> safe_valid (ram s) (uint (?x 11)) (unat (?x 12))" using mem_read_invalid [OF bad(2)] .
    then have "load_binary (uint (?x 11)) (uint (?x 12)) (at_call s) = (Inl e, at_call s)"
      using isa_ok_inv(3) [OF assms(1)] bad(3)
      by (auto simp: load_binary_def on_ram_def py_zoom_def ram_load_binary_def SafeRAM_load_binary_def SafeRAM_check_def checked_def safe_valid_def
        py_defs)
    then show ?thesis
      using bad R a by (simp add: handle_number [where n = 64] syscall_handler_def handle_write_def reg_def Let_def py_bind_def del: arch_of_simps(1))
  qed
qed

lemma fetched_ecall: "fetched sz ecall_inst w \<Longrightarrow> sz = 4 \<and> w = 0x73"
  using rvc_formatted [of "w AND 0xFFFF" ecall_inst] unfolding fetched_def by (elim conjE disjE) (simp_all add: fld_def)

lemma sys_inv_a0:
  assumes "sys_inv r md s" "fits 32 v"
  shows "sys_inv r md (with_a0 v (s\<lparr>host := h\<rparr>))"
  using assms by (simp add: sys_inv_def with_a0_def cpu_inv_set_reg)

lemma after_call_ok:
  assumes "isa_ok s" "csrs (cpu s) 0x305 = 0" "fits 32 v" "t = with_a0 v ((at_call s)\<lparr>host := h\<rparr>)"
  shows "isa_ok (after_call t)"
proof -
  let ?h = "\<lambda>u. (Inr (), if u = at_call s then t else u)"
  have "ecall_contract True True (Some ?h)"
    using sys_inv_a0 [OF _ assms(3)] assms(4) by unfold_locales (auto simp: py_keeps_def)
  from ecall_contract.execute_inv [OF this isa_ok_inv(1) [OF assms(1)], of "0x73"]
  have "sys_inv True True (after_call t)"
    using execute_ecall(1) [OF assms(1,2), of ?h t] by (simp add: fits_def)
  then show ?thesis
    using isa_ok_inv(3,4) [OF assms(1)] by (simp add: isa_ok_def checked_def assms(4) after_call_def with_a0_def)
qed

section \<open>Execution\<close>

lemma prog_ok_isa: "prog_ok timer n s \<Longrightarrow> isa_ok s"
  by (simp add: prog_ok_def)

lemma mie_or_mpie: "(x OR 128) AND 8 = (x AND 8 :: int)"
proof -
  have "(x OR push_bit 7 1) AND push_bit 3 1 = (x AND push_bit 3 1 :: int)"
    by (rule bit_eqI) (auto simp: bit_or_iff bit_and_iff bit_push_bit_iff bit_1_iff simp del: push_bit_of_1)
  then show ?thesis by simp
qed

lemma timer_update_masked:
  assumes "csrs c 0x300 AND push_bit 3 1 = 0"
  shows "\<exists>t. timer_update c = (Inr (), t) \<and> (\<forall>a. a \<noteq> 0x344 \<longrightarrow> csrs t a = csrs c a) \<and> mtime t = mtime c + 1 \<and>
    registers t = registers c \<and> next_pc t = next_pc c"
  using assms by (cases "mtip c"; cases "mtimecmp c \<le> mtime c") (simp_all add: timer_update_def set_csr_def)

lemma prog_execute:
  assumes "prog_ok timer n s" "fetched sz i w" "prog_exec sz i (prog_of s) = Some g"
  shows "\<exists>t. execute (Some (handle os)) w s = (Inr (), t) \<and> prog_of (adv t) = g \<and> prog_ok timer n t"
proof (cases "i = ecall_inst")
  case True
  note ok = prog_ok_isa [OF assms(1)]
  have w: "sz = 4" "w = 0x73" using fetched_ecall assms(2) True by blast+
  obtain r v where r: "prog_call (arch_of s) (env_of (host s)) = Some (r, v)"
      "g = ((arch_of s)\<lparr>xreg := (xreg (arch_of s))(10 := r), apc := apc (arch_of s) + 4\<rparr>, v)"
    using assms(3) True w(1) by (auto simp: prog_exec_def prog_of_def)
  obtain h where h: "handle os (at_call s) = (Inr (), with_a0 (uint r) ((at_call s)\<lparr>host := h\<rparr>))" "env_of h = v" "machine_opts (mach h) = opts s"
    using prog_call_handle [OF ok r(1)] by blast
  let ?t = "after_call (with_a0 (uint r) ((at_call s)\<lparr>host := h\<rparr>))"
  have c: "csrs (cpu s) 0x305 = 0" using assms(1) by (simp add: prog_ok_def)
  have "execute (Some (handle os)) w s = (Inr (), ?t)" unfolding w by (rule execute_ecall(1) [OF ok c, where h = "handle os", OF h(1)])
  moreover have "isa_ok ?t" using after_call_ok [OF ok c _ refl] by (simp add: fits_def uint_lt2p [where 'a = 32, simplified])
  moreover have "prog_of (adv ?t) = g"
    using r(2) h(2) w32_next [of "pc (cpu s)" 4] isa_ok_def [of s] ok
    by (auto simp: prog_of_def arch_of_def adv_def after_call_def with_a0_def bypassed_trap_return_def set_csr_def Let_def mem_of_def fun_eq_iff)
  ultimately show ?thesis
    using assms(1) h(3)
    by (auto simp: prog_ok_def after_call_def with_a0_def bypassed_trap_return_def set_csr_def Let_def mie_or_mpie machine_opts_def)
next
  case False
  then obtain a where a: "isa_exec sz i (arch_of s) = Some a" "g = (a, env_of (host s))"
    using assms(3) by (auto simp: prog_exec_def prog_of_def)
  obtain t where "execute (Some (handle os)) w s = (Inr (), t)" "arch_of (adv t) = a" "isa_ok t" "kept s t"
    using isa_execute [OF prog_ok_isa [OF assms(1)] a(1) assms(2)] by blast
  then show ?thesis using a(2) assms(1) by (auto simp: prog_of_def adv_def kept_def prog_ok_def)
qed

lemma prog_execute_halt:
  assumes "prog_ok timer n s" "fetched sz i w" "prog_halt i (prog_of s) = Some (e, g)"
  shows "\<exists>t. execute (Some (handle os)) w s = (Inl e, t) \<and> prog_of t = g"
proof (cases "i = ecall_inst")
  case True
  note ok = prog_ok_isa [OF assms(1)]
  have w: "w = 0x73" using fetched_ecall assms(2) True by blast
  obtain t where "handle os (at_call s) = (Inl e, t)" "prog_of t = g" using prog_halt_handle [OF ok] assms(3) True by blast
  then show ?thesis using execute_ecall(2) [OF ok] assms(1) unfolding w by (auto simp: prog_ok_def)
next
  case False
  then obtain addr k where a: "access_of i (arch_of s) = Some (addr, k)" "mem_read (mem_of s) addr k = None"
      "e = MemoryAccessError (OutOfBounds addr (int k))" "g = prog_of s"
    using assms(3) by (auto simp: prog_halt_def prog_of_def split: option.splits if_splits)
  show ?thesis
    using execute_access_fault [OF prog_ok_isa [OF assms(1)] assms(2) a(1,2)] a(3,4) by (fastforce simp: prog_of_def kept_def)
qed

lemma prog_tick:
  assumes "prog_ok timer (Suc n) s"
  shows "\<exists>t. tick timer s = (Inr (), t) \<and> prog_of (adv t) = prog_of (adv s) \<and> prog_ok timer n t"
proof (cases timer)
  case True
  have m: "csrs (cpu s) 0x300 AND push_bit 3 1 = 0" "mtime (cpu s) + int (Suc n) < 2 ^ 64" "isa_ok s" 
    using assms True by (simp_all add: prog_ok_def)
  obtain c where c: "timer_update (cpu s) = (Inr (), c)" "\<And>a. a \<noteq> 0x344 \<Longrightarrow> csrs c a = csrs (cpu s) a"
      "mtime c = mtime (cpu s) + 1" "registers c = registers (cpu s)" "next_pc c = next_pc (cpu s)"
    using timer_update_masked [OF m(1)] by blast
  have "cpu_inv True True c"
    using timer_update_inv [of True True "cpu s"] c(1) m(2) sys_invD(1) [OF isa_ok_inv(1) [OF m(3)]] by simp
  then have "isa_ok (s\<lparr>cpu := c\<rparr>)" using m(3) c(4) by (simp add: isa_ok_def sys_inv_def checked_def)
  then show ?thesis
    using assms c True by (auto simp: tick_def on_cpu_def py_zoom_def prog_ok_def prog_of_def adv_def arch_of_def)
next
  case False
  then show ?thesis using assms by (simp add: tick_def py_return_def prog_ok_def)
qed

lemma prog_adv: "prog_ok timer n t \<Longrightarrow> prog_ok timer n (adv t)"
  using isa_ok_adv [of t] by (simp add: prog_ok_def) (simp add: adv_def)

section \<open>The loops\<close>

text \<open>The word a loop executes: the one in memory, or its lower half where that holds a compressed instruction.\<close>

definition same_inst :: "int \<Rightarrow> int \<Rightarrow> bool" where
  "same_inst v w \<longleftrightarrow> w = v \<or> v AND 3 \<noteq> 3 \<and> w = v AND 0xFFFF"

lemma same_inst_fetched: "same_inst v w \<Longrightarrow> fetched sz i v \<Longrightarrow> fetched sz i w"
  using encode32_low_bits [of i] by (auto simp: same_inst_def fetched_def and.assoc fits_and_left)

text \<open>
  What the four execution loops have in common: each iteration fetches, executes, lets the timer tick if there is one,
  advances the program counter and ends with something that does nothing without peripherals.
\<close>

locale exec_loop =
  fixes ecall :: "('u msys, unit) py option" and timer :: bool and body :: "'l \<Rightarrow> ('u msys, 'l) py" and rest :: "'l \<Rightarrow> ('u msys, 'l) py"
  assumes iteration: "isa_ok s \<Longrightarrow> \<not> opt_check_inv (mach (host s)) \<Longrightarrow> mem_read (mem_of s) (pc (cpu s)) 4 = Some bs \<Longrightarrow>
      \<exists>w. same_inst (le_int bs) w \<and>
        body l s = py_then (execute ecall w) (py_then (tick timer) (py_then advance_pc (rest l))) s"
    and idle: "runners s = [] \<Longrightarrow> \<exists>l'. rest l s = (Inr l', s)"
begin

lemma iteration_fetched:
  assumes "isa_ok s" "\<not> opt_check_inv (mach (host s))" "isa_fetch (arch_of s) sz i"
  shows "\<exists>w. fetched sz i w \<and> body l s = py_then (execute ecall w) (py_then (tick timer) (py_then advance_pc (rest l))) s"
proof -
  obtain bs where bs: "mem_read (mem_of s) (pc (cpu s)) 4 = Some bs" using assms(3) pc_word [OF assms(1)] by (auto elim!: isa_fetchE)
  then have "fetched sz i (le_int bs)" using fetch_isa [OF assms(1,3)] fetch_bytes(1) [OF assms(1) bs] by auto
  then show ?thesis using iteration [OF assms(1,2) bs] same_inst_fetched by blast
qed

end

lemma poll_idle: "runners s = [] \<Longrightarrow> \<exists>l'. poll mmio l s = (Inr l', s)"
  by (simp add: poll_def peripherals_run_def Let_def)

lemma py_then_units:
  "py_then (py_return ()) m = m" "py_then (m' :: ('s, unit) py) (py_return ()) = m'"
  by (auto simp: py_then_def py_bind_def py_return_def fun_eq_iff split: prod.split sum.split)

definition timer_step :: "('h sys, unit) py option \<Rightarrow> unit \<Rightarrow> ('h sys, unit) py" where
  "timer_step ecall _ = py_bind fetch_word (\<lambda>inst. py_then (execute_fetched ecall inst) (py_then (on_cpu timer_update) advance_pc))"

lemma run_timer_forever: "run_timer ecall = py_forever (timer_step ecall) ()"
  by (simp add: run_timer_def timer_step_def [abs_def])

lemma fetch_iteration:
  assumes "isa_ok s" "mem_read (mem_of s) (pc (cpu s)) 4 = Some bs"
  shows "\<exists>w. same_inst (le_int bs) w \<and> py_bind fetch_word (\<lambda>inst. py_then (execute_fetched ecall inst) m) s = py_then (execute ecall w) m s"
    "\<exists>w. same_inst (le_int bs) w \<and> py_bind fetch_halves (\<lambda>inst. py_then (execute ecall inst) m) s = py_then (execute ecall w) m s"
proof -
  note f = fetch_bytes(1) [OF assms]
  show "\<exists>w. same_inst (le_int bs) w \<and> py_bind fetch_word (\<lambda>inst. py_then (execute_fetched ecall inst) m) s = py_then (execute ecall w) m s"
    using isa_ok_inv(2) [OF assms(1)] by (auto simp: f same_inst_def py_bind_def py_then_def execute_fetched_execute)
  obtain w where w: "fetch_word s = (Inr w, s)" "fetch_halves s = (Inr (if w AND 3 = 3 then w else w AND 0xFFFF), s)"
    using fetch_agree [OF plain_everywhere [OF isa_ok_inv(3,4) [OF assms(1)]] mem_read_valid(1) [OF assms(2)]] by auto
  then have "same_inst (le_int bs) (if w AND 3 = 3 then w else w AND 0xFFFF)" using f by (auto simp: same_inst_def)
  then show "\<exists>w. same_inst (le_int bs) w \<and> py_bind fetch_halves (\<lambda>inst. py_then (execute ecall inst) m) s = py_then (execute ecall w) m s"
    using w(2) by (auto simp: py_bind_def)
qed

interpretation fast_loop: exec_loop ecall False "fast_step ecall" "\<lambda>_. py_return ()" for ecall :: "('u msys, unit) py option"
  by unfold_locales (use fetch_iteration(1) [where m = advance_pc] in \<open>simp_all add: fast_step_def tick_def py_then_units py_return_def\<close>)

interpretation timer_loop: exec_loop ecall True "timer_step ecall" "\<lambda>_. py_return ()" for ecall :: "('u msys, unit) py option"
  by unfold_locales (use fetch_iteration(1) [where m = "py_then (on_cpu timer_update) advance_pc"] in
    \<open>simp_all add: timer_step_def tick_def py_then_units py_return_def\<close>)

interpretation mmio_loop: exec_loop ecall timer "mmio_step ecall timer" "poll True" for ecall :: "('u msys, unit) py option" and timer
  by unfold_locales (use fetch_iteration(1) poll_idle in \<open>simp_all add: mmio_step_def\<close>)

interpretation checks_loop: exec_loop ecall timer "checks_step ecall timer mmio" "poll mmio" for ecall :: "('u msys, unit) py option" and timer mmio
  by unfold_locales (use fetch_iteration(2) poll_idle in \<open>simp_all add: checks_step_def py_then_units\<close>)

section \<open>Runs\<close>

text \<open>Such a loop, with the system-call handler, gives the answers of the interpreter.\<close>

locale prog_loop = exec_loop "Some (handle os)" timer body rest
  for os :: "'o os" and timer :: bool and body :: "'l \<Rightarrow> ('o, 'l) sc" and rest :: "'l \<Rightarrow> ('o, 'l) sc"
begin

lemma prog_follows:
  assumes "prog_ok timer (Suc n) s" "prog_step (prog_of s) g"
  shows "\<exists>l' s'. body l s = (Inr l', s') \<and> prog_of s' = g \<and> prog_ok timer n s'"
proof -
  obtain sz i where i: "isa_fetch (arch_of s) sz i" "prog_exec sz i (prog_of s) = Some g"
    using assms(2) by (auto elim: prog_stepE simp: prog_of_def)
  obtain w where w: "fetched sz i w"
      "body l s = py_then (execute (Some (handle os)) w) (py_then (tick timer) (py_then advance_pc (rest l))) s"
    using iteration_fetched [OF prog_ok_isa [OF assms(1)] _ i(1)] assms(1) unfolding prog_ok_def by blast
  obtain t where t: "execute (Some (handle os)) w s = (Inr (), t)" "prog_of (adv t) = g" "prog_ok timer (Suc n) t"
    using prog_execute [OF assms(1) w(1) i(2)] by blast
  obtain u where u: "tick timer t = (Inr (), u)" "prog_of (adv u) = g" "prog_ok timer n (adv u)"
    using prog_tick [OF t(3)] t(2) prog_adv by metis
  moreover obtain l' where "rest l (adv u) = (Inr l', adv u)" using idle [of "adv u" l] u(3) by (auto simp: prog_ok_def)
  ultimately show ?thesis using t(1) by (simp add: w(2) py_then_def py_bind_def advance_adv)
qed

lemma prog_raises:
  assumes "prog_ok timer n s" "prog_stop (prog_of s) e g"
  shows "\<exists>s'. body l s = (Inl e, s') \<and> prog_of s' = g"
proof -
  obtain sz i where i: "isa_fetch (arch_of s) sz i" "prog_halt i (prog_of s) = Some (e, g)"
    using assms(2) by (auto elim: prog_stopE simp: prog_of_def)
  obtain w where w: "fetched sz i w"
      "body l s = py_then (execute (Some (handle os)) w) (py_then (tick timer) (py_then advance_pc (rest l))) s"
    using iteration_fetched [OF prog_ok_isa [OF assms(1)] _ i(1)] assms(1) unfolding prog_ok_def by blast
  show ?thesis using prog_execute_halt [OF assms(1) w(1) i(2), of os] by (auto simp: w(2) py_then_def py_bind_def)
qed

end

sublocale prog_loop \<subseteq> stopping_simulation body prog_step prog_of "prog_ok timer" prog_stop
  by unfold_locales (use prog_follows prog_raises in blast)+

context prog_loop
begin

lemma loop_answers:
  assumes "prog_ok timer n s" "prog_run n (prog_of s) = Some (e, g)"
  shows "\<exists>s'. py_forever body l s = Some (e, s') \<and> prog_of s' = g"
proof -
  obtain k g1 where k: "k < n" "(prog_step ^^ k) (prog_of s) g1" "prog_stop g1 e g" using prog_run_sound [OF assms(2)] by blast
  have "prog_ok timer k s" using assms(1) k(1) by (auto simp: prog_ok_def)
  from stops_forever [OF this k(2,3)] show ?thesis .
qed

end

interpretation fast: prog_loop os False "fast_step (Some (handle os))" "\<lambda>_. py_return ()" for os :: "'o os"
  by unfold_locales

interpretation timed: prog_loop os True "timer_step (Some (handle os))" "\<lambda>_. py_return ()" for os :: "'o os"
  by unfold_locales

interpretation slow: prog_loop os timer "mmio_step (Some (handle os)) timer" "poll True" for os :: "'o os" and timer
  by unfold_locales

interpretation watched: prog_loop os timer "checks_step (Some (handle os)) timer mmio" "poll mmio" for os :: "'o os" and timer mmio
  by unfold_locales

definition regs_ok :: "machine \<Rightarrow> bool" where
  "regs_ok m \<longleftrightarrow> wants_regs m \<longrightarrow> (\<exists>f. make_regformatter_lambda (the (opt_regs m)) = Inr f)"

text \<open>\<open>write(1, "Hi", 2)\<close> and \<open>_exit(7)\<close>, the last with a compressed instruction.\<close>

definition demo_binary :: "8 word list" where
  "demo_binary =
     [0x93, 0x08, 0x00, 0x04,  0x05, 0x45,  0xE1, 0x45,  0x09, 0x46,  0x73, 0x00, 0x00, 0x00,
      0x93, 0x08, 0xD0, 0x05,  0x1D, 0x45,  0x73, 0x00, 0x00, 0x00,  0x48, 0x69]"

definition hello :: "unit sc_state msys" where
  "hello =
     (let s = demo_msys SafeRAM True (SyscallHandler_init 0 1 2 False False ())
      in s\<lparr>ram := \<lparr>memory = demo_binary @ replicate 6 0, ram_size = 28, ram_class = SafeRAM, base_addr = 0\<rparr>,
           host := (host s)\<lparr>mach := (mach (host s))\<lparr>opt_timer := True\<rparr>\<rparr>\<rparr>)"

lemma run_gives:
  assumes "opt_rvc (mach (host s))" "regs_ok (mach (host s))" "prog_ok (opt_timer (mach (host s))) n s"
    "prog_run n (prog_of s) = Some (e, g)"
  shows "\<exists>s'. run (Some (handle os)) s = Some (e, s') \<and> prog_of s' = g"
proof -
  have "pc (cpu s) AND 1 = 0"
    using prog_ok_isa [OF assms(3)] by (auto simp: isa_ok_def sys_inv_def cpu_inv_def aligned_def)
  then show ?thesis
    using assms fast.loop_answers [of n s e g os "()"] timed.loop_answers [of n s e g os "()"] slow.loop_answers [of _ n s e g os 0]
      watched.loop_answers [of _ n s e g os _ 0]
    by (auto simp: run_def Let_def run_with_checks_def run_mmio_def run_timer_forever run_fast_forever regs_ok_def)
qed

text \<open>C2. The emulator runs programs as the manual says: for a machine with the C extension in checked memory without
  peripherals, trap handler or invariant checks, if the reference interpreter ends a program within \<open>n\<close> instructions,
  then \<open>run\<close>, in whichever of its four loops the options select (fast, with the timer, its interrupt disabled and its counter not overflowing within \<open>n\<close> ticks, with peripherals, with
  tracing of registers that exist), ends with
  exactly that exception, an exit code or an access fault, and leaves the registers, the program counter, the memory, the
  output and the break of the interpreter.\<close>

theorem run_answers:
  assumes "opt_rvc (mach (host s))" "regs_ok (mach (host s))" "prog_ok (opt_timer (mach (host s))) n s"
    "prog_run n (prog_of s) = Some (e, g)"
  shows "\<exists>s'. run (Some (handle os)) s = Some (e, s') \<and> prog_of s' = g"
  by (rule run_gives [OF assms])

theorem run_answers_witness:
  "\<exists>s. run (Some (handle demo_os)) hello = Some (ExecutionTerminated (ExitCode 7), s) \<and> console (handler (host s)) = [0x48, 0x69]"
proof -
  have "map_option (\<lambda>(e, g). (e, out (snd g))) (prog_run 9 (prog_of hello)) = Some (ExecutionTerminated (ExitCode 7), [0x48, 0x69])"
    by code_simp
  then obtain g where g: "prog_run 9 (prog_of hello) = Some (ExecutionTerminated (ExitCode 7), g)" "out (snd g) = [0x48, 0x69]" by auto
  have inv: "sys_inv True True hello"
    using demo_msys_inv [of True True SafeRAM "SyscallHandler_init 0 1 2 False False ()"]
    by (simp add: hello_def demo_msys_def sys_inv_def ram_wf_def demo_binary_def)
  have m: "checked hello" "mmio_ranges hello = []" "runners hello = []"
    by (simp_all add: hello_def demo_msys_def checked_def ram_wf_def demo_binary_def demo_sys_def)
  have "prog_ok True 9 hello"
    using inv m by (simp add: prog_ok_def isa_ok_def hello_def demo_msys_def demo_sys_def demo_machine_def CPU_init_def initial_csrs_def)
  then show ?thesis
    using run_answers [of hello 9 _ g demo_os] g
    by (auto simp: hello_def demo_msys_def demo_machine_def regs_ok_def wants_regs_def prog_of_def env_of_def)
qed

end
