(* ===== verification/Gdb_Packet.thy ===== *)
theory Gdb_Packet
  imports Py_Str
begin

text \<open>
  Class \<open>GDBPacket\<close> of \<open>gdbstub.py\<close>: checksum, escaping and framing of the packets of the remote
  protocol of the debugger, with the round trip from \<open>encode\<close> to \<open>decode\<close>.
\<close>

unbundle bit_operations_syntax

section \<open>Operations\<close>

definition GDBPacket_checksum :: "string \<Rightarrow> nat" where
  "GDBPacket_checksum data = sum_list (map of_char data) AND 0xFF"

definition special_chars :: "char list" where
  "special_chars = [CHR ''#'', CHR ''$'', CHR ''}'', CHR ''*'']"

definition flip_0x20 :: "char \<Rightarrow> char" where
  "flip_0x20 c = char_of ((of_char c :: nat) XOR 0x20)"

fun GDBPacket_escape :: "string \<Rightarrow> string" where
  "GDBPacket_escape [] = []"
| "GDBPacket_escape (c # cs) =
     (if c \<in> set special_chars then [CHR ''}'', flip_0x20 c] else [c]) @ GDBPacket_escape cs"

fun GDBPacket_unescape :: "string \<Rightarrow> string" where
  "GDBPacket_unescape (c # d # cs) =
     (if c = CHR ''}'' then flip_0x20 d # GDBPacket_unescape cs
      else c # GDBPacket_unescape (d # cs))"
| "GDBPacket_unescape [c] = [c]"
| "GDBPacket_unescape [] = []"

definition GDBPacket_encode :: "string \<Rightarrow> string" where
  "GDBPacket_encode data =
     (let escaped = GDBPacket_escape data; cs = GDBPacket_checksum escaped
      in ''$'' @ escaped @ ''#'' @ fmt_hex False 2 (int cs))"

definition GDBPacket_decode :: "string \<Rightarrow> string option" where
  "GDBPacket_decode packet =
     (if \<not> py_startswith packet ''$'' \<or> CHR ''#'' \<notin> set packet then None
      else let rest = drop 1 packet;
               data = takeWhile (\<lambda>c. c \<noteq> CHR ''#'') rest;
               checksum_str = drop 1 (dropWhile (\<lambda>c. c \<noteq> CHR ''#'') rest)
           in case py_int16 (take 2 checksum_str) of
                None \<Rightarrow> None
              | Some expected_cs \<Rightarrow>
                  if expected_cs \<noteq> int (GDBPacket_checksum data) then None else Some (GDBPacket_unescape data))"

section \<open>Lemmas\<close>

lemma checksum_less: "GDBPacket_checksum s < 256"
proof -
  have "GDBPacket_checksum s = take_bit 8 (sum_list (map of_char s))"
    by (simp add: GDBPacket_checksum_def take_bit_eq_mask mask_eq_exp_minus_1)
  also have "\<dots> < 2 ^ 8" by (rule take_bit_nat_less_exp)
  finally show ?thesis by simp
qed

lemma flip_special [simp]:
  "flip_0x20 CHR ''#'' = CHR 0x03" "flip_0x20 CHR ''$'' = CHR 0x04"
  "flip_0x20 CHR ''}'' = CHR '']''" "flip_0x20 CHR ''*'' = CHR 0x0A"
  "flip_0x20 CHR 0x03 = CHR ''#''" "flip_0x20 CHR 0x04 = CHR ''$''"
  "flip_0x20 CHR '']'' = CHR ''}''" "flip_0x20 CHR 0x0A = CHR ''*''"
  by code_simp+

lemma less16: "n < 16 \<longleftrightarrow> n \<in> {0, 1, 2, 3, 4, 5, 6, 7, 8, 9, 10, 11, 12, 13, 14, 15 :: nat}"
  unfolding insert_iff empty_iff by arith

lemma hex_char_set: "n < 16 \<Longrightarrow> hex_char u n \<in> set ''0123456789abcdefABCDEF''"
  unfolding less16 by (elim insertE) (simp_all add: hex_char_def char_of_def bit_Suc_0_iff)

lemma hex2_bytes: "n < 256 \<Longrightarrow> fmt_hex u 2 (int n) = [hex_char u (n div 16), hex_char u (n mod 16)]"
  by (simp add: fmt_hex_def hex_nat.simps [of u n] hex_nat.simps [of u "n div 16"] hex_char_def char_of_def bit_Suc_0_iff)

definition hex_ok :: "char \<Rightarrow> bool" where
  "hex_ok c \<longleftrightarrow> \<not> is_space c \<and> c \<notin> set ''_xX-+#:,='' \<and> (of_char c :: nat) < 128 \<and>
     c \<notin> set special_chars \<and> c \<noteq> CHR 0x03"

lemma hex_char_ok: "n < 16 \<Longrightarrow> hex_ok (hex_char u n)"
  using hex_char_set [of n u] by (auto simp: hex_ok_def is_space_def special_chars_def)

lemma py_int16_hex2:
  assumes "n < 256"
  shows "py_int16 [hex_char u (n div 16), hex_char u (n mod 16)] = Some (int n)"
proof -
  have d: "n div 16 < 16" "n mod 16 < 16" using assms by auto
  show ?thesis
    using hex_char_ok [OF d(1), of u] hex_char_ok [OF d(2), of u]
    by (simp add: hex_ok_def py_int16_def signed_int_def unsigned16_def finish_int_def hex_digit_val d)
qed

lemma unescape_escape: "GDBPacket_unescape (GDBPacket_escape s @ t) = s @ GDBPacket_unescape t"
proof (induction s)
  case (Cons c s)
  show ?case
  proof (cases "c \<in> set special_chars")
    case True
    then show ?thesis using Cons by (auto simp: special_chars_def)
  next
    case False
    then have "c \<noteq> CHR ''}''" by (simp add: special_chars_def)
    then have "GDBPacket_unescape (c # r) = c # GDBPacket_unescape r" for r by (cases r) auto
    then show ?thesis using Cons False by simp
  qed
qed simp

lemma hash_escape: "CHR ''#'' \<notin> set (GDBPacket_escape s)"
  by (induction s) (auto simp: special_chars_def)

lemma decode_encode: "GDBPacket_decode (GDBPacket_encode s) = Some s"
proof -
  have "GDBPacket_unescape (GDBPacket_escape s) = s" using unescape_escape [of s "[]"] by simp
  moreover have "takeWhile (\<lambda>c. c \<noteq> CHR ''#'') (GDBPacket_escape s @ CHR ''#'' # t) = GDBPacket_escape s"
      "dropWhile (\<lambda>c. c \<noteq> CHR ''#'') (GDBPacket_escape s @ CHR ''#'' # t) = CHR ''#'' # t" for t
    using hash_escape [of s] by (subst takeWhile_append2 dropWhile_append2, metis, simp)+
  ultimately show ?thesis
    using checksum_less [of "GDBPacket_escape s"]
    by (simp add: GDBPacket_decode_def GDBPacket_encode_def py_startswith_def hex2_bytes py_int16_hex2 Let_def)
qed
end
