(* ===== verification/Gdb_Stub.thy ===== *)
theory Gdb_Stub
  imports Gdb_Packet Machine
begin

text \<open>
  Class \<open>GDBStub\<close> of \<open>gdbstub.py\<close>: the state of the stub, the reception of packets and the commands
  of the debugger on the registers, the memory and the breakpoints.

  The connection is a byte stream. \<open>rx\<close> holds what the debugger sends, as the pieces in which the
  calls of \<open>recv\<close> find it: \<open>recv(n)\<close> returns at most \<open>n\<close> bytes of one piece, and nothing once the
  connection is closed, which is the end of \<open>rx\<close>. \<open>arrived\<close> are the answers of \<open>select\<close> to the
  successive polls of \<open>check_for_interrupt\<close>. \<open>tx\<close> is what the stub has sent. A reset connection is
  a closed one. Log messages are not modelled.

  The text of a Python exception, which a failing monitor command reports, is the parameter
  \<open>exc_text\<close>: it varies with the version of the interpreter.
\<close>

unbundle bit_operations_syntax

section \<open>State\<close>

definition SIGINT :: int where "SIGINT = 2"
definition SIGILL :: int where "SIGILL = 4"
definition SIGTRAP :: int where "SIGTRAP = 5"
definition SIGSEGV :: int where "SIGSEGV = 11"

definition from_trap_cause :: "int \<Rightarrow> int" where
  "from_trap_cause cause =
     (if cause = 2 then SIGILL else if cause = 3 then SIGTRAP
      else if cause \<in> {0, 1, 5, 7} then SIGSEGV else SIGTRAP)"

record gdb_stub =
  running :: bool
  single_step :: bool
  last_signal :: int
  sw_breakpoints :: "int set"
  connected :: bool
  rx :: "8 word list list"
  arrived :: "bool list"
  tx :: string

text \<open>The stub and the system it debugs.\<close>

record 'u dbg =
  stub :: gdb_stub
  target :: "'u msys"

definition on_stub :: "(gdb_stub, 'a) py \<Rightarrow> ('u dbg, 'a) py" where
  "on_stub = py_zoom stub (\<lambda>g d. d\<lparr>stub := g\<rparr>)"

definition on_target :: "('u msys, 'a) py \<Rightarrow> ('u dbg, 'a) py" where
  "on_target = py_zoom target (\<lambda>s d. d\<lparr>target := s\<rparr>)"

definition GDBStub_init :: "8 word list list \<Rightarrow> bool list \<Rightarrow> gdb_stub" where
  "GDBStub_init input polls =
     \<lparr>running = False, single_step = False, last_signal = SIGTRAP, sw_breakpoints = {},
      connected = False, rx = input, arrived = polls, tx = []\<rparr>"

text \<open>\<open>bind_error\<close> is what binding the address raises, if anything; otherwise a client connects.\<close>

definition listen :: "exn option \<Rightarrow> (gdb_stub, unit) py" where
  "listen bind_error g = (case bind_error of Some e \<Rightarrow> (Inl e, g) | None \<Rightarrow> (Inr (), g\<lparr>connected := True\<rparr>))"

definition csr_base :: int where "csr_base = 65"

definition important_csrs :: "(int \<times> string) list" where
  "important_csrs =
     [(0x300, ''mstatus''), (0x301, ''misa''), (0x304, ''mie''), (0x305, ''mtvec''), (0x340, ''mscratch''),
      (0x341, ''mepc''), (0x342, ''mcause''), (0x343, ''mtval''), (0x344, ''mip''), (0x7C0, ''mtime_low''),
      (0x7C1, ''mtime_high''), (0x7C2, ''mtimecmp_low''), (0x7C3, ''mtimecmp_high'')]"

definition int16 :: "string \<Rightarrow> ('s, int) py" where
  "int16 s = (case py_int16 s of None \<Rightarrow> py_raise ValueError | Some v \<Rightarrow> py_return v)"

section \<open>The connection\<close>

fun recv :: "nat \<Rightarrow> 8 word list list \<Rightarrow> 8 word list \<times> 8 word list list" where
  "recv n [] = ([], [])"
| "recv n ([] # segs) = recv n segs"
| "recv n ((b # bs) # segs) = (take n (b # bs), drop n (b # bs) # segs)"

definition decode_ascii :: "8 word list \<Rightarrow> string option" where
  "decode_ascii bs = (if \<forall>b \<in> set bs. unat b < 128 then Some (map (\<lambda>b. char_of (unat b)) bs) else None)"

definition send_packet :: "string \<Rightarrow> (gdb_stub, unit) py" where
  "send_packet data g =
     (let packet = GDBPacket_encode data
      in if \<forall>c \<in> set packet. (of_char c :: nat) < 128 then (Inr (), g\<lparr>tx := tx g @ packet\<rparr>)
         else (Inl ValueError, g))"

definition check_for_interrupt :: "gdb_stub \<Rightarrow> bool \<times> gdb_stub" where
  "check_for_interrupt g =
     (case arrived g of
        [] \<Rightarrow> (False, g)
      | ready # polls \<Rightarrow>
          let g = g\<lparr>arrived := polls\<rparr>
          in if \<not> ready then (False, g)
             else case recv 1 (rx g) of
                    (data, rest) \<Rightarrow> if data = [0x03] then (True, g\<lparr>rx := rest\<rparr>) else (False, g))"

lemma recv_shorter: "recv (Suc n) segs = (b # bs, segs') \<Longrightarrow> length (concat segs') < length (concat segs)"
  by (induction "Suc n" segs arbitrary: n rule: recv.induct) auto

lemma recv_not_longer: "recv n segs = (bs, segs') \<Longrightarrow> length (concat segs') \<le> length (concat segs)"
  by (induction n segs rule: recv.induct) auto

text \<open>The loop of \<open>recv_packet\<close>.\<close>

function recv_loop :: "string \<Rightarrow> bool \<Rightarrow> (gdb_stub, string option) py" where
  "recv_loop buffer in_packet g =
     (case recv 1 (rx g) of
        ([], rest) \<Rightarrow> (Inr None, g\<lparr>rx := rest\<rparr>)
      | (b # _, rest) \<Rightarrow>
          (case decode_ascii [b] of
             None \<Rightarrow> (Inl ValueError, g\<lparr>rx := rest\<rparr>)
           | Some chars \<Rightarrow>
               if hd chars = CHR 0x03 then (Inr (Some ''interrupt''), g\<lparr>rx := rest\<rparr>)
               else if \<not> in_packet \<and> hd chars \<in> {CHR ''+'', CHR ''-''} then
                 recv_loop buffer in_packet (g\<lparr>rx := rest\<rparr>)
               else if hd chars = CHR ''$'' then recv_loop ''$'' True (g\<lparr>rx := rest\<rparr>)
               else if in_packet then
                 if hd chars = CHR ''#'' then
                   (case recv 2 rest of
                      (bs2, rest2) \<Rightarrow>
                        (case decode_ascii bs2 of
                           None \<Rightarrow> (Inl ValueError, g\<lparr>rx := rest2\<rparr>)
                         | Some cs \<Rightarrow>
                             (case GDBPacket_decode (buffer @ ''#'' @ cs) of
                                Some data \<Rightarrow> (Inr (Some data), g\<lparr>rx := rest2, tx := tx g @ ''+''\<rparr>)
                              | None \<Rightarrow> recv_loop [] False (g\<lparr>rx := rest2, tx := tx g @ ''-''\<rparr>))))
                 else recv_loop (buffer @ [hd chars]) True (g\<lparr>rx := rest\<rparr>)
               else recv_loop buffer False (g\<lparr>rx := rest\<rparr>)))"
  by pat_completeness auto
termination
  by (relation "measure (\<lambda>(_, _, g). length (concat (rx g)))")
    (auto simp del: length_concat dest!: recv_shorter [OF HOL.sym] recv_not_longer [where n = 2, OF HOL.sym])

declare recv_loop.simps [simp del]

definition recv_packet :: "(gdb_stub, string option) py" where
  "recv_packet = recv_loop [] False"

section \<open>Registers\<close>

text \<open>A value as its four bytes, the least significant first, in hexadecimal; and back.\<close>

definition le_hex :: "int \<Rightarrow> string" where
  "le_hex v = fmt_hex False 2 (v AND 0xFF) @ fmt_hex False 2 (drop_bit 8 v AND 0xFF) @
     fmt_hex False 2 (drop_bit 16 v AND 0xFF) @ fmt_hex False 2 (drop_bit 24 v AND 0xFF)"

definition parse_le :: "string \<Rightarrow> ('s, int) py" where
  "parse_le s =
     py_bind (int16 (take 2 s)) (\<lambda>b0.
     py_bind (int16 (take 2 (drop 2 s))) (\<lambda>b1.
     py_bind (int16 (take 2 (drop 4 s))) (\<lambda>b2.
     py_bind (int16 (take 2 (drop 6 s))) (\<lambda>b3.
       py_return (b0 OR push_bit 8 b1 OR push_bit 16 b2 OR push_bit 24 b3)))))"

text \<open>\<open>self.cpu.pc = a; self.cpu.next_pc = self.cpu.pc\<close>\<close>

definition move_pc :: "int \<Rightarrow> (cpu, unit) py" where
  "move_pc a = py_modify (\<lambda>c. c\<lparr>pc := a AND 0xFFFFFFFF, next_pc := a AND 0xFFFFFFFF\<rparr>)"

definition cmd_halt_reason :: "gdb_stub \<Rightarrow> string" where
  "cmd_halt_reason g = ''S'' @ fmt_hex False 2 (last_signal g)"

definition cmd_read_registers :: "cpu \<Rightarrow> string" where
  "cmd_read_registers c =
     concat (map (\<lambda>i. le_hex (registers c i AND 0xFFFFFFFF)) [0..31]) @ le_hex (pc c AND 0xFFFFFFFF)"

fun write_gprs :: "int list \<Rightarrow> string \<Rightarrow> (cpu, unit) py" where
  "write_gprs [] hex_data = py_return ()"
| "write_gprs (i # is) hex_data =
     py_bind (parse_le (drop (nat (i * 8)) hex_data)) (\<lambda>val.
       py_then (if i \<noteq> 0 then set_reg i (val AND 0xFFFFFFFF) else py_return ()) (write_gprs is hex_data))"

definition cmd_write_registers :: "string \<Rightarrow> (cpu, string) py" where
  "cmd_write_registers hex_data =
     py_except (\<lambda>e. e = ValueError \<or> e = IndexError)
       (py_then (write_gprs [0..31] hex_data)
         (py_bind (parse_le (drop (32 * 8) hex_data)) (\<lambda>a. py_then (move_pc a) (py_return ''OK''))))
       (py_return ''E01'')"

text \<open>\<open>self.cpu.registers[i]\<close>, a list of 32: a negative index counts from the end.\<close>

definition gpr_index :: "int \<Rightarrow> ('s, int) py" where
  "gpr_index i = (case py_index 32 i of None \<Rightarrow> py_raise IndexError | Some k \<Rightarrow> py_return (int k))"

definition cmd_read_register :: "string \<Rightarrow> (cpu, string) py" where
  "cmd_read_register reg_num_str =
     py_except (\<lambda>e. e = ValueError)
       (py_bind (int16 reg_num_str) (\<lambda>reg_num.
         if reg_num < 32 then
           py_bind (gpr_index reg_num) (\<lambda>i. py_lift (\<lambda>c. Inr (le_hex (registers c i AND 0xFFFFFFFF))))
         else if reg_num = 32 then py_lift (\<lambda>c. Inr (le_hex (pc c AND 0xFFFFFFFF)))
         else if reg_num \<ge> csr_base then
           let csr_addr = reg_num - csr_base
           in if csr_addr < 4096 then py_lift (\<lambda>c. Inr (le_hex (csrs c csr_addr AND 0xFFFFFFFF)))
              else py_return ''E01''
         else py_return ''E01''))
       (py_return ''E01'')"

definition cmd_write_register :: "string \<Rightarrow> (cpu, string) py" where
  "cmd_write_register params =
     py_except (\<lambda>e. e = ValueError \<or> e = IndexError)
       (case py_split (CHR ''='') params of
          [reg_num_str, val_str] \<Rightarrow>
            py_bind (int16 reg_num_str) (\<lambda>reg_num.
            py_bind (if length val_str \<ge> 8 then parse_le val_str else int16 val_str) (\<lambda>val.
              if reg_num = 0 then py_return ''OK''
              else if reg_num < 32 then
                py_bind (gpr_index reg_num) (\<lambda>i. py_then (set_reg i (val AND 0xFFFFFFFF)) (py_return ''OK''))
              else if reg_num = 32 then py_then (move_pc val) (py_return ''OK'')
              else if reg_num \<ge> csr_base then
                let csr_addr = reg_num - csr_base
                in if csr_addr < 4096 then
                     if csr_addr \<in> set CSR_RO then py_return ''E02''
                     else py_then (py_modify (set_csr csr_addr (val AND 0xFFFFFFFF))) (py_return ''OK'')
                   else py_return ''E01''
              else py_return ''E01''))
        | _ \<Rightarrow> py_raise ValueError)
       (py_return ''E01'')"

section \<open>Memory\<close>

fun read_hex :: "int \<Rightarrow> nat \<Rightarrow> ('h sys, string) py" where
  "read_hex a 0 = py_return []"
| "read_hex a (Suc n) =
     py_bind (load_byte a False) (\<lambda>byte.
       py_bind (read_hex (a + 1) n) (\<lambda>rest. py_return (fmt_hex False 2 byte @ rest)))"

definition cmd_read_memory :: "string \<Rightarrow> ('h sys, string) py" where
  "cmd_read_memory params =
     py_except (\<lambda>_. True)
       (case py_split (CHR '','') params of
          [addr_str, len_str] \<Rightarrow>
            py_bind (int16 addr_str) (\<lambda>addr.
            py_bind (int16 len_str) (\<lambda>len. read_hex addr (nat len)))
        | _ \<Rightarrow> py_raise ValueError)
       (py_return ''E01'')"

fun write_hex :: "int \<Rightarrow> nat \<Rightarrow> string \<Rightarrow> ('h sys, unit) py" where
  "write_hex a 0 hex_data = py_return ()"
| "write_hex a (Suc n) hex_data =
     py_bind (int16 (take 2 hex_data)) (\<lambda>byte.
       py_then (store_byte a byte) (write_hex (a + 1) n (drop 2 hex_data)))"

definition cmd_write_memory :: "string \<Rightarrow> ('h sys, string) py" where
  "cmd_write_memory params =
     py_except (\<lambda>_. True)
       (case py_split (CHR '':'') params of
          [addr_len, hex_data] \<Rightarrow>
            (case py_split (CHR '','') addr_len of
               [addr_str, len_str] \<Rightarrow>
                 py_bind (int16 addr_str) (\<lambda>addr.
                 py_bind (int16 len_str) (\<lambda>len.
                   if int (length hex_data) < len * 2 then py_return ''E01''
                   else py_then (write_hex addr (nat len) hex_data) (py_return ''OK'')))
             | _ \<Rightarrow> py_raise ValueError)
        | _ \<Rightarrow> py_raise ValueError)
       (py_return ''E01'')"

section \<open>Execution and breakpoints\<close>

text \<open>\<open>cmd_continue\<close> and \<open>cmd_step\<close> differ in the value of \<open>single_step\<close>.\<close>

definition resume :: "bool \<Rightarrow> string option \<Rightarrow> ('u dbg, string option) py" where
  "resume step addr_str =
     (let start = py_then (on_stub (py_modify (\<lambda>g. g\<lparr>running := True, single_step := step\<rparr>))) (py_return None)
      in case addr_str of
           None \<Rightarrow> start
         | Some a \<Rightarrow>
             if a = [] then start
             else case py_int16 a of
                    None \<Rightarrow> py_return (Some ''E01'')
                  | Some addr \<Rightarrow> py_then (on_target (on_cpu (move_pc addr))) start)"

definition cmd_continue :: "string option \<Rightarrow> ('u dbg, string option) py" where
  "cmd_continue = resume False"

definition cmd_step :: "string option \<Rightarrow> ('u dbg, string option) py" where
  "cmd_step = resume True"

definition cmd_insert_breakpoint :: "string \<Rightarrow> (gdb_stub, string) py" where
  "cmd_insert_breakpoint params g =
     (case py_int16 (hd (py_split (CHR '','') params)) of
        None \<Rightarrow> (Inr ''E01'', g)
      | Some addr \<Rightarrow> (Inr ''OK'', g\<lparr>sw_breakpoints := insert addr (sw_breakpoints g)\<rparr>))"

definition cmd_remove_breakpoint :: "string \<Rightarrow> (gdb_stub, string) py" where
  "cmd_remove_breakpoint params g =
     (case py_int16 (hd (py_split (CHR '','') params)) of
        None \<Rightarrow> (Inr ''E01'', g)
      | Some addr \<Rightarrow> (Inr ''OK'', g\<lparr>sw_breakpoints := sw_breakpoints g - {addr}\<rparr>))"

definition cmd_supported :: string where
  "cmd_supported = py_join '';'' [''PacketSize=4096'', ''swbreak+'', ''hwbreak-'', ''qRelocInsn-'', ''vContSupported+'']"

definition is_breakpoint :: "int \<Rightarrow> gdb_stub \<Rightarrow> bool" where
  "is_breakpoint addr g = (addr \<in> sw_breakpoints g)"

definition stop_reply :: "int \<Rightarrow> (gdb_stub, string) py" where
  "stop_reply signal g = (Inr (''S'' @ fmt_hex False 2 signal), g\<lparr>last_signal := signal\<rparr>)"

section \<open>Monitor commands\<close>

text \<open>\<open>bytes.fromhex\<close>: pairs of digits, white space allowed between them.\<close>

fun py_fromhex :: "string \<Rightarrow> nat list option" where
  "py_fromhex [] = Some []"
| "py_fromhex (c # cs) =
     (if (of_char c :: nat) = 32 \<or> 9 \<le> (of_char c :: nat) \<and> (of_char c :: nat) \<le> 13 then py_fromhex cs
      else case cs of
             [] \<Rightarrow> None
           | d # ds \<Rightarrow>
               if digit_val c < 16 \<and> digit_val d < 16
               then map_option (\<lambda>ns. (digit_val c * 16 + digit_val d) # ns) (py_fromhex ds) else None)"

definition encode_hex :: "string \<Rightarrow> string" where
  "encode_hex text = concat (map (\<lambda>c. fmt_hex False 2 (of_char c)) text)"

abbreviation "nl \<equiv> [CHR 0x0A]"

definition csr_name :: "int \<Rightarrow> string" where
  "csr_name a = (case map_of important_csrs a of Some n \<Rightarrow> n | None \<Rightarrow> ''0x'' @ fmt_hex False 3 a)"

definition csr_address :: "string \<Rightarrow> ('s, int option) py" where
  "csr_address csr_arg =
     (if py_startswith csr_arg ''0x'' then py_bind (int16 csr_arg) (\<lambda>a. py_return (Some a))
      else py_return (map_of (map (\<lambda>(k, v). (v, k)) important_csrs) csr_arg))"

definition monitor_csr :: "string list \<Rightarrow> (cpu, string) py" where
  "monitor_csr parts =
     (if length parts < 2 then
        py_return (''Usage: csr <name|0xADDR> [value]'' @ nl @
          ''CSRs: mstatus misa mie mtvec mscratch mepc mcause mtval mip'' @ nl)
      else py_bind (csr_address (parts ! 1)) (\<lambda>r.
        case r of
          None \<Rightarrow> py_return (''Unknown CSR: '' @ parts ! 1 @ nl)
        | Some csr_addr \<Rightarrow>
            if csr_addr \<ge> 4096 then py_return (''CSR address out of range'' @ nl)
            else if length parts = 2 then
              py_lift (\<lambda>c. Inr (csr_name csr_addr @ '': 0x'' @ fmt_hex False 8 (csrs c csr_addr AND 0xFFFFFFFF) @ nl))
            else case py_int0 (parts ! 2) of
                   None \<Rightarrow> py_raise ValueError
                 | Some val \<Rightarrow>
                     py_then (py_modify (set_csr csr_addr (val AND 0xFFFFFFFF)))
                       (py_return (csr_name csr_addr @ '' = 0x'' @ fmt_hex False 8 val @ nl))))"

definition cmd_monitor :: "(string \<Rightarrow> string) \<Rightarrow> string \<Rightarrow> (cpu, string) py" where
  "cmd_monitor exc_text hex_cmd =
     py_except (\<lambda>_. True)
       (case py_fromhex hex_cmd of
          None \<Rightarrow> py_raise ValueError
        | Some bs \<Rightarrow>
            if \<exists>b \<in> set bs. b \<ge> 128 then py_raise ValueError
            else let parts = py_words (py_strip (map char_of bs))
                 in py_bind
                      (if parts = [] then py_return (''Unknown command'' @ nl)
                       else if hd parts = ''csr'' then monitor_csr parts
                       else if hd parts = ''help'' then
                         py_return (''Available commands:'' @ nl @
                           ''  csr <name|0xADDR> [value]  - Read/write CSR'' @ nl @
                           ''  help                       - Show this help'' @ nl)
                       else py_return (''Unknown command: '' @ hd parts @ nl))
                      (\<lambda>output. py_return (encode_hex output)))
       (py_return (encode_hex (''Error: '' @ exc_text hex_cmd @ nl)))"

section \<open>Dispatch\<close>

definition handle_command :: "(string \<Rightarrow> string) \<Rightarrow> string \<Rightarrow> ('u dbg, string option) py" where
  "handle_command exc_text cmd =
     (let reply = (\<lambda>m :: ('u dbg, string) py. py_bind m (\<lambda>r. py_return (Some r)));
          arg = (\<lambda>n. if length cmd > n then Some (drop n cmd) else None)
      in
      if cmd = ''?'' then reply (on_stub (py_lift (\<lambda>g. Inr (cmd_halt_reason g))))
      else if cmd = ''g'' then reply (on_target (on_cpu (py_lift (\<lambda>c. Inr (cmd_read_registers c)))))
      else if py_startswith cmd ''G'' then reply (on_target (on_cpu (cmd_write_registers (drop 1 cmd))))
      else if py_startswith cmd ''p'' then reply (on_target (on_cpu (cmd_read_register (drop 1 cmd))))
      else if py_startswith cmd ''P'' then reply (on_target (on_cpu (cmd_write_register (drop 1 cmd))))
      else if py_startswith cmd ''m'' then reply (on_target (cmd_read_memory (drop 1 cmd)))
      else if py_startswith cmd ''M'' then reply (on_target (cmd_write_memory (drop 1 cmd)))
      else if py_startswith cmd ''c'' then cmd_continue (arg 1)
      else if py_startswith cmd ''s'' then cmd_step (arg 1)
      else if py_startswith cmd ''Z0,'' then reply (on_stub (cmd_insert_breakpoint (drop 3 cmd)))
      else if py_startswith cmd ''z0,'' then reply (on_stub (cmd_remove_breakpoint (drop 3 cmd)))
      else if py_startswith cmd ''qSupported'' then py_return (Some cmd_supported)
      else if cmd = ''qAttached'' then py_return (Some ''1'')
      else if cmd = ''qC'' then py_return (Some ''QC0'')
      else if cmd = ''qfThreadInfo'' then py_return (Some ''m0'')
      else if cmd = ''qsThreadInfo'' then py_return (Some ''l'')
      else if cmd = ''qOffsets'' then py_return (Some ''Text=0;Data=0;Bss=0'')
      else if py_startswith cmd ''qRcmd,'' then reply (on_target (on_cpu (cmd_monitor exc_text (drop 6 cmd))))
      else if cmd = ''vCont?'' then py_return (Some ''vCont;c;s'')
      else if cmd = ''vCont;c'' \<or> cmd = ''vCont;c:0'' then cmd_continue None
      else if cmd = ''vCont;s'' \<or> cmd = ''vCont;s:0'' then cmd_step None
      else if cmd = ''k'' then py_raise (ExecutionTerminated KilledByGdb)
      else if cmd = ''D'' then py_return (Some ''OK'')
      else py_return (Some []))"

end
