(* ===== verification/Gdb_Run.thy ===== *)
theory Gdb_Run
  imports Gdb_Stub
begin

text \<open>
  The execution loops of \<open>machine.py\<close> that serve the debugger: \<open>run_with_gdb\<close>, which executes up to a
  breakpoint, a single step or an interrupt, and \<open>run_gdbstub\<close>, which receives commands, runs the
  machine and reports why it stopped. Both may run forever, which is the result \<open>None\<close>; otherwise they
  return or raise, with the state of the stub and of the system at that point.
\<close>

unbundle bit_operations_syntax

section \<open>Running up to a stop\<close>

definition fetch_execute :: "('h sys, unit) py option \<Rightarrow> ('h sys, unit) py" where
  "fetch_execute ecall s =
     py_bind (load_half (pc (cpu s)) False) (\<lambda>inst_low.
       if inst_low AND 0x3 = 0x3
       then py_bind (load_half (pc (cpu s) + 2) False) (\<lambda>inst_high.
              execute_32 ecall (inst_low OR push_bit 16 inst_high))
       else execute_16 ecall inst_low) s"

definition gdb_single :: "('u msys, unit) py option \<Rightarrow> bool \<Rightarrow> bool \<Rightarrow> ('u msys, unit) py" where
  "gdb_single ecall timer mmio =
     py_then (fetch_execute ecall)
       (py_then (tick timer)
         (py_then advance_pc
           (py_then (if mmio then py_modify peripherals_run else py_return ()) (py_raise (DebugBreak 5)))))"

definition poll_interrupt :: "int \<Rightarrow> (gdb_stub, unit) py" where
  "poll_interrupt cycle_count g =
     (if cycle_count AND 0xFFF = 0 then
        case check_for_interrupt g of
          (True, g) \<Rightarrow> (Inl (DebugBreak 2), g\<lparr>running := False\<rparr>)
        | (False, g) \<Rightarrow> (Inr (), g)
      else (Inr (), g))"

definition gdb_cycle ::
  "('u msys, unit) py option \<Rightarrow> bool \<Rightarrow> bool \<Rightarrow> int \<times> int \<Rightarrow> ('u dbg, int \<times> int) py" where
  "gdb_cycle ecall timer mmio l d =
     (if is_breakpoint (pc (cpu (target d))) (stub d) then (Inl (DebugBreak 5), d)
      else let cycle_count = fst l + 1 in
        py_then (on_stub (poll_interrupt cycle_count))
          (py_then (on_target (fetch_execute ecall))
            (py_then (on_target (tick timer))
              (py_then (on_target advance_pc)
                (py_bind (on_target (poll mmio (snd l))) (\<lambda>cyc. py_return (cycle_count, cyc)))))) d)"

text \<open>\<open>while gdb_stub.running\<close>\<close>

partial_function (option) gdb_loop ::
  "('u msys, unit) py option \<Rightarrow> bool \<Rightarrow> bool \<Rightarrow> int \<times> int \<Rightarrow> 'u dbg \<Rightarrow> ((exn + unit) \<times> 'u dbg) option" where
  "gdb_loop ecall timer mmio l d =
     (if running (stub d) then
        (case gdb_cycle ecall timer mmio l d of
           (Inl e, d') \<Rightarrow> Some (Inl e, d')
         | (Inr l', d') \<Rightarrow> gdb_loop ecall timer mmio l' d')
      else Some (Inr (), d))"

declare gdb_loop.simps [code]

definition run_with_gdb :: "('u msys, unit) py option \<Rightarrow> 'u dbg \<Rightarrow> ((exn + unit) \<times> 'u dbg) option" where
  "run_with_gdb ecall d =
     (let m = mach (host (target d)); timer = opt_timer m; mmio = opt_mmio m
      in if single_step (stub d) then Some (on_target (py_then (gdb_single ecall timer mmio) (py_return ())) d)
         else gdb_loop ecall timer mmio (0, 0) d)"

section \<open>Errors of the machine as signals\<close>

text \<open>
  The messages of the exceptions that are instances of \<open>MachineError\<close>, as far as the search for
  \<open>illegal\<close> and \<open>trap\<close> in them can tell: the two texts of \<^const>\<open>InvalidSyscallError\<close> contain neither.
\<close>

fun mem_text :: "mem_fault \<Rightarrow> string" where
  "mem_text (OutOfBounds a n) = ''Access out of bounds: 0x'' @ fmt_hex True 8 a"
| "mem_text (RangeOutOfBounds a b) = ''Access out of bounds: 0x'' @ fmt_hex True 8 a"
| "mem_text (CStringTooLong a) = ''Exceeded maximum length while reading C string at 0x'' @ fmt_hex True 8 a"
| "mem_text (CStringBadStart a) = ''Invalid start address reading C string: 0x'' @ fmt_hex True 8 a"
| "mem_text (BadMMIORead a) = ''Invalid MMIO register read at 0x'' @ fmt_hex True 8 a"
| "mem_text (BadMMIOWrite a) = ''Invalid MMIO register write at 0x'' @ fmt_hex True 8 a"

fun invariant_text :: "invariant_fault \<Rightarrow> string" where
  "invariant_text X0NotZero = ''x0 register should always be 0''"
| "invariant_text (PcOutOfBounds a) = ''PC out of bounds: PC=0x''"
| "invariant_text (SpAboveStackTop a b) = ''SP above stack top: SP=0x'' @ fmt_hex True 8 a"
| "invariant_text (SpBelowStackBottom a b) = ''SP below stack bottom (stack overlow): SP=0x'' @ fmt_hex True 8 a"
| "invariant_text (HeapTooClose a b) = ''Heap too close to stack: heap_end=0x'' @ fmt_hex True 8 a"
| "invariant_text (HeapNotAligned a) = ''Heap end not aligned: 0x'' @ fmt_hex True 8 a"
| "invariant_text TextModified = ''Text segment has been modified!''"

fun setup_text :: "setup_fault \<Rightarrow> string" where
  "setup_text TraceNeedsLogger = ''Tracing or register logging require a valid logger''"
| "setup_text (BadInitRegs v) = ''Invalid --init-regs value: '' @ v"
| "setup_text MainChecksOnFlatBinary = ''start_checks=main is unsupported for flat binary executables''"
| "setup_text (BadStartChecks v) = ''Invalid --start-checks value: '' @ v"
| "setup_text (UnknownRegister n) = ''Unknown register/CSR while setting up register logging: '' @ n"

fun machine_text :: "machine_fault \<Rightarrow> string" where
  "machine_text NoEcallHandler =
     ''No trap handler and no Python ecall handler installed: cannot process ECALL instruction''"
| "machine_text (MisalignedInitialPC a) = ''Initial PC=0x'' @ fmt_hex True 8 a"

fun machine_error_text :: "exn \<Rightarrow> string option" where
  "machine_error_text (MachineError f) = Some (machine_text f)"
| "machine_error_text (SetupError f) = Some (setup_text f)"
| "machine_error_text (InvariantViolationError f) = Some (invariant_text f)"
| "machine_error_text (MemoryAccessError f) = Some (mem_text f)"
| "machine_error_text InvalidSyscallError = Some ''SYSCALL''"
| "machine_error_text e = None"

fun py_contains :: "string \<Rightarrow> string \<Rightarrow> bool" where
  "py_contains sub [] = (sub = [])"
| "py_contains sub (c # cs) = (py_startswith (c # cs) sub \<or> py_contains sub cs)"

definition error_signal :: "string \<Rightarrow> int" where
  "error_signal text =
     (if py_contains ''illegal'' (py_lower text) then SIGILL
      else if py_contains ''trap'' (py_lower text) then SIGTRAP
      else SIGSEGV)"

section \<open>The command loop\<close>

definition stopped :: "int \<Rightarrow> (gdb_stub, unit) py" where
  "stopped signal =
     py_then (py_modify (\<lambda>g. g\<lparr>running := False\<rparr>)) (py_bind (stop_reply signal) send_packet)"

definition report_stop :: "exn + unit \<Rightarrow> (gdb_stub, unit) py" where
  "report_stop r =
     (case r of
        Inr _ \<Rightarrow> stopped SIGTRAP
      | Inl (DebugBreak signal) \<Rightarrow> py_then (py_modify (\<lambda>g. g\<lparr>single_step := False\<rparr>)) (stopped signal)
      | Inl (ExecutionTerminated _) \<Rightarrow> stopped SIGTRAP
      | Inl e \<Rightarrow> (case machine_error_text e of
                   Some text \<Rightarrow> stopped (error_signal text)
                 | None \<Rightarrow> py_raise e))"

definition gdb_close :: "gdb_stub \<Rightarrow> gdb_stub" where
  "gdb_close g = g\<lparr>connected := False\<rparr>"

text \<open>
  One command: \<open>None\<close> if the machine runs forever; \<open>Inr False\<close> ends the loop, since the connection is
  closed.
\<close>

definition gdb_command ::
  "('u msys, unit) py option \<Rightarrow> (string \<Rightarrow> string) \<Rightarrow> 'u dbg \<Rightarrow> ((exn + bool) \<times> 'u dbg) option" where
  "gdb_command ecall exc_text d =
     (case on_stub recv_packet d of
        (Inl e, d) \<Rightarrow> Some (Inl e, d)
      | (Inr None, d) \<Rightarrow> Some (Inr False, d)
      | (Inr (Some cmd), d) \<Rightarrow>
          if cmd = ''interrupt'' then Some (on_stub (py_then (stopped SIGINT) (py_return True)) d)
          else (case handle_command exc_text cmd d of
                  (Inl e, d) \<Rightarrow> Some (Inl e, d)
                | (Inr response, d) \<Rightarrow>
                    if running (stub d) then
                      (case run_with_gdb ecall d of
                         None \<Rightarrow> None
                       | Some (r, d) \<Rightarrow> Some (on_stub (py_then (report_stop r) (py_return True)) d))
                    else (case response of
                            None \<Rightarrow> Some (Inr True, d)
                          | Some data \<Rightarrow> Some (on_stub (py_then (send_packet data) (py_return True)) d))))"

partial_function (option) run_gdbstub ::
  "('u msys, unit) py option \<Rightarrow> (string \<Rightarrow> string) \<Rightarrow> 'u dbg \<Rightarrow> ((exn + unit) \<times> 'u dbg) option" where
  "run_gdbstub ecall exc_text d =
     (case gdb_command ecall exc_text d of
        None \<Rightarrow> None
      | Some (Inl e, d') \<Rightarrow> Some (Inl e, d')
      | Some (Inr go_on, d') \<Rightarrow>
          if go_on then run_gdbstub ecall exc_text d'
          else Some (Inr (), d'\<lparr>stub := gdb_close (stub d')\<rparr>))"

declare run_gdbstub.simps [code]

end
