(* ===== verification/Gdb_Props.thy ===== *)
theory Gdb_Props
  imports Gdb_Run Machine_Load
begin

text \<open>
  Properties of the debugger stub: the register and memory commands invert each other, packets survive
  acknowledgements and damaged frames before them, and the commands to step and to continue run the
  machine as the fast loop does, to one instruction or to the first breakpoint.
\<close>

unbundle bit_operations_syntax

section \<open>Hexadecimal numbers\<close>

lemma hex_nat_ok: "c \<in> set (hex_nat u n) \<Longrightarrow> hex_ok c"
proof (induction u n rule: hex_nat.induct)
  case (1 u n)
  then show ?case
    using hex_char_ok [of n u] hex_char_ok [of "n mod 16" u]
    by (subst (asm) (2) hex_nat.simps) (auto split: if_splits)
qed

lemma scan_digit:
  assumes "m < 16"
  shows "scan_digits 16 sep acc (hex_char u m # cs) = scan_digits 16 False (acc * 16 + m) cs"
  using hex_char_ok [OF assms, of u] assms by (simp add: hex_ok_def hex_digit_val)

lemma scan_hex_nat:
  "scan_digits 16 sep acc (hex_nat u n @ cs) = scan_digits 16 False (acc * 16 ^ length (hex_nat u n) + n) cs"
proof (induction u n arbitrary: sep acc cs rule: hex_nat.induct)
  case (1 u n)
  show ?case
  proof (cases "n < 16")
    case True
    then show ?thesis by (simp add: hex_nat.simps [of u n] scan_digit del: scan_digits.simps)
  next
    case False
    then have h: "hex_nat u n = hex_nat u (n div 16) @ [hex_char u (n mod 16)]" by (subst hex_nat.simps) simp
    show ?thesis
      using 1 [OF False] by (simp add: h scan_digit algebra_simps del: scan_digits.simps)
  qed
qed

lemma hex_nat_nonempty: "hex_nat u n \<noteq> []"
  by (subst hex_nat.simps) simp

lemma hex_nat_hd:
  assumes "hex_nat u n = c # cs"
  shows "hex_ok c" "\<And>d ds. cs = d # ds \<Longrightarrow> hex_ok d"
  using hex_nat_ok [of _ u n] assms by auto

lemma py_int16_hex: "py_int16 (hex_nat u n) = Some (int n)"
proof -
  obtain c cs where h: "hex_nat u n = c # cs" using hex_nat_nonempty by (cases "hex_nat u n") auto
  have sp: "dropWhile is_space (hex_nat u n) = hex_nat u n" "take 1 (hex_nat u n) \<notin> {''-'', ''+''}"
    using hex_nat_hd(1) [OF h] by (auto simp: h hex_ok_def)
  have "take 2 (hex_nat u n) \<notin> {''0x'', ''0X''}"
    using hex_nat_hd [OF h] by (cases cs) (auto simp: h hex_ok_def)
  then have "unsigned16 (hex_nat u n) = Some n"
    using scan_hex_nat [of True 0 u n "[]"] by (simp add: unsigned16_def finish_int_def)
  then show ?thesis using sp by (simp add: py_int16_def signed_int_def)
qed

lemma int16_hex [simp]: "int16 (hex_nat u n) = py_return (int n)"
  by (simp add: int16_def py_int16_hex)

definition hex_byte :: "nat \<Rightarrow> string" where
  "hex_byte n = [hex_char False (n div 16), hex_char False (n mod 16)]"

lemma fmt_hex_byte: "0 \<le> z \<Longrightarrow> z < 256 \<Longrightarrow> fmt_hex False 2 z = hex_byte (nat z)"
  using hex2_bytes [of "nat z" False] by (simp add: hex_byte_def)

lemma hex_byte_simps [simp]:
  "length (hex_byte n) = 2" "take 2 (hex_byte n @ s) = hex_byte n" "drop 2 (hex_byte n @ s) = s"
  "take 2 (hex_byte n) = hex_byte n" "drop 4 (hex_byte n @ hex_byte m @ s) = s"
  "drop 6 (hex_byte n @ hex_byte m @ hex_byte k @ s) = s"
  by (simp_all add: hex_byte_def)

lemma int16_hex_byte [simp]: "n < 256 \<Longrightarrow> int16 (hex_byte n) = py_return (int n)"
  by (simp add: int16_def hex_byte_def py_int16_hex2)

section \<open>The registers\<close>

lemma byte_of: "nat (v AND 0xFF) < 256" "0 \<le> v AND 0xFF" "v AND 0xFF < 256" for v :: int
proof -
  have "v AND 0xFF = take_bit 8 v" by (simp add: bits)
  then show "0 \<le> v AND 0xFF" "v AND 0xFF < 256" using take_bit_int_less_exp [of 8 v] by simp_all
  then show "nat (v AND 0xFF) < 256" by linarith
qed

lemma le_hex_bytes:
  "le_hex v = hex_byte (nat (v AND 0xFF)) @ hex_byte (nat (drop_bit 8 v AND 0xFF)) @
     hex_byte (nat (drop_bit 16 v AND 0xFF)) @ hex_byte (nat (drop_bit 24 v AND 0xFF))"
  by (simp add: le_hex_def fmt_hex_byte byte_of)

lemma length_le_hex [simp]: "length (le_hex v) = 8"
  by (simp add: le_hex_bytes)

lemma parse_le_hex:
  assumes "fits 32 v"
  shows "parse_le (le_hex v @ s) = py_return v"
proof -
  have "v AND 0xFF OR push_bit 8 (drop_bit 8 v AND 0xFF) OR push_bit 16 (drop_bit 16 v AND 0xFF) OR
      push_bit 24 (drop_bit 24 v AND 0xFF) = v"
    using le32_bytes [of v] assms by (simp add: le32_def uint_word_of_int_eq bits fits_iff_take_bit)
  then show ?thesis
    by (simp add: parse_le_def le_hex_bytes byte_of del: push_bit_numeral push_bit_and)
qed

lemma write_gprs_values:
  assumes "\<forall>i \<in> set ns. \<exists>r. drop (nat (i * 8)) h = le_hex (f i) @ r" "\<And>i. fits 32 (f i)"
  shows "write_gprs ns h c =
    (Inr (), c\<lparr>registers := (\<lambda>i. if i \<in> set ns \<and> i \<noteq> 0 then f i else registers c i)\<rparr>)"
  using assms(1)
proof (induction ns arbitrary: c)
  case (Cons n ns)
  then obtain r where "drop (nat (n * 8)) h = le_hex (f n) @ r" by auto
  then show ?case
    using Cons assms(2) [of n]
    by (auto simp: parse_le_hex py_then_def py_bind_def py_return_def set_reg_def py_modify_def bits fits_iff_take_bit fun_eq_iff)
qed (simp add: py_return_def)

lemma read_registers_at:
  assumes "\<And>i. fits 32 (registers c i)" "fits 32 (pc c)"
  shows "i \<in> set [0..31] \<Longrightarrow> \<exists>r. drop (nat (i * 8)) (cmd_read_registers c) = le_hex (registers c i) @ r"
    and "drop (32 * 8) (cmd_read_registers c) = le_hex (pc c)"
proof -
  let ?h = "\<lambda>is. concat (map (\<lambda>i. le_hex (registers c i)) is)"
  have len: "length (?h ns) = 8 * length ns" for ns by (induction ns) simp_all
  have c: "cmd_read_registers c = ?h [0..31] @ le_hex (pc c)"
    using assms by (simp add: cmd_read_registers_def bits fits_iff_take_bit)
  show "drop (32 * 8) (cmd_read_registers c) = le_hex (pc c)" by (simp add: c len)
  assume "i \<in> set [0..31]"
  then have "[0..31] = [0..i - 1] @ i # [i + 1..31]" by (simp add: upto_split3)
  then show "\<exists>r. drop (nat (i * 8)) (cmd_read_registers c) = le_hex (registers c i) @ r"
    using len [of "[0..i - 1]"] \<open>i \<in> set [0..31]\<close> by (simp add: c nat_mult_distrib)
qed

text \<open>C36. Sending the reply to \<open>g\<close> back with \<open>G\<close> sets the 31 writable registers and the program counter to
  the values that were read, whatever they were in between, and changes nothing else.\<close>

theorem gdb_registers_roundtrip:
  assumes "\<And>i. fits 32 (registers c i)" "fits 32 (pc c)"
  shows "cmd_write_registers (cmd_read_registers c) c' =
    (Inr ''OK'', c'\<lparr>registers := (\<lambda>i. if i \<in> {1..31} then registers c i else registers c' i),
                  pc := pc c, next_pc := pc c\<rparr>)"
proof -
  have "write_gprs [0..31] (cmd_read_registers c) c' =
      (Inr (), c'\<lparr>registers := (\<lambda>i. if i \<in> {1..31} then registers c i else registers c' i)\<rparr>)"
    using write_gprs_values [of "[0..31]" "cmd_read_registers c" "registers c" c'] read_registers_at(1) [OF assms] assms(1)
    by (auto simp: fun_eq_iff intro!: arg_cong [where f = "\<lambda>r. c'\<lparr>registers := r\<rparr>"])
  then show ?thesis
    using assms(2) read_registers_at(2) [OF assms]
    by (simp add: parse_le_hex [of _ "[]", simplified] cmd_write_registers_def py_except_def py_then_def py_bind_def py_return_def move_pc_def py_modify_def
        bits fits_iff_take_bit)
qed

theorem gdb_registers_roundtrip_witness:
  "fst (cmd_write_registers (cmd_read_registers (cpu (demo_sys RAM True))) (cpu (demo_sys RAM False))) = Inr ''OK''"
proof -
  have "fits 32 (registers (cpu (demo_sys RAM True)) i)" "fits 32 (pc (cpu (demo_sys RAM True)))" for i
    by (simp_all add: demo_sys_def fits_def)
  from gdb_registers_roundtrip [OF this] show ?thesis by simp
qed

section \<open>The memory\<close>

definition hex_bytes :: "8 word list \<Rightarrow> string" where
  "hex_bytes bs = concat (map (\<lambda>b. hex_byte (unat b)) bs)"

lemma length_hex_bytes [simp]: "length (hex_bytes bs) = 2 * length bs"
  by (induction bs) (simp_all add: hex_bytes_def)

lemma unat_byte [simp]: "unat (b :: 8 word) < 256"
  using unsigned_less [of b, where 'a = nat] by simp

lemma hex_byte_ok: "n < 256 \<Longrightarrow> c \<in> set (hex_byte n) \<Longrightarrow> hex_ok c"
  using hex_char_ok [of "n div 16" False] hex_char_ok [of "n mod 16" False] by (auto simp: hex_byte_def)

lemma hex_bytes_ok: "c \<in> set (hex_bytes bs) \<Longrightarrow> hex_ok c"
  by (auto simp: hex_bytes_def dest: hex_byte_ok [OF unat_byte])

lemma sput_Nil: "sput s a [] = s"
  by (simp add: sput_def ram_put_def)

lemma sput_Cons:
  assumes "checked s" "safe_valid (ram s) a (length (b # bs))"
  shows "sput (sput s a [b]) (a + 1) bs = sput s a (b # bs)"
proof -
  have "nat a + length (b # bs) \<le> length (memory (ram s))" "0 \<le> a"
    using assms by (auto simp: checked_def ram_wf_def safe_valid_def)
  moreover from this have "put_bytes (memory (ram s)) (nat a) [b] = (memory (ram s))[nat a := b]"
    using put_bytes_Cons [of "nat a" b "[]" "memory (ram s)"] put_bytes_def [of _ _ "[]"] by simp
  ultimately have "put_bytes (put_bytes (memory (ram s)) (nat a) [b]) (Suc (nat a)) bs = put_bytes (memory (ram s)) (nat a) (b # bs)"
    using put_bytes_Cons [of "nat a" b bs "memory (ram s)"] by simp
  then show ?thesis using \<open>0 \<le> a\<close> by (simp add: sput_def ram_put_def nat_add_distrib)
qed

lemma write_hex_plain:
  assumes "checked s" "safe_valid (ram s) a (length bs)"
  shows "write_hex a (length bs) (hex_bytes bs) s = (Inr (), sput s a bs)"
  using assms
proof (induction bs arbitrary: s a)
  case (Cons b bs)
  have v: "safe_valid (ram s) a 1" "safe_valid (ram s) (a + 1) (length bs)" using Cons(3) by (auto simp: safe_valid_def)
  have "word_of_int (int (unat b)) = b" by simp
  then have "store_byte a (int (unat b)) s = (Inr (), sput s a [b])"
    using store_byte_plain [OF Cons(2) v(1), of "int (unat b)"] by simp
  then show ?case
    using Cons(1) [of "sput s a [b]" "a + 1"] Cons(2,3) v checked_sput [OF Cons(2), of a "[b]"]
    by (simp add: hex_bytes_def py_bind_def py_then_def py_return_def sput_Cons)
qed (simp add: py_return_def sput_Nil hex_bytes_def)

lemma read_hex_plain:
  assumes "checked s" "safe_valid (ram s) a n"
  shows "read_hex a n s = (Inr (hex_bytes (map (\<lambda>i. sbyte s (a + int i)) [0..<n])), s)"
  using assms(2)
proof (induction n arbitrary: a)
  case (Suc n)
  have v: "safe_valid (ram s) a 1" "safe_valid (ram s) (a + 1) n" using Suc(2) by (auto simp: safe_valid_def)
  have "fmt_hex False 2 (uint b) = hex_byte (unat b)" for b :: "8 word"
    using fmt_hex_byte [of "uint b"] uint_lt2p [of b] by simp
  then show ?case
    using Suc(1) [OF v(2)] load_byte_plain [OF assms(1) v(1), of False]
    by (simp add: py_bind_def py_return_def hex_bytes_def sign8_def upt_conv_Cons map_Suc_upt [symmetric] comp_def algebra_simps
      del: upt_Suc)
qed (simp add: py_return_def hex_bytes_def)

lemma read_hex_bad:
  assumes "checked s" "0 \<le> a" "\<not> safe_valid (ram s) a n" "0 < n"
  shows "\<exists>e. read_hex a n s = (Inl e, s)"
  using assms(2-4)
proof (induction n arbitrary: a)
  case (Suc n)
  show ?case
  proof (cases "safe_valid (ram s) a 1")
    case True
    then have "\<not> safe_valid (ram s) (a + 1) n" "0 < n" using Suc(3) by (auto simp: safe_valid_def intro: ccontr)
    then obtain e where "read_hex (a + 1) n s = (Inl e, s)" using Suc(1,2) by fastforce
    then show ?thesis using load_byte_plain [OF assms(1) True, of False] by (simp add: py_bind_def)
  qed (simp add: py_bind_def load_byte_bad [OF assms(1)])
qed simp

definition gdb_range :: "nat \<Rightarrow> nat \<Rightarrow> string" where
  "gdb_range a n = hex_nat False a @ '','' @ hex_nat False n"

lemma split_range: "py_split (CHR '','') (gdb_range a n) = [hex_nat False a, hex_nat False n]"
proof -
  have "CHR '','' \<notin> set (hex_nat False k)" for k using hex_nat_ok [of "CHR '',''" False k] by (auto simp: hex_ok_def)
  then show ?thesis by (simp add: gdb_range_def py_split_append py_split_free)
qed

lemma split_colon: "py_split (CHR '':'') (gdb_range a n @ '':'' @ hex_bytes bs) = [gdb_range a n, hex_bytes bs]"
proof -
  have "CHR '':'' \<notin> set (gdb_range a n)" "CHR '':'' \<notin> set (hex_bytes bs)"
    using hex_nat_ok [of "CHR '':''" False a] hex_nat_ok [of "CHR '':''" False n] hex_bytes_ok [of "CHR '':''" bs]
    by (auto simp: gdb_range_def hex_ok_def)
  then show ?thesis using py_split_append [of "CHR '':''" "gdb_range a n"] by (simp add: py_split_free)
qed

text \<open>C35. On checked memory, \<open>M\<close> with the hexadecimal form of some bytes stores exactly these bytes, \<open>m\<close> on the
  same range then replies with the same text, and \<open>m\<close> on a range that leaves the memory replies
  \<open>E01\<close> and changes nothing.\<close>

theorem gdb_memory_roundtrip:
  assumes "checked s" "safe_valid (ram s) (int a) (length bs)"
  shows "cmd_write_memory (gdb_range a (length bs) @ '':'' @ hex_bytes bs) s = (Inr ''OK'', sput s (int a) bs) \<and>
    cmd_read_memory (gdb_range a (length bs)) (sput s (int a) bs) = (Inr (hex_bytes bs), sput s (int a) bs) \<and>
    (\<not> safe_valid (ram s) (int x) n \<and> 0 < n \<longrightarrow> cmd_read_memory (gdb_range x n) s = (Inr ''E01'', s))"
proof (intro conjI impI)
  show "cmd_write_memory (gdb_range a (length bs) @ '':'' @ hex_bytes bs) s = (Inr ''OK'', sput s (int a) bs)"
    unfolding cmd_write_memory_def split_colon
    using write_hex_plain [OF assms] by (simp add: split_range py_except_def py_then_def py_bind_def py_return_def)
  have "map (\<lambda>i. sbyte (sput s (int a) bs) (int a + int i)) [0..<length bs] = bs"
    using assms sbyte_sput [OF assms] by (intro nth_equalityI) (auto simp: safe_valid_def)
  then show "cmd_read_memory (gdb_range a (length bs)) (sput s (int a) bs) = (Inr (hex_bytes bs), sput s (int a) bs)"
    using read_hex_plain [OF checked_sput [OF assms], of "int a" "length bs"] assms(2)
    by (simp add: cmd_read_memory_def split_range py_except_def py_bind_def py_return_def)
  assume "\<not> safe_valid (ram s) (int x) n \<and> 0 < n"
  then obtain e where "read_hex (int x) n s = (Inl e, s)" using read_hex_bad [OF assms(1), of "int x" n] by auto
  then show "cmd_read_memory (gdb_range x n) s = (Inr ''E01'', s)"
    by (simp add: cmd_read_memory_def split_range py_except_def py_bind_def py_return_def)
qed

theorem gdb_memory_roundtrip_witness:
  "let s = demo_msys SafeRAM True ()
   in fst (cmd_write_memory (gdb_range 4 2 @ '':'' @ hex_bytes [0xAB, 0xCD]) s) = Inr ''OK'' \<and>
      fst (cmd_read_memory (gdb_range 4 2) (sput s 4 [0xAB, 0xCD])) = Inr (hex_bytes [0xAB, 0xCD]) \<and>
      cmd_read_memory (gdb_range 15 2) s = (Inr ''E01'', s)"
proof -
  let ?s = "demo_msys SafeRAM True ()"
  have c: "checked ?s" and v: "safe_valid (ram ?s) (int 4) (length [0xAB, 0xCD :: 8 word])" "\<not> safe_valid (ram ?s) (int 15) 2"
    by (simp_all add: checked_def demo_msys_def demo_ram_wf safe_valid_def) (simp_all add: demo_ram_def)
  from gdb_memory_roundtrip [OF c v(1), of 15 2] v(2) show ?thesis by (simp add: Let_def numeral_2_eq_2)
qed

section \<open>Reception of packets\<close>

definition ascii_text :: "string \<Rightarrow> bool" where
  "ascii_text t \<longleftrightarrow> (\<forall>c \<in> set t. (of_char c :: nat) < 128)"

definition wire :: "string \<Rightarrow> 8 word list" where
  "wire t = map (\<lambda>c. word_of_nat (of_char c)) t"

lemma wire_simps [simp]:
  "wire [] = []" "wire (c # t) = word_of_nat (of_char c) # wire t" "wire (t @ t') = wire t @ wire t'"
  by (simp_all add: wire_def)

lemma ascii_simps [simp]:
  "ascii_text []" "ascii_text (c # t) \<longleftrightarrow> (of_char c :: nat) < 128 \<and> ascii_text t"
  "ascii_text (t @ t') \<longleftrightarrow> ascii_text t \<and> ascii_text t'"
  by (auto simp: ascii_text_def)

lemma decode_wire: "ascii_text t \<Longrightarrow> decode_ascii (wire t) = Some t"
  by (simp add: decode_ascii_def wire_def ascii_text_def unsigned_of_nat take_bit_nat_eq_self comp_def map_idI)

text \<open>What is left of the pieces in which the input arrives when \<open>n\<close> bytes have been read, and that no piece ends one byte after
  a \<open>#\<close> within the first \<open>n\<close> bytes, that is, between the two characters of a checksum.\<close>

fun unread :: "nat \<Rightarrow> 8 word list list \<Rightarrow> 8 word list list" where
  "unread 0 segs = segs"
| "unread (Suc n) [] = []"
| "unread (Suc n) ([] # segs) = unread (Suc n) segs"
| "unread (Suc n) ((b # bs) # segs) = unread n (bs # segs)"

definition checksums_whole :: "nat \<Rightarrow> 8 word list list \<Rightarrow> bool" where
  "checksums_whole n segs \<longleftrightarrow> (\<forall>k \<le> length segs. \<forall>p b. concat (take k segs) = p @ [0x23, b] \<longrightarrow> n \<le> length p + 2)"

lemma checksums_whole_code [code]:
  "checksums_whole n segs \<longleftrightarrow> list_all (\<lambda>k. case rev (concat (take k segs)) of
      b # c # p \<Rightarrow> c = 0x23 \<longrightarrow> n \<le> length p + 2 | _ \<Rightarrow> True) [0..<Suc (length segs)]"
proof -
  have "(\<forall>p b. t = p @ [0x23, b] \<longrightarrow> n \<le> length p + 2) \<longleftrightarrow> (case rev t of b # c # p \<Rightarrow> c = 0x23 \<longrightarrow> n \<le> length p + 2 | _ \<Rightarrow> True)"
    for t :: "8 word list"
    by (cases t rule: rev_exhaust; simp; cases "butlast t" rule: rev_exhaust; auto)
  then show ?thesis by (auto simp: checksums_whole_def list_all_iff less_Suc_eq_le simp del: upt_Suc)
qed

lemma unread_concat: "concat (unread n segs) = drop n (concat segs)"
  by (induction n segs rule: unread.induct) auto

lemma unread_add: "unread (m + n) segs = unread n (unread m segs)"
proof (induction m segs rule: unread.induct)
  case (2 m)
  then show ?case by (cases n) auto
qed auto

lemma unread_piece: "unread (length bs) ((bs @ cs) # segs) = cs # segs"
  by (induction bs) auto

lemma whole_skip: "checksums_whole n ([] # segs) \<Longrightarrow> checksums_whole n segs"
  unfolding checksums_whole_def by (metis Suc_le_mono append_Nil concat.simps(2) length_Cons take_Suc_Cons)

lemma whole_byte:
  assumes "checksums_whole (Suc n) ((b # bs) # segs)"
  shows "checksums_whole n (bs # segs)"
  unfolding checksums_whole_def
proof (intro allI impI)
  fix k p c
  assume k: "k \<le> length (bs # segs)" "concat (take k (bs # segs)) = p @ [0x23, c]"
  then obtain j where "k = Suc j" by (cases k) auto
  then have "concat (take k ((b # bs) # segs)) = (b # p) @ [0x23, c]" using k(2) by simp
  then show "n \<le> length p + 2" using assms k(1) unfolding checksums_whole_def by (metis Suc_le_mono add_Suc length_Cons)
qed

lemma whole_unread: "checksums_whole (m + n) segs \<Longrightarrow> checksums_whole n (unread m segs)"
proof (induction m segs rule: unread.induct)
  case (3 m segs)
  then show ?case using whole_skip by simp
next
  case (4 m b bs segs)
  then show ?case using whole_byte [of "m + n" b bs segs] by simp
qed (simp_all add: checksums_whole_def)

lemma whole_mono: "checksums_whole n segs \<Longrightarrow> m \<le> n \<Longrightarrow> checksums_whole m segs"
  by (meson checksums_whole_def le_trans)

lemma whole_piece: "checksums_whole (length bs) ((bs @ cs) # segs)"
  unfolding checksums_whole_def
proof (intro allI impI)
  fix k p c
  assume "concat (take k ((bs @ cs) # segs)) = p @ [0x23, c]"
  moreover from this obtain j where "k = Suc j" by (cases k) auto
  ultimately have "length (p @ [0x23, c]) = length (bs @ cs @ concat (take j segs))" by simp
  then show "length bs \<le> length p + 2" by simp
qed

lemma recv_one: "concat segs = b # t \<Longrightarrow> recv 1 segs = ([b], unread 1 segs)"
  by (induction "1 :: nat" segs rule: recv.induct) auto

lemma recv_two_whole:
  assumes "concat segs = x # y # t" "\<And>k. concat (take k segs) \<noteq> [x]"
  shows "recv 2 segs = ([x, y], unread 2 segs)"
  using assms
proof (induction "2 :: nat" segs rule: recv.induct)
  case (2 segs)
  from 2(3) [of "Suc _"] show ?case using 2(1) 2(2) by (simp add: numeral_2_eq_2)
next
  case (3 b bs segs)
  from 3(2) [of 1] show ?case using 3(1) by (cases bs) (auto simp: numeral_2_eq_2)
qed simp

lemma recv_checksum:
  assumes "concat segs = 0x23 # x # y # t" "checksums_whole 3 segs"
  shows "recv 2 (unread 1 segs) = ([x, y], unread 3 segs)"
  using assms
proof (induction segs)
  case (Cons s segs)
  show ?case
  proof (cases s)
    case Nil
    then show ?thesis using Cons whole_skip by (simp add: numeral_3_eq_3)
  next
    case (Cons b bs)
    have "concat (take k (bs # segs)) \<noteq> [x]" for k
    proof
      assume x: "concat (take k (bs # segs)) = [x]"
      then obtain j where j: "k = Suc j" by (cases k) auto
      have "j \<le> length segs" using x j Cons Cons.prems(1) by (cases "j \<le> length segs") auto
      moreover have "concat (take k (s # segs)) = [] @ [0x23, x]" using x j Cons Cons.prems(1) by auto
      ultimately show False using Cons.prems(2) j unfolding checksums_whole_def by fastforce
    qed
    then show ?thesis using recv_two_whole [of "bs # segs" x y t] Cons Cons.prems(1) by (simp add: numeral_3_eq_3 numeral_2_eq_2)
  qed
qed simp

lemma rx_same: "rx g = r \<Longrightarrow> g\<lparr>rx := r\<rparr> = g"
  by auto

lemma recv_loop_char:
  assumes "(of_char c :: nat) < 128" "concat (rx g) = word_of_nat (of_char c) # t"
  shows "recv_loop buffer in_packet g =
    (let g' = g\<lparr>rx := unread 1 (rx g)\<rparr> in
     if c = CHR 0x03 then (Inr (Some ''interrupt''), g')
     else if \<not> in_packet \<and> c \<in> {CHR ''+'', CHR ''-''} then recv_loop buffer in_packet g'
     else if c = CHR ''$'' then recv_loop ''$'' True g'
     else if in_packet then
       if c = CHR ''#'' then
         (case recv 2 (unread 1 (rx g)) of
            (bs2, rest2) \<Rightarrow>
              (case decode_ascii bs2 of
                 None \<Rightarrow> (Inl ValueError, g\<lparr>rx := rest2\<rparr>)
               | Some cs \<Rightarrow>
                   (case GDBPacket_decode (buffer @ ''#'' @ cs) of
                      Some data \<Rightarrow> (Inr (Some data), g\<lparr>rx := rest2, tx := tx g @ ''+''\<rparr>)
                    | None \<Rightarrow> recv_loop [] False (g\<lparr>rx := rest2, tx := tx g @ ''-''\<rparr>))))
       else recv_loop (buffer @ [c]) True g'
     else recv_loop buffer False g')"
  using decode_wire [of "[c]"] assms recv_one [OF assms(2)] by (subst recv_loop.simps) (simp add: Let_def del: One_nat_def)

lemma recv_acks:
  assumes "set acks \<subseteq> {CHR ''+'', CHR ''-''}"
  shows "concat (rx g) = wire acks @ t \<Longrightarrow> recv_loop buffer False g = recv_loop buffer False (g\<lparr>rx := unread (length acks) (rx g)\<rparr>)"
  using assms
proof (induction acks arbitrary: g)
  case (Cons c acks)
  then have "(of_char c :: nat) < 128" "c \<in> {CHR ''+'', CHR ''-''}" "c \<noteq> CHR 0x03" by auto
  then show ?case using Cons.prems Cons.IH [of "g\<lparr>rx := unread 1 (rx g)\<rparr>"] unread_add [of 1 "length acks" "rx g"]
    by (subst recv_loop_char [of c _ "wire acks @ t"]) (simp_all add: Let_def unread_concat)
qed simp

lemma recv_body:
  assumes "ascii_text body" "set body \<inter> {CHR ''$'', CHR ''#'', CHR 0x03} = {}"
  shows "concat (rx g) = wire body @ t \<Longrightarrow>
    recv_loop buffer True g = recv_loop (buffer @ body) True (g\<lparr>rx := unread (length body) (rx g)\<rparr>)"
  using assms
proof (induction body arbitrary: g buffer)
  case (Cons c body)
  then have "(of_char c :: nat) < 128" "c \<noteq> CHR ''$''" "c \<noteq> CHR ''#''" "c \<noteq> CHR 0x03" by auto
  then show ?case using Cons.prems Cons.IH [of "g\<lparr>rx := unread 1 (rx g)\<rparr>" "buffer @ [c]"] unread_add [of 1 "length body" "rx g"]
    by (subst recv_loop_char [of c _ "wire body @ t"]) (simp_all add: Let_def unread_concat)
qed simp

text \<open>A complete frame is delivered and acknowledged if it decodes, otherwise it is refused and the reception goes on.\<close>

lemma recv_frame:
  assumes "f = ''$'' @ body @ ''#'' @ [x, y]" "ascii_text (body @ [x, y])" "set body \<inter> {CHR ''$'', CHR ''#'', CHR 0x03} = {}"
    "concat (rx g) = wire f @ t" "checksums_whole (length f) (rx g)"
  shows "recv_packet g =
    (case GDBPacket_decode f of
       Some data \<Rightarrow> (Inr (Some data), g\<lparr>rx := unread (length f) (rx g), tx := tx g @ ''+''\<rparr>)
     | None \<Rightarrow> recv_packet (g\<lparr>rx := unread (length f) (rx g), tx := tx g @ ''-''\<rparr>))"
proof -
  let ?g = "\<lambda>n. g\<lparr>rx := unread n (rx g)\<rparr>" and ?n = "Suc (length body)"
  have d: "concat (unread 1 (rx g)) = wire body @ 0x23 # wire [x, y] @ t" "concat (unread ?n (rx g)) = 0x23 # wire [x, y] @ t"
    using assms(4) by (simp_all add: unread_concat assms(1) wire_def)
  have c: "recv 2 (unread 1 (unread ?n (rx g))) = (wire [x, y], unread 3 (unread ?n (rx g)))"
    using recv_checksum [of "unread ?n (rx g)"] d(2) whole_unread [of ?n 3 "rx g"] assms(5) by (simp add: assms(1) numeral_eq_Suc)
  have f': "f = CHR ''$'' # body @ [CHR ''#'', x, y]" using assms(1) by simp
  have u: "unread (length f) (rx g) = unread 3 (unread ?n (rx g))"
    using unread_add [of ?n 3 "rx g"] by (simp add: assms(1) numeral_eq_Suc)
  have "recv_packet g = recv_loop ''$'' True (?g 1)"
    unfolding recv_packet_def using assms(4) by (subst recv_loop_char [of "CHR ''$''"]) (simp_all add: Let_def assms(1))
  also have "\<dots> = recv_loop (''$'' @ body) True (?g ?n)"
    using recv_body [of body "?g 1"] assms(2,3) d(1) unread_add [of 1 "length body" "rx g"] by simp
  also have "\<dots> = (case GDBPacket_decode f of
       Some data \<Rightarrow> (Inr (Some data), g\<lparr>rx := unread (length f) (rx g), tx := tx g @ ''+''\<rparr>)
     | None \<Rightarrow> recv_packet (g\<lparr>rx := unread (length f) (rx g), tx := tx g @ ''-''\<rparr>))"
    using decode_wire [of "[x, y]"] assms(2) d(2) c unfolding u
    by (subst recv_loop_char [of "CHR ''#''"], simp, simp) (simp add: Let_def recv_packet_def f' split: option.split del: One_nat_def)
  finally show ?thesis .
qed

lemma encode_body_clean:
  "CHR ''#'' \<notin> set d \<Longrightarrow> CHR 0x03 \<notin> set d \<Longrightarrow> set (GDBPacket_escape d) \<inter> {CHR ''$'', CHR ''#'', CHR 0x03} = {}"
  by (induction d) (auto simp: special_chars_def)

lemma ascii_escape: "ascii_text d \<Longrightarrow> ascii_text (GDBPacket_escape d)"
  by (induction d) (auto simp: special_chars_def)

lemma recv_encoded_pieces:
  assumes "ascii_text d" "CHR ''#'' \<notin> set d" "CHR 0x03 \<notin> set d"
    "concat (rx g) = wire (GDBPacket_encode d) @ t" "checksums_whole (length (GDBPacket_encode d)) (rx g)"
  shows "recv_packet g = (Inr (Some d), g\<lparr>rx := unread (length (GDBPacket_encode d)) (rx g), tx := tx g @ ''+''\<rparr>)"
proof -
  let ?b = "GDBPacket_escape d" and ?n = "GDBPacket_checksum (GDBPacket_escape d)"
  have e: "GDBPacket_encode d = ''$'' @ ?b @ ''#'' @ [hex_byte ?n ! 0, hex_byte ?n ! 1]"
    using fmt_hex_byte [of "int ?n"] checksum_less [of ?b] by (simp add: GDBPacket_encode_def Let_def hex_byte_def)
  have "ascii_text (hex_byte ?n)"
    using hex_byte_ok [OF checksum_less] by (auto simp: ascii_text_def hex_ok_def)
  then have a: "ascii_text (?b @ [hex_byte ?n ! 0, hex_byte ?n ! 1])" using ascii_escape [OF assms(1)] by (simp add: hex_byte_def)
  show ?thesis using recv_frame [OF e a encode_body_clean [OF assms(2,3)] assms(4,5)] decode_encode [of d] by simp
qed

lemma recv_encoded:
  assumes "ascii_text d" "CHR ''#'' \<notin> set d" "CHR 0x03 \<notin> set d" "rx g = wire (GDBPacket_encode d @ later) # segs"
  shows "recv_packet g = (Inr (Some d), g\<lparr>rx := wire later # segs, tx := tx g @ ''+''\<rparr>)"
  using recv_encoded_pieces [OF assms(1-3), of g "wire later @ concat segs"] assms(4)
    whole_piece [of "wire (GDBPacket_encode d)"] unread_piece [of "wire (GDBPacket_encode d)"]
  by (simp add: wire_def)

definition damaged :: "string \<Rightarrow> bool" where
  "damaged f \<longleftrightarrow> (\<exists>body x y. f = ''$'' @ body @ ''#'' @ [x, y] \<and> ascii_text (body @ [x, y]) \<and>
     set body \<inter> {CHR ''$'', CHR ''#'', CHR 0x03} = {} \<and> GDBPacket_decode f = None)"

lemma recv_noise:
  assumes "damaged f \<or> f \<in> {''+'', ''-''}" "concat (rx g) = wire f @ t" "checksums_whole (length f) (rx g)"
  shows "recv_packet g = recv_packet (g\<lparr>rx := unread (length f) (rx g), tx := tx g @ (if damaged f then ''-'' else [])\<rparr>)"
proof (cases "damaged f")
  case True
  then obtain body x y where f: "f = ''$'' @ body @ ''#'' @ [x, y]" "ascii_text (body @ [x, y])"
      "set body \<inter> {CHR ''$'', CHR ''#'', CHR 0x03} = {}" "GDBPacket_decode f = None"
    by (auto simp: damaged_def)
  show ?thesis using recv_frame [OF f(1-3) assms(2,3)] f(4) True by simp
next
  case False
  then have "set f \<subseteq> {CHR ''+'', CHR ''-''}" using assms(1) by auto
  from recv_acks [OF this assms(2)] False show ?thesis by (simp add: recv_packet_def)
qed

text \<open>C18. After any acknowledgements and damaged frames, in any order and each of the latter refused with \<open>-\<close>, the packet
  that follows is delivered unchanged and acknowledged with \<open>+\<close>, for data in ASCII without \<open>#\<close> and without
  the interrupt byte. The input may arrive in any pieces of which none ends between the two characters of a checksum (one byte after a \<open>#\<close>),
  and what follows the packet is left unread.\<close>

theorem recv_packet_delivers:
  assumes "\<forall>f \<in> set noise. damaged f \<or> f \<in> {''+'', ''-''}"
    "ascii_text d" "CHR ''#'' \<notin> set d" "CHR 0x03 \<notin> set d"
    "concat (rx g) = wire (concat noise @ GDBPacket_encode d) @ later"
    "checksums_whole (length (concat noise @ GDBPacket_encode d)) (rx g)"
  shows "\<exists>segs. recv_packet g =
      (Inr (Some d), g\<lparr>rx := segs, tx := tx g @ replicate (length (filter damaged noise)) (CHR ''-'') @ ''+''\<rparr>) \<and>
    concat segs = later"
  using assms(1,5,6)
proof (induction noise arbitrary: g)
  case Nil
  then show ?case using recv_encoded_pieces [OF assms(2-4), of g later] by (auto simp: unread_concat wire_def)
next
  case (Cons f noise)
  let ?g = "g\<lparr>rx := unread (length f) (rx g), tx := tx g @ (if damaged f then ''-'' else [])\<rparr>"
  have "recv_packet g = recv_packet ?g"
    using recv_noise [of f g "wire (concat noise @ GDBPacket_encode d) @ later"] Cons.prems whole_mono by simp
  moreover have "concat (rx ?g) = wire (concat noise @ GDBPacket_encode d) @ later"
    using Cons.prems(2) by (simp add: unread_concat wire_def)
  moreover have "checksums_whole (length (concat noise @ GDBPacket_encode d)) (rx ?g)"
    using whole_unread [of "length f"] Cons.prems(3) by simp
  ultimately show ?case using Cons.IH [of ?g] Cons.prems(1) by auto
qed

theorem recv_packet_delivers_witness:
  "\<exists>segs. recv_packet (GDBStub_init [wire ''+$m0,4#0'' @ wire ''0'', wire ''+$m'', wire ''0,4#'', wire ''fd$''] []) =
     (Inr (Some ''m0,4''), (GDBStub_init segs [])\<lparr>tx := ''-+''\<rparr>) \<and> concat segs = wire ''$''"
proof -
  let ?r = "[wire ''+$m0,4#0'' @ wire ''0'', wire ''+$m'', wire ''0,4#'', wire ''fd$'']" and ?noise = "[''+'', ''$m0,4#00'', ''+'']"
  have n: "GDBPacket_decode ''$m0,4#00'' = None" "GDBPacket_encode ''m0,4'' = ''$m0,4#fd''" by code_simp+
  have d: "damaged ''$m0,4#00''" "\<not> damaged ''+''"
    unfolding damaged_def
    by (rule exI [of _ "''m0,4''"], rule exI [of _ "CHR ''0''"], rule exI [of _ "CHR ''0''"]) (simp_all add: n)
  have "checksums_whole (length (concat ?noise @ GDBPacket_encode ''m0,4'')) (rx (GDBStub_init ?r []))"
    by code_simp
  then show ?thesis
    using recv_packet_delivers [of ?noise "''m0,4''" "GDBStub_init ?r []" "wire ''$''"] d
    by (auto simp: GDBStub_init_def n)
qed

text \<open>A checksum that arrives in two pieces is read short, and the packet is refused.\<close>

lemma recv_packet_split_checksum:
  "recv_packet (GDBStub_init [wire ''$?#3'', wire ''f''] []) = (Inr None, (GDBStub_init [] [])\<lparr>tx := ''-''\<rparr>)"
  by code_simp

text \<open>The escaped form of \<open>#\<close> contains the byte 3, which the reception takes for an interrupt.\<close>

lemma recv_packet_hash_interrupt:
  "recv_packet (GDBStub_init [wire (GDBPacket_encode ''a#'')] []) =
     (Inr (Some ''interrupt''), (GDBStub_init [wire ''#e1''] []))"
proof -
  have "GDBPacket_encode ''a#'' = ''$a}'' @ [CHR 0x03] @ ''#e1''" by code_simp
  then show ?thesis
    by (simp add: recv_packet_def GDBStub_init_def recv_loop_char [of "CHR ''$''"] recv_loop_char [of "CHR ''a''"]
      recv_loop_char [of "CHR ''}''"] recv_loop_char [of "CHR 0x03"] Let_def)
qed

section \<open>Running\<close>

lemma fetch_execute_plain:
  assumes "plain_word s (pc (cpu s))" "safe_valid (ram s) (pc (cpu s)) 4"
  shows "py_then (fetch_execute ecall) advance_pc s = fast_step ecall () s"
proof -
  have c: "checked s" using assms(1) by (simp add: plain_word_def)
  have v: "safe_valid (ram s) (pc (cpu s)) 2" "safe_valid (ram s) (pc (cpu s) + 2) 2"
    using assms(2) by (auto simp: safe_valid_def)
  show ?thesis
    using load_half_plain [OF c v(1), of False] load_half_plain [OF c v(2), of False] load_word_plain [OF assms]
    by (simp add: fetch_execute_def fast_step_def fetch_word_def execute_fetched_def py_then_def py_bind_def sign16_def
        le32_low add.assoc) (simp add: le32_halves)
qed

lemma fmt_hex_ascii: "ascii_text (fmt_hex u w z)"
  using hex_nat_ok [of _ u "nat \<bar>z\<bar>"] by (auto simp: fmt_hex_def ascii_text_def hex_ok_def Let_def)

lemma encode_ascii: "ascii_text d \<Longrightarrow> ascii_text (GDBPacket_encode d)"
  using ascii_escape [of d] by (simp add: GDBPacket_encode_def Let_def fmt_hex_ascii)

lemma send_ascii: "ascii_text t \<Longrightarrow> send_packet t g = (Inr (), g\<lparr>tx := tx g @ GDBPacket_encode t\<rparr>)"
  using encode_ascii [of t] by (simp add: send_packet_def ascii_text_def Let_def)

abbreviation stop_text :: "int \<Rightarrow> string" where
  "stop_text sig \<equiv> ''S'' @ fmt_hex False 2 sig"

lemma stop_text_trap: "stop_text SIGTRAP = ''S05''" "stop_text 5 = ''S05''"
  by code_simp+

lemma stopped_reply:
  "stopped sig g = (Inr (), g\<lparr>running := False, last_signal := sig, tx := tx g @ GDBPacket_encode (stop_text sig)\<rparr>)"
  by (simp add: stopped_def stop_reply_def send_ascii fmt_hex_ascii py_then_def py_bind_def py_modify_def)

text \<open>The signal reported for an exception, if it is caught.\<close>

fun stop_signal :: "exn \<Rightarrow> int option" where
  "stop_signal (DebugBreak sig) = Some sig"
| "stop_signal (ExecutionTerminated _) = Some SIGTRAP"
| "stop_signal e = map_option error_signal (machine_error_text e)"

fun is_break :: "exn \<Rightarrow> bool" where
  "is_break (DebugBreak sig) = True"
| "is_break e = False"

lemma report_exception:
  "report_stop (Inl e) g =
     (case stop_signal e of
        Some sig \<Rightarrow> (Inr (), g\<lparr>running := False, single_step := (single_step g \<and> \<not> is_break e), last_signal := sig,
          tx := tx g @ GDBPacket_encode (stop_text sig)\<rparr>)
      | None \<Rightarrow> (Inl e, g))"
  by (cases e) (simp_all add: report_stop_def stopped_reply py_then_def py_bind_def py_modify_def py_raise_def)

lemma handle_resume:
  "handle_command exc_text ''s'' d = (Inr None, d\<lparr>stub := (stub d)\<lparr>running := True, single_step := True\<rparr>\<rparr>)"
  "handle_command exc_text ''c'' d = (Inr None, d\<lparr>stub := (stub d)\<lparr>running := True, single_step := False\<rparr>\<rparr>)"
  by (simp_all add: handle_command_def py_startswith_def cmd_step_def cmd_continue_def resume_def on_stub_def
    py_zoom_def py_then_def py_bind_def py_modify_def py_return_def)

text \<open>A command that resumes execution, from the packet to the stop reply.\<close>

lemma gdb_command_resume:
  assumes "rx (stub d) = wire (GDBPacket_encode cmd) # segs" "cmd = ''s'' \<or> cmd = ''c''"
    "run_with_gdb ecall (d\<lparr>stub := (stub d)\<lparr>rx := [] # segs, tx := tx (stub d) @ ''+'',
        running := True, single_step := (cmd = ''s'')\<rparr>\<rparr>) =
     Some (Inl e, d\<lparr>stub := (stub d)\<lparr>rx := [] # segs, tx := tx (stub d) @ ''+'',
        running := True, single_step := (cmd = ''s'')\<rparr>, target := s'\<rparr>)"
  shows "gdb_command ecall exc_text d =
    (case stop_signal e of
       Some sig \<Rightarrow> Some (Inr True, d\<lparr>stub := (stub d)\<lparr>running := False, single_step := (cmd = ''s'' \<and> \<not> is_break e), last_signal := sig,
         rx := [] # segs, tx := tx (stub d) @ ''+'' @ GDBPacket_encode (stop_text sig)\<rparr>, target := s'\<rparr>)
     | None \<Rightarrow> Some (Inl e, d\<lparr>stub := (stub d)\<lparr>running := True, single_step := (cmd = ''s''),
         rx := [] # segs, tx := tx (stub d) @ ''+''\<rparr>, target := s'\<rparr>))"
proof -
  have "recv_packet (stub d) = (Inr (Some cmd), (stub d)\<lparr>rx := [] # segs, tx := tx (stub d) @ ''+''\<rparr>)"
    using recv_encoded [of cmd "stub d" "[]" segs] assms(1,2) by auto
  then show ?thesis
    using assms(2,3)
    by (elim disjE) (simp_all add: gdb_command_def on_stub_def py_zoom_def handle_resume py_then_def py_bind_def py_return_def
        report_exception split: option.split)
qed

text \<open>C37. On a machine without timer and peripherals whose program counter points to four bytes of checked memory, the packet \<open>s\<close> executes exactly one
  instruction, as one iteration of the fast loop does. If the instruction completes, the reply is the stop with signal 5 and the stub is idle. If it raises, the machine is left as
  the iteration leaves it: the end of the program is reported with signal 5, an error of the machine with the signal of its message (11 for an access fault),
  the stub stays in single-step mode, and any other exception leaves the command.\<close>

theorem gdb_step_one:
  assumes "rx (stub d) = wire (GDBPacket_encode ''s'') # segs"
    "plain_word (target d) (pc (cpu (target d)))" "safe_valid (ram (target d)) (pc (cpu (target d))) 4"
    "\<not> opt_timer (mach (host (target d)))" "\<not> opt_mmio (mach (host (target d)))"
    "fast_step ecall () (target d) = (r, s')"
  shows "gdb_command ecall exc_text d =
    (case r of
       Inr _ \<Rightarrow> Some (Inr True, d\<lparr>stub := (stub d)\<lparr>running := False, single_step := False, last_signal := SIGTRAP,
         rx := [] # segs, tx := tx (stub d) @ ''+'' @ GDBPacket_encode ''S05''\<rparr>, target := s'\<rparr>)
     | Inl e \<Rightarrow>
         (case stop_signal e of
            Some sig \<Rightarrow> Some (Inr True, d\<lparr>stub := (stub d)\<lparr>running := False, single_step := (\<not> is_break e), last_signal := sig,
              rx := [] # segs, tx := tx (stub d) @ ''+'' @ GDBPacket_encode (stop_text sig)\<rparr>, target := s'\<rparr>)
          | None \<Rightarrow> Some (Inl e, d\<lparr>stub := (stub d)\<lparr>running := True, single_step := True,
              rx := [] # segs, tx := tx (stub d) @ ''+''\<rparr>, target := s'\<rparr>)))"
proof -
  let ?e = "case r of Inr _ \<Rightarrow> DebugBreak 5 | Inl e \<Rightarrow> e"
  have "gdb_single ecall False False (target d) = (Inl ?e, s')"
    using fetch_execute_plain [OF assms(2,3), of ecall] assms(6)
    by (auto simp: gdb_single_def tick_def py_then_def py_bind_def py_return_def py_raise_def split: prod.splits sum.splits)
  then have "gdb_command ecall exc_text d =
    (case stop_signal ?e of
       Some sig \<Rightarrow> Some (Inr True, d\<lparr>stub := (stub d)\<lparr>running := False, single_step := (''s'' = ''s'' \<and> \<not> is_break ?e), last_signal := sig,
         rx := [] # segs, tx := tx (stub d) @ ''+'' @ GDBPacket_encode (stop_text sig)\<rparr>, target := s'\<rparr>)
     | None \<Rightarrow> Some (Inl ?e, d\<lparr>stub := (stub d)\<lparr>running := True, single_step := (''s'' = ''s''),
         rx := [] # segs, tx := tx (stub d) @ ''+''\<rparr>, target := s'\<rparr>))"
    using assms(4,5) by (intro gdb_command_resume [OF assms(1)]) (simp_all add: run_with_gdb_def on_target_def py_zoom_def py_then_def py_bind_def)
  then show ?thesis using stop_text_trap(2) by (cases r) (simp_all add: SIGTRAP_def split: option.split)
qed

lemma gdb_loop_breakpoint:
  assumes "running (stub d)" "arrived (stub d) = []"
    "\<And>k t. k < n \<Longrightarrow> py_iter (fast_step ecall) k () (target d) = Inr ((), t) \<Longrightarrow>
       plain_word t (pc (cpu t)) \<and> safe_valid (ram t) (pc (cpu t)) 4 \<and> \<not> is_breakpoint (pc (cpu t)) (stub d)"
    "py_iter (fast_step ecall) n () (target d) = Inr ((), s')" "is_breakpoint (pc (cpu s')) (stub d)"
  shows "gdb_loop ecall False False l d = Some (Inl (DebugBreak 5), d\<lparr>target := s'\<rparr>)"
  using assms
proof (induction n arbitrary: d l)
  case 0
  then show ?case by (subst gdb_loop.simps) (simp add: gdb_cycle_def)
next
  case (Suc n)
  have f: "plain_word (target d) (pc (cpu (target d)))" "safe_valid (ram (target d)) (pc (cpu (target d))) 4"
      "\<not> is_breakpoint (pc (cpu (target d))) (stub d)"
    using Suc.prems(3) [of 0 "target d"] by auto
  obtain s1 where s1: "fast_step ecall () (target d) = (Inr (), s1)" "py_iter (fast_step ecall) n () s1 = Inr ((), s')"
    using Suc.prems(4) by (auto split: prod.splits sum.splits)
  have "on_stub (poll_interrupt k) d = (Inr (), d)" for k
    using Suc.prems(2) by (simp add: on_stub_def py_zoom_def poll_interrupt_def check_for_interrupt_def)
  then have "gdb_cycle ecall False False l d = (Inr (fst l + 1, snd l), d\<lparr>target := s1\<rparr>)"
    using f(3) s1(1) fetch_execute_plain [OF f(1,2), of ecall]
    by (auto simp: gdb_cycle_def on_target_def py_zoom_def py_then_def py_bind_def py_return_def tick_def poll_def Let_def
        split: prod.splits sum.splits)
  moreover have "gdb_loop ecall False False (fst l + 1, snd l) (d\<lparr>target := s1\<rparr>) =
      Some (Inl (DebugBreak 5), d\<lparr>target := s1, target := s'\<rparr>)"
  proof (rule Suc.IH)
    fix k t assume "k < n" "py_iter (fast_step ecall) k () (target (d\<lparr>target := s1\<rparr>)) = Inr ((), t)"
    then show "plain_word t (pc (cpu t)) \<and> safe_valid (ram t) (pc (cpu t)) 4 \<and> \<not> is_breakpoint (pc (cpu t)) (stub (d\<lparr>target := s1\<rparr>))"
      using Suc.prems(3) [of "Suc k" t] s1(1) by simp
  qed (use Suc.prems s1 in simp_all)
  ultimately show ?case using Suc.prems(1) by (subst gdb_loop.simps) simp
qed

text \<open>C17. On a machine without timer and peripherals that executes from checked memory: if it reaches a breakpoint after \<open>n\<close> instructions and none before, the packet \<open>c\<close> executes these
  \<open>n\<close> instructions, as the fast loop does, and stops in front of the breakpoint with signal 5, unless the
  debugger interrupts.\<close>

theorem gdb_continue_breakpoint:
  assumes "rx (stub d) = wire (GDBPacket_encode ''c'') # segs" "arrived (stub d) = []"
    "\<not> opt_timer (mach (host (target d)))" "\<not> opt_mmio (mach (host (target d)))"
    "\<And>k t. k < n \<Longrightarrow> py_iter (fast_step ecall) k () (target d) = Inr ((), t) \<Longrightarrow>
       plain_word t (pc (cpu t)) \<and> safe_valid (ram t) (pc (cpu t)) 4 \<and> \<not> is_breakpoint (pc (cpu t)) (stub d)"
    "py_iter (fast_step ecall) n () (target d) = Inr ((), s')" "is_breakpoint (pc (cpu s')) (stub d)"
  shows "gdb_command ecall exc_text d =
    Some (Inr True, d\<lparr>stub := (stub d)\<lparr>running := False, single_step := False, last_signal := SIGTRAP,
        rx := [] # segs, tx := tx (stub d) @ ''+'' @ GDBPacket_encode ''S05''\<rparr>, target := s'\<rparr>)"
proof -
  let ?d = "d\<lparr>stub := (stub d)\<lparr>rx := [] # segs, tx := tx (stub d) @ ''+'', running := True, single_step := False\<rparr>\<rparr>"
  have "gdb_loop ecall False False (0, 0) ?d = Some (Inl (DebugBreak 5), ?d\<lparr>target := s'\<rparr>)"
    by (rule gdb_loop_breakpoint [where n = n]) (use assms(2,5-7) in \<open>simp_all add: is_breakpoint_def\<close>)
  then have "run_with_gdb ecall (d\<lparr>stub := (stub d)\<lparr>rx := [] # segs, tx := tx (stub d) @ ''+'', running := True, single_step := (''c'' = ''s'')\<rparr>\<rparr>) =
      Some (Inl (DebugBreak 5), d\<lparr>stub := (stub d)\<lparr>rx := [] # segs, tx := tx (stub d) @ ''+'', running := True, single_step := (''c'' = ''s'')\<rparr>,
        target := s'\<rparr>)"
    using assms(3,4) by (simp add: run_with_gdb_def)
  from gdb_command_resume [OF assms(1) _ this, of exc_text] show ?thesis using stop_text_trap(2) by (simp add: SIGTRAP_def)
qed

definition nop_msys :: "unit msys" where
  "nop_msys = (demo_msys SafeRAM True ())\<lparr>ram := (demo_ram SafeRAM)\<lparr>memory := [0x13] @ replicate 19 0\<rparr>\<rparr>"

definition nop_dbg :: "string \<Rightarrow> int set \<Rightarrow> unit dbg" where
  "nop_dbg cmd bps = \<lparr>stub = (GDBStub_init [wire (GDBPacket_encode cmd)] [])\<lparr>sw_breakpoints := bps\<rparr>, target = nop_msys\<rparr>"

lemma nop_facts:
  "plain_word nop_msys (pc (cpu nop_msys))" "safe_valid (ram nop_msys) (pc (cpu nop_msys)) 4"
  "\<not> opt_timer (mach (host nop_msys))" "\<not> opt_mmio (mach (host nop_msys))" "pc (cpu nop_msys) = 0"
  by (simp_all add: nop_msys_def plain_word_def checked_def ram_wf_def safe_valid_def demo_msys_def demo_ram_def
    demo_sys_def demo_machine_def)

lemma nop_step:
  obtains s' where "fast_step None () nop_msys = (Inr (), s')" "pc (cpu s') = 4"
proof -
  have "case fast_step None () nop_msys of (r, s') \<Rightarrow> r = Inr () \<and> pc (cpu s') = 4" by code_simp
  then show thesis using that by (auto split: prod.splits)
qed

theorem gdb_step_one_witness:
  "\<exists>d'. gdb_command None (\<lambda>_. []) (nop_dbg ''s'' {}) = Some (Inr True, d') \<and> pc (cpu (target d')) = 4"
proof -
  obtain s' where s': "fast_step None () nop_msys = (Inr (), s')" "pc (cpu s') = 4" by (rule nop_step)
  show ?thesis
    using gdb_step_one [of "nop_dbg ''s'' {}" "[]" None "Inr ()" s' "\<lambda>_. []"] s' nop_facts
    by (auto simp: nop_dbg_def GDBStub_init_def)
qed

theorem gdb_continue_breakpoint_witness:
  "\<exists>d'. gdb_command None (\<lambda>_. []) (nop_dbg ''c'' {4}) = Some (Inr True, d') \<and> pc (cpu (target d')) = 4"
proof -
  obtain s' where s': "fast_step None () nop_msys = (Inr (), s')" "pc (cpu s') = 4" by (rule nop_step)
  show ?thesis
    using gdb_continue_breakpoint [of "nop_dbg ''c'' {4}" "[]" 1 None s' "\<lambda>_. []"] s' nop_facts
    by (auto simp: nop_dbg_def GDBStub_init_def is_breakpoint_def)
qed

text \<open>A negative register number indexes from the end: \<open>x0\<close> is written through \<open>-0x20\<close>, and a read below it raises.\<close>

lemma gdb_negative_register:
  "cmd_write_register ''-20=1'' c = (Inr ''OK'', c\<lparr>registers := (registers c)(0 := 1)\<rparr>)"
  "cmd_read_register ''-21'' c = (Inl IndexError, c)"
proof -
  have p: "py_split CHR ''='' ''-20=1'' = [''-20'', ''1'']" "py_int16 ''-20'' = Some (- 32)" "py_int16 ''1'' = Some 1"
    "py_int16 ''-21'' = Some (- 33)" "py_index 32 (- 32) = Some 0" "py_index 32 (- 33) = None"
    by code_simp+
  show "cmd_write_register ''-20=1'' c = (Inr ''OK'', c\<lparr>registers := (registers c)(0 := 1)\<rparr>)"
    by (simp add: cmd_write_register_def p int16_def gpr_index_def py_except_def py_bind_def py_then_def py_return_def
        set_reg_def py_modify_def)
  show "cmd_read_register ''-21'' c = (Inl IndexError, c)"
    by (simp add: cmd_read_register_def p int16_def gpr_index_def py_except_def py_bind_def py_raise_def py_return_def)
qed

end
