(* ===== verification/Gdb_Session.thy ===== *)
theory Gdb_Session
  imports Gdb_Props
begin

text \<open>
  A session of the debugger as a whole: the states between its commands, as an inductive relation, and
  the termination of the command loop.
\<close>

unbundle bit_operations_syntax

section \<open>Sessions\<close>

text \<open>The states of the stub and the machine between the commands of a session.\<close>

inductive session ::
  "('u msys, unit) py option \<Rightarrow> (string \<Rightarrow> string) \<Rightarrow> 'u dbg \<Rightarrow> 'u dbg \<Rightarrow> bool"
  for ecall exc_text d where
  session_start: "session ecall exc_text d d"
| session_next: "session ecall exc_text d d' \<Longrightarrow> gdb_command ecall exc_text d' = Some (Inr True, d'') \<Longrightarrow>
    session ecall exc_text d d''"

abbreviation pending :: "gdb_stub \<Rightarrow> nat" where
  "pending g \<equiv> length (concat (rx g))"

lemma recv_end: "recv (Suc n) segs = ([], rest) \<Longrightarrow> rest = []"
  by (induction "Suc n" segs arbitrary: n rule: recv.induct) auto

lemma recv_loop_result:
  "recv_loop buffer in_packet g = (Inr res, g') \<Longrightarrow>
    (case res of None \<Rightarrow> pending g' = 0 | Some cmd \<Rightarrow> pending g' < pending g)"
proof (induction buffer in_packet g rule: recv_loop.induct)
  case (1 buffer in_packet g)
  obtain bs rest where r: "recv 1 (rx g) = (bs, rest)" by (cases "recv 1 (rx g)")
  show ?case
  proof (cases bs)
    case Nil
    then show ?thesis using 1(6) r recv_end [of 0 "rx g" rest] by (subst (asm) recv_loop.simps) auto
  next
    case (Cons b bs')
    note r = r [unfolded Cons]
    have less: "length (concat rest) < pending g" using recv_shorter [of 0 "rx g"] r by simp
    obtain bs2 rest2 where r2: "recv 2 rest = (bs2, rest2)" by (cases "recv 2 rest")
    have less2: "length (concat rest2) < pending g" using recv_not_longer [OF r2] less by simp
    have eq: "recv 1 (rx g) = (b # bs', rest)" by (rule r)
    note ih = 1(1-5) [OF eq [symmetric] refl]
    show ?thesis
    proof (cases "decode_ascii [b]")
      case None
      then show ?thesis using 1(6) eq by (subst (asm) recv_loop.simps) simp
    next
      case (Some chars)
      note ih = ih [OF Some]
      have "recv_loop buffer in_packet g = (Inr res, g')" by (rule 1(6))
      then show ?thesis
        using less less2 ih [simplified] r2
        by (subst (asm) recv_loop.simps, auto simp: eq [simplified] Some split: option.splits if_splits)
          (use less_trans in blast)
    qed
  qed
qed

lemma keeps_on_target: "(\<And>d s. P (d\<lparr>target := s\<rparr>) = P d) \<Longrightarrow> py_keeps P (on_target m)"
  by (auto simp: py_keeps_def on_target_def py_zoom_def split: prod.splits)

lemma keeps_on_stub: "py_keeps P m \<Longrightarrow> py_keeps (\<lambda>d. P (stub d)) (on_stub m)"
  by (auto simp: py_keeps_def on_stub_def py_zoom_def split: prod.splits)

abbreviation below :: "nat \<Rightarrow> gdb_stub \<Rightarrow> bool" where
  "below n g \<equiv> pending g \<le> n"

lemma keeps_target: "py_keeps (\<lambda>d. P (stub d)) (on_target m)"
  by (rule keeps_on_target) simp

lemma keeps_stub_modify: "(\<And>g. rx (f g) = rx g) \<Longrightarrow> py_keeps (below n) (py_modify f)"
  by (simp add: py_keeps_def py_modify_def)

lemma keeps_stub_commands:
  "py_keeps (below n) (cmd_insert_breakpoint p)" "py_keeps (below n) (cmd_remove_breakpoint p)"
  "py_keeps (below n) (stop_reply sig)" "py_keeps (below n) (send_packet t)"
  by (simp_all add: py_keeps_def cmd_insert_breakpoint_def cmd_remove_breakpoint_def stop_reply_def send_packet_def Let_def
    split: option.splits)

lemma keeps_stopped: "py_keeps (below n) (stopped sig)"
  unfolding stopped_def by (intro py_keeps_intros keeps_stub_modify keeps_stub_commands) simp

lemma keeps_report: "py_keeps (below n) (report_stop r)"
  unfolding report_stop_def
  by (auto split: sum.split exn.split option.split intro!: py_keeps_intros keeps_stub_modify keeps_stopped)

lemma keeps_resume: "py_keeps (\<lambda>d. below n (stub d)) (resume b a)"
  unfolding resume_def Let_def
  by (auto split: option.split intro!: py_keeps_intros keeps_target keeps_on_stub keeps_stub_modify)

lemma keeps_handle_command: "py_keeps (\<lambda>d. below n (stub d)) (handle_command exc_text cmd)"
  unfolding handle_command_def Let_def cmd_continue_def cmd_step_def
  by (intro py_keeps_intros keeps_target keeps_resume keeps_on_stub keeps_stub_commands)

lemma keeps_poll_interrupt: "py_keeps (below n) (poll_interrupt k)"
proof -
  have "pending (snd (check_for_interrupt g)) \<le> pending g" for g
    using recv_not_longer [of 1 "rx g"]
    by (auto simp: check_for_interrupt_def Let_def split: list.splits prod.splits)
  then have "below n (snd (poll_interrupt k g))" if "below n g" for g
    using that by (auto simp: poll_interrupt_def split: prod.splits bool.splits)
      (metis le_trans snd_conv)+
  then show ?thesis by (simp add: py_keeps_def)
qed

lemma keeps_gdb_cycle: "py_keeps (\<lambda>d. below n (stub d)) (gdb_cycle ecall timer mmio l)"
proof -
  have "py_keeps (\<lambda>d. below n (stub d))
      (py_then (on_stub (poll_interrupt k))
        (py_then (on_target (fetch_execute ecall))
          (py_then (on_target (tick timer))
            (py_then (on_target advance_pc)
              (py_bind (on_target (poll mmio m)) (\<lambda>cyc. py_return (k, cyc)))))))" for k m
    by (intro py_keeps_intros keeps_target keeps_on_stub keeps_poll_interrupt)
  from py_keepsD [OF this] show ?thesis by (simp add: py_keeps_def gdb_cycle_def Let_def)
qed

lemma gdb_loop_below:
  fixes d :: "'u dbg"
  assumes "gdb_loop ecall timer mmio l d = Some (r, d')" "below n (stub d)"
  shows "below n (stub d')"
proof -
  let ?P = "\<lambda>ecall timer mmio l (d :: 'u dbg) res. below n (stub d) \<longrightarrow> below n (stub (snd res))"
  have "?P ecall timer mmio l d (r, d')"
  proof (rule gdb_loop.raw_induct [where P = ?P, OF _ assms(1)], intro impI)
    fix loop and ecall :: "('u msys, unit) py option" and timer mmio l and d :: "'u dbg" and res
    assume IH: "\<And>ecall timer mmio l d res. loop ecall timer mmio l d = Some res \<Longrightarrow> ?P ecall timer mmio l d res"
      and eq: "(if running (stub d) then
          (case gdb_cycle ecall timer mmio l d of
             (Inl e, d') \<Rightarrow> Some (Inl e, d')
           | (Inr l', d') \<Rightarrow> loop ecall timer mmio l' d')
        else Some (Inr (), d)) = Some res" and b: "below n (stub d)"
    show "below n (stub (snd res))"
      using eq b py_keepsD [OF keeps_gdb_cycle [of n ecall timer mmio l], of d] IH
      by (auto split: if_splits prod.splits sum.splits)
  qed
  with assms(2) show ?thesis by simp
qed

lemma run_with_gdb_below:
  assumes "run_with_gdb ecall d = Some (r, d')" "below n (stub d)"
  shows "below n (stub d')"
proof (cases "single_step (stub d)")
  case True
  then have "d' = snd (on_target (py_then (gdb_single ecall (opt_timer (mach (host (target d)))) (opt_mmio (mach (host (target d)))))
      (py_return ())) d)"
    using assms(1) by (auto simp: run_with_gdb_def Let_def dest: arg_cong [where f = snd])
  then show ?thesis using py_keepsD [OF keeps_target [of "below n"], of d] assms(2) by simp
next
  case False
  then show ?thesis using assms gdb_loop_below by (fastforce simp: run_with_gdb_def Let_def)
qed

lemma sent_below:
  assumes "on_stub (py_then m (py_return True)) d = (Inr b, d')" "py_keeps (below n) m" "below n (stub d)"
  shows "b \<and> below n (stub d')"
  using assms by (auto simp: on_stub_def py_zoom_def py_then_def py_bind_def py_return_def py_keeps_def
    split: prod.splits sum.splits)

lemma gdb_command_consumes:
  assumes "gdb_command ecall exc_text d = Some (Inr go_on, d')"
  shows "if go_on then pending (stub d') < pending (stub d) else pending (stub d') = 0"
proof -
  obtain out g1 where rp: "recv_packet (stub d) = (out, g1)" by (cases "recv_packet (stub d)")
  let ?d1 = "d\<lparr>stub := g1\<rparr>"
  have on: "on_stub recv_packet d = (out, ?d1)" using rp by (simp add: on_stub_def py_zoom_def)
  show ?thesis
  proof (cases out)
    case (Inl e)
    then show ?thesis using assms on by (simp add: gdb_command_def)
  next
    case (Inr res)
    note res = recv_loop_result [OF rp [unfolded recv_packet_def Inr]]
    show ?thesis
    proof (cases res)
      case None
      then show ?thesis using assms on Inr res by (auto simp: gdb_command_def)
    next
      case (Some cmd)
      have c: "pending g1 < pending (stub d)" using res Some by simp
      let ?n = "pending g1"
      obtain resp d2 where h: "handle_command exc_text cmd ?d1 = (resp, d2)" by (cases "handle_command exc_text cmd ?d1")
      have d2: "below ?n (stub d2)"
        using py_keepsD [OF keeps_handle_command [of ?n exc_text cmd], of ?d1] h by simp
      consider "on_stub (py_then (stopped SIGINT) (py_return True)) ?d1 = (Inr go_on, d')"
        | r d3 where "run_with_gdb ecall d2 = Some (r, d3)" "on_stub (py_then (report_stop r) (py_return True)) d3 = (Inr go_on, d')"
        | "go_on" "d' = d2"
        | data where "on_stub (py_then (send_packet data) (py_return True)) d2 = (Inr go_on, d')"
        using assms on Inr Some h
        by (auto simp: gdb_command_def split: if_splits sum.splits option.splits prod.splits)
      then have "go_on \<and> below ?n (stub d')"
      proof cases
        case 1
        then show ?thesis using sent_below [OF 1 keeps_stopped, of ?n] by simp
      next
        case (2 r d3)
        then show ?thesis using sent_below [OF 2(2) keeps_report run_with_gdb_below [OF 2(1) d2]] by simp
      next
        case (4 data)
        then show ?thesis using sent_below [OF 4 keeps_stub_commands(4) d2] by simp
      qed (use d2 in simp)
      then show ?thesis using c by auto
    qed
  qed
qed

text \<open>C26. A session ends: if every command of it returns (a command that resumes a machine that never stops does
  not), the command loop returns, since every command takes bytes from the connection. It ends by an
  exception or, the connection being closed, with all input consumed and the stub closed.\<close>

theorem gdb_session_ends:
  assumes "\<And>d'. session ecall exc_text d d' \<Longrightarrow> gdb_command ecall exc_text d' \<noteq> None"
  shows "\<exists>r d'. run_gdbstub ecall exc_text d = Some (r, d') \<and>
    (r = Inr () \<longrightarrow> \<not> connected (stub d') \<and> pending (stub d') = 0)"
  using assms
proof (induction "pending (stub d)" arbitrary: d rule: less_induct)
  case less
  obtain out d1 where c: "gdb_command ecall exc_text d = Some (out, d1)"
    using less.prems [OF session_start] by fastforce
  consider e where "out = Inl e" | "out = Inr True" | "out = Inr False" by (cases out) auto
  then show ?case
  proof cases
    case 1
    then show ?thesis using c by (subst run_gdbstub.simps) simp
  next
    case 3
    then show ?thesis
      using c gdb_command_consumes [of ecall exc_text d False d1] by (subst run_gdbstub.simps) (simp add: gdb_close_def)
  next
    case 2
    have "session ecall exc_text d d'" if "session ecall exc_text d1 d'" for d'
      using that by induction (use c 2 session_start session_next in blast)+
    then have "\<exists>r d'. run_gdbstub ecall exc_text d1 = Some (r, d') \<and> (r = Inr () \<longrightarrow> \<not> connected (stub d') \<and> pending (stub d') = 0)"
      using less.hyps [of d1] less.prems gdb_command_consumes [of ecall exc_text d True d1] c 2 by simp
    then show ?thesis using c 2 by (subst run_gdbstub.simps) simp
  qed
qed

lemma gdb_command_query:
  "\<exists>d'. gdb_command None exc_text (nop_dbg ''?'' {}) = Some (Inr True, d') \<and> rx (stub d') = [[]]"
proof -
  let ?g = "stub (nop_dbg ''?'' {})"
  have "recv_packet ?g = (Inr (Some ''?''), ?g\<lparr>rx := [[]], tx := tx ?g @ ''+''\<rparr>)"
    using recv_encoded [of "''?''" ?g "[]" "[]"] by (simp add: nop_dbg_def GDBStub_init_def)
  then show ?thesis
    by (simp add: gdb_command_def on_stub_def py_zoom_def handle_command_def py_lift_def py_bind_def py_then_def py_return_def
        cmd_halt_reason_def nop_dbg_def GDBStub_init_def SIGTRAP_def send_ascii fmt_hex_ascii)
qed

lemma gdb_command_closed: "rx (stub d) = [[]] \<Longrightarrow> \<exists>d'. gdb_command ecall exc_text d = Some (Inr False, d')"
  by (simp add: gdb_command_def on_stub_def py_zoom_def recv_packet_def recv_loop.simps [of "[]" False "stub d"])

lemma query_session:
  assumes "session None exc_text (nop_dbg ''?'' {}) d'"
  shows "gdb_command None exc_text d' \<noteq> None"
proof -
  have "d' = nop_dbg ''?'' {} \<or> rx (stub d') = [[]]"
    using assms
  proof induction
    case (session_next d' d'')
    then show ?case
      using gdb_command_query [of exc_text] gdb_command_closed [of d' None exc_text] by auto
  qed simp
  then show ?thesis using gdb_command_query [of exc_text] gdb_command_closed [of d' None exc_text] by auto
qed

theorem gdb_session_ends_witness:
  "\<exists>r d'. run_gdbstub None (\<lambda>_. []) (nop_dbg ''?'' {}) = Some (r, d')"
  using gdb_session_ends [of None "\<lambda>_. []" "nop_dbg ''?'' {}"] query_session by blast

section \<open>Malformed commands\<close>

text \<open>\<open>careful P m s\<close>: \<open>m\<close> raises only exceptions that satisfy \<open>P\<close>, and if it raises or returns an error code it has changed
  nothing.\<close>

definition careful :: "(exn \<Rightarrow> bool) \<Rightarrow> ('s, string) py \<Rightarrow> 's \<Rightarrow> bool" where
  "careful P m s \<longleftrightarrow> (case m s of (Inl e, s') \<Rightarrow> P e \<and> s' = s | (Inr r, s') \<Rightarrow> r \<in> {''E01'', ''E02''} \<longrightarrow> s' = s)"

named_theorems careful_intros \<open>commands that change nothing when they fail\<close>

lemma careful_raise [careful_intros]: "P e \<Longrightarrow> careful P (py_raise e) s"
  by (simp add: careful_def py_raise_def)

lemma careful_return [careful_intros]: "careful P (py_return r) s"
  by (simp add: careful_def py_return_def)

lemma careful_lift [careful_intros]: "careful P (py_lift (\<lambda>c. Inr (f c))) s"
  by (simp add: careful_def py_lift_def)

lemma careful_ok [careful_intros]: "r \<notin> {''E01'', ''E02''} \<Longrightarrow> careful P (py_then (py_modify f) (py_return r)) s"
  by (simp add: careful_def py_then_def py_bind_def py_modify_def py_return_def)

lemma careful_bind:
  assumes "\<And>e s'. m s = (Inl e, s') \<Longrightarrow> P e \<and> s' = s" "\<And>v s'. m s = (Inr v, s') \<Longrightarrow> s' = s \<and> careful P (f v) s"
  shows "careful P (py_bind m f) s"
  using assms by (auto simp: careful_def py_bind_def split: prod.splits sum.splits)

lemma careful_int16 [careful_intros]:
  "P ValueError \<Longrightarrow> (\<And>v. py_int16 str = Some v \<Longrightarrow> careful P (f v) s) \<Longrightarrow> careful P (py_bind (int16 str) f) s"
  by (rule careful_bind) (auto simp: int16_def py_raise_def py_return_def split: option.splits)

lemma careful_parse_le [careful_intros]:
  "P ValueError \<Longrightarrow> (\<And>v. careful P (f v) s) \<Longrightarrow> careful P (py_bind (parse_le str) f) s"
  by (rule careful_bind) (auto simp: parse_le_def int16_def py_bind_def py_raise_def py_return_def split: option.splits)

lemma careful_gpr [careful_intros]:
  "(n < - 32 \<or> 31 < n \<Longrightarrow> P IndexError) \<Longrightarrow> (\<And>v. careful P (f v) s) \<Longrightarrow> careful P (py_bind (gpr_index n) f) s"
  by (rule careful_bind) (auto simp: gpr_index_def py_index_def py_raise_def py_return_def Let_def split: option.splits if_splits)

lemma careful_except [careful_intros]:
  assumes "careful (\<lambda>e. P e \<or> Q e) m s" "careful Q h s"
  shows "careful Q (py_except P m h) s"
  using assms by (auto simp: careful_def py_except_def split: prod.splits sum.splits if_splits)

lemma careful_zoom [careful_intros]:
  "careful P m (cpu s) \<Longrightarrow> careful P (on_cpu m) s" "careful P n (stub d) \<Longrightarrow> careful P (on_stub n) d"
  "careful P k (target d) \<Longrightarrow> careful P (on_target k) d"
  by (auto simp: careful_def on_cpu_def on_stub_def on_target_def py_zoom_def split: prod.splits sum.splits)

lemma write_register_careful [careful_intros]: "careful Q (cmd_write_register params) c"
  unfolding cmd_write_register_def set_reg_def move_pc_def Let_def
  by (auto intro!: careful_intros split: list.split)

lemma read_register_careful [careful_intros]:
  assumes "\<And>n. py_int16 str = Some n \<Longrightarrow> n < - 32 \<Longrightarrow> Q IndexError"
  shows "careful Q (cmd_read_register str) c"
  unfolding cmd_read_register_def Let_def by (auto intro!: careful_intros assms)

lemma breakpoint_careful [careful_intros]:
  "careful Q (cmd_insert_breakpoint params) g" "careful Q (cmd_remove_breakpoint params) g"
  by (auto simp: careful_def cmd_insert_breakpoint_def cmd_remove_breakpoint_def split: option.splits)

lemma load_byte_state: "load_byte a sg s = (r, s') \<Longrightarrow> s' = s"
  by (auto simp: load_byte_def on_ram_def py_zoom_def ram_load_byte_def RAM_load_byte_def SafeRAM_defs SafeRAMOffset_defs
    mem_load_byte_def py_lift_def py_then_def py_bind_def Let_def split: ram_class.splits prod.splits sum.splits if_splits)

lemma read_hex_state: "read_hex a n s = (r, s') \<Longrightarrow> s' = s"
  by (induction n arbitrary: a r)
    (auto simp: py_return_def py_bind_def dest: load_byte_state split: prod.splits sum.splits)

lemma read_memory_careful [careful_intros]: "careful Q (cmd_read_memory params) s"
proof -
  have "careful (\<lambda>e. True \<or> Q e) (read_hex a n) s" for a n
    using read_hex_state [of a n s] by (auto simp: careful_def split: prod.splits sum.splits)
  then show ?thesis unfolding cmd_read_memory_def by (auto intro!: careful_intros split: list.split)
qed

lemma length_encode_hex: "even (length (encode_hex str))"
proof -
  have "0 \<le> (of_char c :: int) \<and> (of_char c :: int) < 256" for c
    using pos_mod_sign [of 256 "of_char c"] pos_mod_bound [of 256 "of_char c"] by simp
  then show ?thesis by (induction str) (simp_all add: encode_hex_def fmt_hex_byte)
qed

lemma monitor_careful [careful_intros]: "careful Q (cmd_monitor exc_text hex_cmd) c"
proof -
  have e: "encode_hex str \<notin> {''E01'', ''E02''}" for str using length_encode_hex [of str] by auto
  show ?thesis
    by (auto simp: careful_def cmd_monitor_def py_except_def py_bind_def py_return_def py_raise_def e [simplified] Let_def
      split: prod.splits sum.splits option.splits if_splits)
qed

text \<open>\<open>G\<close> and \<open>M\<close> store as they parse: they answer, but an error may come after a part of the values has been stored.\<close>

lemma write_gprs_raises: "write_gprs js hex_data c = (Inl e, c') \<Longrightarrow> e = ValueError"
  by (induction js arbitrary: c)
    (auto simp: parse_le_def int16_def py_bind_def py_then_def py_return_def py_raise_def set_reg_def py_modify_def
      split: option.splits if_splits prod.splits sum.splits)

lemma parse_le_raises: "parse_le str c = (Inl e, c') \<Longrightarrow> e = ValueError"
  by (auto simp: parse_le_def int16_def py_bind_def py_return_def py_raise_def split: option.splits)

lemma writes_answer:
  "\<exists>r c'. cmd_write_registers hex_data c = (Inr r, c')" "\<exists>r s'. cmd_write_memory params s = (Inr r, s')"
proof -
  show "\<exists>r c'. cmd_write_registers hex_data c = (Inr r, c')"
    by (auto simp: cmd_write_registers_def py_except_def py_bind_def py_then_def py_return_def move_pc_def py_modify_def
      dest: write_gprs_raises parse_le_raises split: prod.splits sum.splits)
  show "\<exists>r s'. cmd_write_memory params s = (Inr r, s')"
    unfolding cmd_write_memory_def py_except_def by (auto simp: py_return_def split: prod.splits sum.splits)
qed

definition answers :: "(exn \<Rightarrow> bool) \<Rightarrow> bool \<Rightarrow> ('u dbg, string option) py \<Rightarrow> 'u dbg \<Rightarrow> bool" where
  "answers P strict m d \<longleftrightarrow> (case m d of (Inl e, d') \<Rightarrow> d' = d \<and> P e
     | (Inr r, d') \<Rightarrow> r \<in> {Some ''E01'', Some ''E02''} \<and> strict \<longrightarrow> d' = d)"

lemma answers_if: "(b \<Longrightarrow> answers P q m d) \<Longrightarrow> (\<not> b \<Longrightarrow> answers P q n d) \<Longrightarrow> answers P q (if b then m else n) d"
  by simp

lemma answers_reply: "careful P m d \<Longrightarrow> answers P q (py_bind m (\<lambda>r. py_return (Some r))) d"
  by (auto simp: careful_def answers_def py_bind_def py_return_def split: prod.splits sum.splits)

lemma answers_partial: "\<exists>r d'. m d = (Inr r, d') \<Longrightarrow> \<not> q \<Longrightarrow> answers P q (py_bind m (\<lambda>r. py_return (Some r))) d"
  by (auto simp: answers_def py_bind_def py_return_def)

lemma answers_return: "answers P q (py_return r) d" "P e \<Longrightarrow> answers P q (py_raise e) d"
  by (simp_all add: answers_def py_return_def py_raise_def)

lemma answers_resume: "answers P q (cmd_continue a) d" "answers P q (cmd_step a) d"
  by (auto simp: answers_def cmd_continue_def cmd_step_def resume_def py_then_def py_bind_def py_return_def on_stub_def on_target_def
    on_cpu_def py_zoom_def py_modify_def move_pc_def Let_def split: option.splits prod.splits sum.splits)

lemma partial_writes:
  "\<exists>r d'. on_target (on_cpu (cmd_write_registers hex_data)) d = (Inr r, d')" "\<exists>r d'. on_target (cmd_write_memory params) d = (Inr r, d')"
  using writes_answer(1) [of hex_data "cpu (target d)"] writes_answer(2) [of params "target d"]
  by (auto simp: on_target_def on_cpu_def py_zoom_def)

lemma startswith_hd: "py_startswith cmd [c] \<Longrightarrow> hd cmd = c" "py_startswith cmd [c] \<Longrightarrow> cmd = c # drop 1 cmd"
  by (cases cmd; simp add: py_startswith_def)+

text \<open>C25. The command dispatcher \<open>handle_command\<close> answers every command string: it raises only for \<open>k\<close>, which ends the
  execution, and for a \<open>p\<close> with a register number below -32, whose \<open>IndexError\<close> is not caught, and then it has changed nothing. Every command that it
  refuses with the error code \<open>E01\<close> or \<open>E02\<close>, \<open>G\<close> and \<open>M\<close> apart, leaves the stub and the machine as they are. (The reception of a command, the sending of its
  reply and the execution of the guest after \<open>c\<close> and \<open>s\<close> are not part of the dispatcher.)\<close>

theorem handle_command_errors:
  "case handle_command exc_text cmd d of
     (Inl e, d') \<Rightarrow> d' = d \<and> (cmd = ''k'' \<and> e = ExecutionTerminated KilledByGdb \<or>
       (\<exists>str n. cmd = CHR ''p'' # str \<and> py_int16 str = Some n \<and> n < - 32 \<and> e = IndexError))
   | (Inr r, d') \<Rightarrow> r \<in> {Some ''E01'', Some ''E02''} \<and> hd cmd \<notin> {CHR ''G'', CHR ''M''} \<longrightarrow> d' = d"
proof -
  let ?P = "\<lambda>e. cmd = ''k'' \<and> e = ExecutionTerminated KilledByGdb \<or>
    (\<exists>str n. cmd = CHR ''p'' # str \<and> py_int16 str = Some n \<and> n < - 32 \<and> e = IndexError)"
  have p: "?P IndexError" if "py_startswith cmd ''p''" "py_int16 (drop 1 cmd) = Some n" "n < - 32" for n
    using that startswith_hd(2) [of cmd "CHR ''p''"] by metis
  have "answers ?P (hd cmd \<notin> {CHR ''G'', CHR ''M''}) (handle_command exc_text cmd) d"
    unfolding handle_command_def Let_def
    by (intro answers_if answers_reply answers_partial [OF partial_writes(1)] answers_partial [OF partial_writes(2)] answers_return
      answers_resume careful_intros) (use p startswith_hd(1) in \<open>auto\<close>)
  then show ?thesis by (simp only: answers_def)
qed

theorem handle_command_errors_witness:
  "handle_command (\<lambda>_. []) ''P1=xyz'' (nop_dbg ''s'' {}) = (Inr (Some ''E01''), nop_dbg ''s'' {})"
proof -
  have "fst (handle_command (\<lambda>_. []) ''P1=xyz'' (nop_dbg ''s'' {})) = Inr (Some ''E01'')" by code_simp
  then show ?thesis
    using handle_command_errors [where exc_text = "\<lambda>_. []" and cmd = "''P1=xyz''" and d = "nop_dbg ''s'' {}"] by (auto split: prod.splits)
qed

end
