(* ===== verification/Emulator.thy ===== *)
theory Emulator
  imports Syscalls_Props Gdb_Session
begin

text \<open>
  The command \<open>riscv-emu.py\<close>: construction of the system from the options, loading of the program, the run
  and the exit status of the process.

  \<open>cli_args\<close> is the namespace that \<open>parse_args\<close> returns; \<open>program_args\<close> is the part of \<open>parse_args\<close> that splits
  the command line at \<open>--\<close>. What the process takes from the host is the record \<open>host_env\<close>: random bytes and
  words, the files, the image of the block device if it exists, the room of the pseudo-terminal, the
  standard descriptors, the operating system and what arrives on the socket of the debugger. The
  terminal, the log and the interrupt of the user are in theory \<open>Console\<close>.
\<close>

unbundle bit_operations_syntax

section \<open>Options\<close>

datatype timer_kind = Csr | Mmio

record cli_args =
  executable :: string
  a_regs :: "string option"
  a_trace :: bool
  a_traps :: bool
  a_check_inv :: bool
  a_check_ram :: bool
  a_check_text :: bool
  a_check_all :: bool
  a_start_checks :: string
  a_init_regs :: string
  a_init_ram :: string
  a_ram_size :: int
  a_rvc :: bool
  a_timer :: "timer_kind option"
  a_uart :: bool
  a_blkdev :: "string option"
  a_blkdev_size :: int
  a_raw_tty :: bool
  a_gdb :: bool
  a_program_args :: "py_str list"

definition default_args :: "string \<Rightarrow> cli_args" where
  "default_args path =
     \<lparr>executable = path, a_regs = None, a_trace = False, a_traps = False, a_check_inv = False, a_check_ram = False,
      a_check_text = False, a_check_all = False, a_start_checks = ''auto'', a_init_regs = ''zero'', a_init_ram = ''zero'',
      a_ram_size = 1024, a_rvc = False, a_timer = None, a_uart = False, a_blkdev = None, a_blkdev_size = 1024,
      a_raw_tty = False, a_gdb = False, a_program_args = []\<rparr>"

definition emulator_args :: "string list \<Rightarrow> string list" where
  "emulator_args argv = drop 1 (takeWhile (\<lambda>a. a \<noteq> ''--'') argv)"

definition program_args :: "string list \<Rightarrow> string \<Rightarrow> py_str list" where
  "program_args argv path = map (map of_char) (basename path # drop 1 (dropWhile (\<lambda>a. a \<noteq> ''--'') argv))"

definition apply_check_all :: "cli_args \<Rightarrow> cli_args" where
  "apply_check_all args =
     (if a_check_all args then args\<lparr>a_check_inv := True, a_check_ram := True, a_check_text := True\<rparr> else args)"

definition has_blkdev :: "cli_args \<Rightarrow> bool" where
  "has_blkdev args = (case a_blkdev args of None \<Rightarrow> False | Some path \<Rightarrow> path \<noteq> [])"

definition use_mmio :: "cli_args \<Rightarrow> bool" where
  "use_mmio args \<longleftrightarrow> a_uart args \<or> has_blkdev args \<or> a_timer args = Some Mmio"

section \<open>Construction\<close>

record 'o host_env =
  rnd_byte :: "nat \<Rightarrow> 8 word"
  rnd_word :: "int \<Rightarrow> 32 word"
  files :: file_system
  disk :: "8 word list option"
  tty_room :: nat
  std_fds :: "int \<times> int \<times> int"
  os_calls :: "'o os"
  os_initial :: 'o
  gdb_bind :: "exn option"                     \<comment> \<open>what \<open>bind\<close> and \<open>listen\<close> raise\<close>
  gdb_input :: "8 word list list"
  gdb_polls :: "bool list"
  exception_text :: "string \<Rightarrow> string"

definition select_ram :: "bool \<Rightarrow> bool \<Rightarrow> ram_class" where
  "select_ram mmio check_ram =
     (if \<not> mmio \<and> \<not> check_ram then RAM
      else if mmio \<and> \<not> check_ram then RAM_MMIO
      else if \<not> mmio \<and> check_ram then SafeRAM
      else SafeRAM_MMIO)"

definition attach :: "device \<Rightarrow> 'h sys \<Rightarrow> 'h sys" where
  "attach d s =
     (let i = length (devices s)
      in machine_register_peripheral i (ram_register_peripheral i (s\<lparr>devices := devices s @ [d]\<rparr>)))"

definition attach_peripherals :: "'o host_env \<Rightarrow> cli_args \<Rightarrow> 'h sys \<Rightarrow> 'h sys" where
  "attach_peripherals h args s =
     (let s = (if a_uart args then attach (Uart (PtyUART_init 0x10000000 (tty_room h))) s else s);
          s = (if has_blkdev args then attach (BlockDev (MMIOBlockDevice_init 0x10010000 (disk h) 512 (a_blkdev_size args))) s else s)
      in if a_timer args = Some Mmio then attach (Timer MMIOTimer_init) s else s)"

definition setup_system :: "'o host_env \<Rightarrow> cli_args \<Rightarrow> exn + 'o sc_state msys" where
  "setup_system h args =
     (case RAM_init (rnd_byte h) (select_ram (use_mmio args) (a_check_ram args)) 0 (1024 * a_ram_size args)
             (Some (a_init_ram args)) 4 of
        Inl e \<Rightarrow> Inl e
      | Inr R \<Rightarrow>
          (case CPU_init (rnd_word h) (a_rvc args) (Some (a_init_regs args)) True (a_traps args) of
             Inl e \<Rightarrow> Inl e
           | Inr c \<Rightarrow>
               (case Machine_init (a_timer args \<noteq> None) (use_mmio args) (a_rvc args) True (a_trace args) (a_regs args)
                       (a_check_inv args) (Some (a_start_checks args)) of
                  Inl e \<Rightarrow> Inl e
                | Inr m \<Rightarrow>
                    (case std_fds h of
                       (stdin, stdout, stderr) \<Rightarrow>
                         Inr (attach_peripherals h args
                           \<lparr>cpu = c, ram = R, devices = [], mmio_ranges = [], runners = [],
                            host = \<lparr>mach = m,
                                    handler = SyscallHandler_init stdin stdout stderr True (a_raw_tty args) (os_initial h)\<rparr>\<rparr>)))))"

section \<open>Loading\<close>

text \<open>The value says whether the file format is supported.\<close>

definition load_program :: "file_system \<Rightarrow> cli_args \<Rightarrow> ('u msys, bool) py" where
  "load_program fs args =
     (if py_endswith (executable args) ''.bin'' then
        (case read_bin fs (executable args) of
           Inl e \<Rightarrow> py_raise e
         | Inr binary \<Rightarrow> py_then (load_flatbinary binary) (py_return True))
      else if py_endswith (executable args) ''.elf'' then
        (case read_elf fs (executable args) of
           Inl e \<Rightarrow> py_raise e
         | Inr elf \<Rightarrow>
             py_then (load_elf elf (a_trace args) (a_check_text args))
               (\<lambda>s. py_then (if heap_end (mach (host s)) \<noteq> None \<and> a_program_args args \<noteq> []
                             then setup_argv (a_program_args args) else py_return ())
                      (py_return True) s))
      else py_return False)"

section \<open>The process\<close>

text \<open>
  The end of the process: an exit status and the exception that was logged, if any, or an exception that
  leaves the interpreter with a traceback.
\<close>

datatype outcome = Exited int "exn option" | Uncaught exn

definition is_machine_error :: "exn \<Rightarrow> bool" where
  "is_machine_error e =
     (case e of
        MachineError _ \<Rightarrow> True | SetupError _ \<Rightarrow> True | InvariantViolationError _ \<Rightarrow> True | ExecutionTerminated _ \<Rightarrow> True
      | DebugBreak _ \<Rightarrow> True | MemoryAccessError _ \<Rightarrow> True | InvalidSyscallError \<Rightarrow> True | _ \<Rightarrow> False)"

definition setup_failure :: "exn \<Rightarrow> outcome" where
  "setup_failure e = (if is_machine_error e then Exited 1 (Some e) else Uncaught e)"

definition run_outcome :: "exn \<Rightarrow> outcome" where
  "run_outcome e =
     (if is_machine_error e
      then (case e of ExecutionTerminated _ \<Rightarrow> Exited 0 (Some e) | _ \<Rightarrow> Exited 1 (Some e))
      else Uncaught e)"

text \<open>How the run ends: by returning, which only the debugger does, with an exception or by the user's interrupt.\<close>

datatype run_end = Returned | Raised exn | Interrupted

definition guest_end :: "'o host_env \<Rightarrow> cli_args \<Rightarrow> 'o sc_state msys \<Rightarrow> (run_end \<times> 'o sc_state msys) option" where
  "guest_end h args s =
     (let ecall = Some (handle (os_calls h))
      in if \<not> a_gdb args then map_option (\<lambda>(e, s'). (Raised e, s')) (run ecall s)
         else (case listen (gdb_bind h) (GDBStub_init (gdb_input h) (gdb_polls h)) of
                 (Inl e, g) \<Rightarrow> Some (Raised e, s)
               | (Inr _, g) \<Rightarrow>
                   map_option (\<lambda>(r, d). (case r of Inl e \<Rightarrow> Raised e | Inr _ \<Rightarrow> Returned, target d))
                     (run_gdbstub ecall (exception_text h) \<lparr>stub = g, target = s\<rparr>)))"

definition end_outcome :: "run_end \<Rightarrow> outcome" where
  "end_outcome r = (case r of Raised e \<Rightarrow> run_outcome e | _ \<Rightarrow> Exited 0 None)"

definition run_guest :: "'o host_env \<Rightarrow> cli_args \<Rightarrow> 'o sc_state msys \<Rightarrow> (outcome \<times> 'o sc_state msys) option" where
  "run_guest h args s = map_option (\<lambda>(r, s'). (end_outcome r, s')) (guest_end h args s)"

text \<open>\<open>None\<close> is a process that does not end; the system is missing if its construction failed.\<close>

definition emulator :: "'o host_env \<Rightarrow> cli_args \<Rightarrow> (outcome \<times> 'o sc_state msys option) option" where
  "emulator h args0 =
     (let args = apply_check_all args0
      in case setup_system h args of
           Inl e \<Rightarrow> Some (Uncaught e, None)
         | Inr s \<Rightarrow>
             (case load_program (files h) args s of
                (Inl e, s') \<Rightarrow> Some (setup_failure e, Some s')
              | (Inr supported, s') \<Rightarrow>
                  if supported then map_option (\<lambda>(out, s''). (out, Some s'')) (run_guest h args s')
                  else Some (Exited 1 None, Some s')))"

section \<open>The invariant from the command line to the end of the process\<close>

lemma sys_inv_attach: "sys_inv r md s \<Longrightarrow> device_inv d \<Longrightarrow> sys_inv r md (attach d s)"
  by (auto simp: sys_inv_def attach_def machine_register_peripheral_def ram_register_peripheral_def Let_def less_Suc_eq)

lemma attach_same [simp]: "cpu (attach d s) = cpu s" "ram (attach d s) = ram s" "host (attach d s) = host s"
  by (simp_all add: attach_def machine_register_peripheral_def ram_register_peripheral_def Let_def)

lemma attach_peripherals_host [simp]: "host (attach_peripherals h args s) = host s"
  by (simp add: attach_peripherals_def Let_def)

lemma sys_inv_peripherals: "sys_inv r md s \<Longrightarrow> sys_inv r md (attach_peripherals h args s)"
  by (auto simp: attach_peripherals_def Let_def device_inv_def MMIOBlockDevice_init_def MMIOTimer_init_def fits_def
    intro!: sys_inv_attach)

lemma setup_inv:
  assumes "setup_system h args = Inr s" "0 \<le> a_ram_size args"
  shows "sys_inv False (a_rvc args) s" and "opt_rvc (mach (host s)) = a_rvc args"
    and "opt_check_inv (mach (host s)) = a_check_inv args" and "opt_timer (mach (host s)) = (a_timer args \<noteq> None)"
    and "opt_mmio (mach (host s)) = use_mmio args"
proof -
  obtain R c m fds where *: "RAM_init (rnd_byte h) (select_ram (use_mmio args) (a_check_ram args)) 0 (1024 * a_ram_size args)
             (Some (a_init_ram args)) 4 = Inr R"
      "CPU_init (rnd_word h) (a_rvc args) (Some (a_init_regs args)) True (a_traps args) = Inr c"
      "Machine_init (a_timer args \<noteq> None) (use_mmio args) (a_rvc args) True (a_trace args) (a_regs args)
                       (a_check_inv args) (Some (a_start_checks args)) = Inr m"
      "s = attach_peripherals h args \<lparr>cpu = c, ram = R, devices = [], mmio_ranges = [], runners = [], host = \<lparr>mach = m, handler = fds\<rparr>\<rparr>"
    using assms(1) by (auto simp: setup_system_def split: sum.splits prod.splits)
  have "ram_wf R" using RAM_init_wf [OF *(1)] assms(2) by simp
  moreover have "cpu_inv False (a_rvc args) c" using cpu_init_invariant [OF *(2)] by (simp add: cpu_inv_relax)
  ultimately show "sys_inv False (a_rvc args) s"
    unfolding *(4) by (intro sys_inv_peripherals) (simp add: sys_inv_def)
  show "opt_rvc (mach (host s)) = a_rvc args" "opt_check_inv (mach (host s)) = a_check_inv args"
      "opt_timer (mach (host s)) = (a_timer args \<noteq> None)" "opt_mmio (mach (host s)) = use_mmio args"
    using *(3) by (auto simp: *(4) Machine_init_def Let_def split: if_splits)
qed

lemma guest_load_program:
  assumes "\<And>elf. read_elf fs (executable args) = Inr elf \<Longrightarrow> e_entry elf AND (if md then 1 else 3) = 0"
  shows "py_keeps (guest_ok md os) (load_program fs args)"
proof -
  have elf: "py_keeps (guest_ok md os) (py_then (load_elf elf b c) (\<lambda>s. py_then (if P s then setup_argv a else py_return ()) (py_return True) s))"
    if "read_elf fs (executable args) = Inr elf" for elf b c a P
    by (intro py_keeps_then guest_loaders assms that py_keepsI)
      (auto intro!: guest_after guest_setup_argv py_keeps_return)
  show ?thesis
    unfolding load_program_def
    by (intro py_keeps_if, cases "read_bin fs (executable args)"; cases "read_elf fs (executable args)")
      (simp_all add: elf py_keeps_raise py_keeps_return py_keeps_then guest_loaders)
qed


text \<open>A guest of one instruction, \<open>ecall\<close>, with every register at the number of \<open>_exit\<close>.\<close>

definition demo_env :: "unit host_env" where
  "demo_env =
     \<lparr>rnd_byte = \<lambda>_. 0, rnd_word = \<lambda>_. 0, files = \<lparr>read_elf = \<lambda>_. Inl ValueError, read_bin = \<lambda>_. Inr [0x73, 0, 0, 0]\<rparr>,
      disk = None, tty_room = 0, std_fds = (0, 1, 2), os_calls = demo_os, os_initial = (), gdb_bind = None, gdb_input = [], gdb_polls = [],
      exception_text = \<lambda>_. []\<rparr>"

definition demo_args :: cli_args where
  "demo_args = (default_args ''exit.bin'')\<lparr>a_ram_size := 0, a_init_regs := ''0x5D''\<rparr>"


end
