(* ===== verification/Isa_Boot.thy ===== *)
theory Isa_Boot
  imports Isa_Prog Emulator
begin

text \<open>
  From the command line to the reference interpreter: the program that a flat image or an ELF file and its arguments are, the
  proof that the loaders of the emulator put it in place, and the process as a whole.
\<close>

unbundle bit_operations_syntax

section \<open>Programs in memory\<close>

definition zeroed :: "int \<Rightarrow> int \<rightharpoonup> 8 word" where
  "zeroed n x = (if 0 \<le> x \<and> x < n then Some 0 else None)"

definition flat_prog :: "int \<Rightarrow> 8 word list \<Rightarrow> prog" where
  "flat_prog n binary =
     (\<lparr>xreg = \<lambda>_. 0, apc = 0, amem = mem_write 0 binary (zeroed n)\<rparr>, \<lparr>out = [], brk = None, stack_limit = None\<rparr>)"

text \<open>The last symbol of a name.\<close>

definition symbol_value :: "string \<Rightarrow> elf_symbol list \<Rightarrow> int option" where
  "symbol_value name syms = map_option st_value (find (\<lambda>x. sym_name x = name) (rev syms))"

definition elf_symbols :: "elf_file \<Rightarrow> elf_symbol list" where
  "elf_symbols elf = (case symtab elf of None \<Rightarrow> [] | Some syms \<Rightarrow> syms)"

definition elf_prog :: "int \<Rightarrow> elf_file \<Rightarrow> prog" where
  "elf_prog n elf =
     (\<lparr>xreg = \<lambda>_. 0, apc = word_of_int (e_entry elf), amem = fold (\<lambda>(a, bs). mem_write a bs) (loaded elf) (zeroed n)\<rparr>,
      \<lparr>out = [], brk = symbol_value ''__heap_start'' (elf_symbols elf), stack_limit = symbol_value ''__stack_bottom'' (elf_symbols elf)\<rparr>)"

text \<open>The argument vector: the strings from \<open>h\<close> on, at multiples of 4, then the table of their addresses.\<close>

fun put_args :: "int \<Rightarrow> py_str list \<Rightarrow> (int \<rightharpoonup> 8 word) \<Rightarrow> int list \<times> int \<times> (int \<rightharpoonup> 8 word)" where
  "put_args h [] m = ([], h, m)"
| "put_args h (arg # args) m =
     (case put_args ((h + (int (length arg) + 1) + 3) AND NOT 3) args (mem_write h (cstr arg) m) of
        (ptrs, t, m') \<Rightarrow> (h # ptrs, t, m'))"

fun put_table :: "int \<Rightarrow> int list \<Rightarrow> (int \<rightharpoonup> 8 word) \<Rightarrow> (int \<rightharpoonup> 8 word)" where
  "put_table t [] m = m"
| "put_table t (ptr # ptrs) m = put_table (t + 4) ptrs (mem_write t (word_bytes ptr) m)"

definition with_args :: "py_str list \<Rightarrow> prog \<Rightarrow> prog" where
  "with_args args g =
     (case g of (a, v) \<Rightarrow>
        case brk v of
          None \<Rightarrow> g
        | Some h \<Rightarrow>
            if args = [] then g
            else (case put_args h args (amem a) of
                    (ptrs, t, m) \<Rightarrow>
                      (a\<lparr>xreg := (xreg a)(10 := word_of_nat (length args), 11 := word_of_int t), amem := put_table t (ptrs @ [0]) m\<rparr>,
                       v\<lparr>brk := Some ((t + 4 * (int (length args) + 1) + 7) AND NOT 7)\<rparr>)))"

text \<open>What fits a memory of \<open>n\<close> bytes.\<close>

definition elf_fits :: "int \<Rightarrow> elf_file \<Rightarrow> py_str list \<Rightarrow> bool" where
  "elf_fits n elf args \<longleftrightarrow> n \<le> 2 ^ 32 \<and> fits 32 (e_entry elf) \<and> e_entry elf AND 1 = 0 \<and>
     list_all (\<lambda>(a, bs). 0 \<le> a \<and> a + int (length bs) \<le> n) (loaded elf) \<and>
     (case symbol_value ''__heap_start'' (elf_symbols elf) of
        None \<Rightarrow> True
      | Some h \<Rightarrow> args = [] \<or> 0 \<le> h \<and> h + argv_room args + 4 * (int (length args) + 1) \<le> n \<and>
          list_all (list_all (\<lambda>c. c < 0x80)) args)"

text \<open>The program that the command line names.\<close>

definition start_prog :: "file_system \<Rightarrow> cli_args \<Rightarrow> prog option" where
  "start_prog fs args =
     (let n = 1024 * a_ram_size args in
      if py_endswith (executable args) ''.bin'' then
        (case read_bin fs (executable args) of
           Inl _ \<Rightarrow> None
         | Inr binary \<Rightarrow>
             if int (length binary) \<le> n \<and> a_start_checks args \<noteq> ''main'' then Some (flat_prog n binary) else None)
      else if py_endswith (executable args) ''.elf'' then
        (case read_elf fs (executable args) of
           Inl _ \<Rightarrow> None
         | Inr elf \<Rightarrow>
             if elf_fits n elf (a_program_args args) then Some (with_args (a_program_args args) (elf_prog n elf)) else None)
      else None)"

section \<open>Loading\<close>

text \<open>\<open>filled s m b t\<close>: \<open>t\<close> is \<open>s\<close> with the memory \<open>m\<close> and the break \<open>b\<close>.\<close>

definition filled :: "'u msys \<Rightarrow> (int \<rightharpoonup> 8 word) \<Rightarrow> int option \<Rightarrow> 'u msys \<Rightarrow> bool" where
  "filled s m b t \<longleftrightarrow>
     (\<exists>R. t = s\<lparr>ram := R, host := (host s)\<lparr>mach := (mach (host s))\<lparr>heap_end := b\<rparr>\<rparr>\<rparr> \<and>
          ram_wf R \<and> ram_class R = ram_class (ram s) \<and> ram_size R = ram_size (ram s)) \<and> mem_of t = m"

lemma mem_of_host [simp]: "mem_of (s\<lparr>host := h\<rparr>) = mem_of s"
  by (simp add: mem_of_def fun_eq_iff)

lemma mem_write_Nil [simp]: "mem_write a [] m = m"
  by (auto simp: mem_write_def fun_eq_iff)

lemma filled_refl: "checked s \<Longrightarrow> filled s (mem_of s) (heap s) s"
  unfolding filled_def by (intro conjI exI [of _ "ram s"]) (simp_all add: checked_def)

lemma filled_trans: "filled s m b t \<Longrightarrow> filled t m' b' u \<Longrightarrow> filled s m' b' u"
  by (auto simp: filled_def)

lemma filled_same:
  assumes "filled s m b t" "checked s"
  shows "checked t" "ram_class (ram t) = ram_class (ram s)" "ram_size (ram t) = ram_size (ram s)" "heap t = b" "mem_of t = m" "cpu t = cpu s"
  using assms by (auto simp: filled_def checked_def)

lemma mem_of_cong: "ram s = ram t \<Longrightarrow> mem_of s = mem_of t"
  by (simp add: mem_of_def fun_eq_iff)

lemma filled_rebase:
  assumes "filled s m b u" "t = u\<lparr>cpu := c, host := (host u)\<lparr>mach := M\<rparr>\<rparr>" "filled t m' b' v"
  shows "\<exists>w. filled s m' b w \<and> v = w\<lparr>cpu := c, host := (host w)\<lparr>mach := M\<lparr>heap_end := b'\<rparr>\<rparr>\<rparr>"
proof -
  obtain Q where Q: "v = t\<lparr>ram := Q, host := (host t)\<lparr>mach := (mach (host t))\<lparr>heap_end := b'\<rparr>\<rparr>\<rparr>" "ram_wf Q" "ram_class Q = ram_class (ram t)"
      "ram_size Q = ram_size (ram t)" "mem_of v = m'"
    using assms(3) by (auto simp: filled_def)
  let ?w = "u\<lparr>ram := Q\<rparr>"
  have "mem_of ?w = m'" using Q(5) mem_of_cong [of ?w v] by (simp add: Q(1))
  then have "filled s m' b ?w" using assms(1,2) Q(2-4) unfolding filled_def by (intro conjI exI [of _ Q]) auto
  moreover have "v = ?w\<lparr>cpu := c, host := (host ?w)\<lparr>mach := M\<lparr>heap_end := b'\<rparr>\<rparr>\<rparr>" by (simp add: Q(1) assms(2))
  ultimately show ?thesis by blast
qed

lemma filled_put:
  assumes "checked s" "safe_valid (ram s) a (length bs)"
  shows "filled s (mem_write a bs (mem_of s)) b ((sput s a bs)\<lparr>host := (host s)\<lparr>mach := (mach (host s))\<lparr>heap_end := b\<rparr>\<rparr>\<rparr>)"
    and "filled s (mem_write a bs (mem_of s)) (heap s) (sput s a bs)"
proof -
  have *: "filled s (mem_write a bs (mem_of s)) b ((sput s a bs)\<lparr>host := (host s)\<lparr>mach := (mach (host s))\<lparr>heap_end := b\<rparr>\<rparr>\<rparr>)" for b
    unfolding filled_def
    using checked_sput [OF assms] mem_of_sput [OF assms]
    by (intro conjI exI [of _ "ram_put (ram s) a bs"]) (simp_all add: sput_def checked_def ram_put_def)
  show "filled s (mem_write a bs (mem_of s)) b ((sput s a bs)\<lparr>host := (host s)\<lparr>mach := (mach (host s))\<lparr>heap_end := b\<rparr>\<rparr>\<rparr>)" by (rule *)
  show "filled s (mem_write a bs (mem_of s)) (heap s) (sput s a bs)" using * [of "heap s"] by (simp add: sput_def)
qed

lemma load_segments_filled:
  assumes "checked s" "list_all (\<lambda>(a, bs). 0 \<le> a \<and> a + int (length bs) \<le> ram_size (ram s)) (map snd (filter fst segs))"
  shows "\<exists>t. load_segments segs s = (Inr (), t) \<and>
    filled s (fold (\<lambda>(a, bs). mem_write a bs) (map snd (filter fst segs)) (mem_of s)) (heap s) t"
  using assms
proof (induction segs arbitrary: s)
  case Nil
  then show ?case using filled_refl by (auto simp: py_return_def)
next
  case (Cons seg segs)
  obtain l a bs where seg: "seg = (l, a, bs)" by (cases seg) auto
  show ?case
  proof (cases l)
    case True
    then have v: "safe_valid (ram s) a (length bs)" using Cons.prems(2) seg by (simp add: safe_valid_def)
    note f = filled_put(2) [OF Cons.prems(1) v]
    note g = filled_same [OF f Cons.prems(1)]
    obtain t where "load_segments segs (sput s a bs) = (Inr (), t)"
        "filled (sput s a bs) (fold (\<lambda>(a, bs). mem_write a bs) (map snd (filter fst segs)) (mem_of (sput s a bs))) (heap (sput s a bs)) t"
      using Cons.IH [OF g(1)] Cons.prems(2) seg True g(3) by auto
    then show ?thesis
      using True store_binary_plain [OF Cons.prems(1) v] filled_trans [OF f] g(4,5) by (simp add: seg py_then_def py_bind_def)
  qed (use Cons seg in simp)
qed

lemma argv_strings_filled:
  assumes "checked s" "heap s = Some h" "0 \<le> h" "h + argv_room args \<le> ram_size (ram s)" "list_all (list_all (\<lambda>c. c < 0x80)) args"
    "put_args h args (mem_of s) = (ptrs, e, m)"
  shows "\<exists>t. argv_strings args s = (Inr ptrs, t) \<and> filled s m (Some e) t \<and> h \<le> e \<and> e \<le> h + argv_room args \<and> length ptrs = length args"
  using assms
proof (induction args arbitrary: s h ptrs)
  case Nil
  then show ?case using filled_refl [of s] by (simp add: py_return_def)
next
  case (Cons arg args)
  define h1 where "h1 = (h + (int (length arg) + 1) + 3) AND NOT 3"
  let ?s = "(sput s h (cstr arg))\<lparr>host := (host s)\<lparr>mach := (mach (host s))\<lparr>heap_end := Some h1\<rparr>\<rparr>\<rparr>"
  have r: "h + int (length arg) + 1 \<le> h1" "h1 \<le> h + int (length arg) + 4"
    using round_up(1,2) [of "h + (int (length arg) + 1)"] by (simp_all add: h1_def)
  have v: "safe_valid (ram s) h (length (cstr arg))"
    using Cons.prems(3,4) argv_room_nonneg [of args] by (simp add: safe_valid_def)
  note f = filled_put(1) [OF Cons.prems(1) v, of "Some h1"]
  note g = filled_same [OF f Cons.prems(1)]
  obtain ps where ps: "put_args h1 args (mem_write h (cstr arg) (mem_of s)) = (ps, e, m)" "ptrs = h # ps"
    using Cons.prems(6) by (auto simp: h1_def split: prod.splits)
  obtain t where t: "argv_strings args ?s = (Inr ps, t)" "filled ?s m (Some e) t" "h1 \<le> e" "e \<le> h1 + argv_room args" "length ps = length args"
    using Cons.IH [OF g(1,4)] Cons.prems(3-5) r ps(1) g(3,5) by auto
  moreover have "utf8 arg = Some (map word_of_nat arg)" using Cons.prems(5) by (intro utf8_ascii) (simp add: list_all_iff)
  ultimately show ?case
    using r ps(2) Cons.prems(2) store_binary_plain [OF Cons.prems(1) v] filled_trans [OF f t(2)]
    by (simp add: cstr_def py_then_def py_bind_def py_return_def set_heap_end_eq h1_def)
qed

lemma argv_table_filled:
  assumes "checked s" "ram_class (ram s) = SafeRAM" "heap s = Some h" "0 \<le> h" "h + 4 * int (length ptrs) \<le> ram_size (ram s)"
  shows "\<exists>t. argv_table ptrs s = (Inr (), t) \<and> filled s (put_table h ptrs (mem_of s)) (Some (h + 4 * int (length ptrs))) t"
  using assms
proof (induction ptrs arbitrary: s h)
  case Nil
  then show ?case using filled_refl [of s] by (simp add: py_return_def)
next
  case (Cons ptr ptrs)
  let ?s = "(sput s h (word_bytes ptr))\<lparr>host := (host s)\<lparr>mach := (mach (host s))\<lparr>heap_end := Some (h + 4)\<rparr>\<rparr>\<rparr>"
  have v: "safe_valid (ram s) h 4" "safe_valid (ram s) h (length (word_bytes ptr))"
    using Cons.prems(4,5) by (simp_all add: safe_valid_def)
  note f = filled_put(1) [OF Cons.prems(1) v(2), of "Some (h + 4)"]
  note g = filled_same [OF f Cons.prems(1)]
  obtain t where t: "argv_table ptrs ?s = (Inr (), t)" "filled ?s (put_table (h + 4) ptrs (mem_of ?s)) (Some (h + 4 + 4 * int (length ptrs))) t"
    using Cons.IH [OF g(1) _ g(4)] Cons.prems(2,4,5) g(2,3) by auto
  then show ?case
    using Cons.prems(3) store_word_plain [OF plain_safe [OF Cons.prems(1,2)] v(1)] filled_trans [OF f] g(5)
    by (auto simp: py_then_def py_bind_def set_heap_end_eq algebra_simps)
qed

lemma setup_argv_filled:
  assumes "checked s" "ram_class (ram s) = SafeRAM" "heap s = Some h" "0 \<le> h" "h + argv_room args + 4 * (int (length args) + 1) \<le> ram_size (ram s)"
    "list_all (list_all (\<lambda>c. c < 0x80)) args" "put_args h args (mem_of s) = (ptrs, e, m)"
  shows "\<exists>t. setup_argv args s = (Inr (), t\<lparr>cpu := (cpu s)\<lparr>registers := (registers (cpu s))(10 := int (length args), 11 := e)\<rparr>\<rparr>) \<and>
    filled s (put_table e (ptrs @ [0]) m) (Some ((e + 4 * (int (length args) + 1) + 7) AND NOT 7)) t \<and>
    0 \<le> e \<and> e + 4 * (int (length args) + 1) \<le> ram_size (ram s)"
proof -
  have "h + argv_room args \<le> ram_size (ram s)" using assms(5) by simp
  then obtain u where u: "argv_strings args s = (Inr ptrs, u)" "filled s m (Some e) u" "h \<le> e" "e \<le> h + argv_room args" "length ptrs = length args"
    using argv_strings_filled [OF assms(1,3,4) _ assms(6,7)] by blast
  note f = filled_same [OF u(2) assms(1)]
  have e: "0 \<le> e" "e + 4 * int (length (ptrs @ [0])) \<le> ram_size (ram s)" using u(3-5) assms(4,5) by simp_all
  have c: "ram_class (ram u) = SafeRAM" "e + 4 * int (length (ptrs @ [0])) \<le> ram_size (ram u)" using f(2,3) e(2) assms(2) by simp_all
  obtain t where t: "argv_table (ptrs @ [0]) u = (Inr (), t)" "filled u (put_table e (ptrs @ [0]) m) (Some (e + 4 * (int (length args) + 1))) t"
    using argv_table_filled [OF f(1) c(1) f(4) e(1) c(2)] f(5) u(5) by (auto simp: add.commute)
  note g = filled_same [OF t(2) f(1)]
  let ?t = "t\<lparr>host := (host t)\<lparr>mach := (mach (host t))\<lparr>heap_end := Some ((e + 4 * (int (length args) + 1) + 7) AND NOT 7)\<rparr>\<rparr>\<rparr>"
  have "filled s (put_table e (ptrs @ [0]) m) (Some ((e + 4 * (int (length args) + 1) + 7) AND NOT 7)) ?t"
    using filled_trans [OF u(2) t(2)] by (auto simp: filled_def)
  moreover have "setup_argv args s = (Inr (), ?t\<lparr>cpu := (cpu s)\<lparr>registers := (registers (cpu s))(10 := int (length args), 11 := e)\<rparr>\<rparr>)"
    using u(1) t(1) f(4,6) g(4,6)
    by (simp add: setup_argv_def py_bind_def py_then_def set_heap_end_eq on_cpu_def py_zoom_def set_reg_def py_modify_def fun_upd_twist)
  ultimately show ?thesis using e u(5) by auto
qed

section \<open>Symbols\<close>

lemma symbols_noted:
  "heap_end (fold note_symbol syms m) = (case symbol_value ''__heap_start'' syms of None \<Rightarrow> heap_end m | Some v \<Rightarrow> Some v)"
  "stack_bottom (fold note_symbol syms m) = (case symbol_value ''__stack_bottom'' syms of None \<Rightarrow> stack_bottom m | Some v \<Rightarrow> Some v)"
  by (induction syms rule: rev_induct) (auto simp: symbol_value_def note_symbol_def)

lemma symbols_options: "opt_regs (fold note_symbol syms m) = opt_regs m"
  by (induction syms arbitrary: m) (simp_all add: note_symbol_def)

lemma functions_noted:
  "heap_end (fold note_function syms m) = heap_end m" "stack_bottom (fold note_function syms m) = stack_bottom m"
  "opt_regs (fold note_function syms m) = opt_regs m"
  by (induction syms arbitrary: m) (simp_all add: note_function_def)

lemma text_noted:
  "heap_end (note_text c mem sec m) = heap_end m" "stack_bottom (note_text c mem sec m) = stack_bottom m"
  "opt_regs (note_text c mem sec m) = opt_regs m"
  by (simp_all add: note_text_def Let_def)

section \<open>The start of the run\<close>

text \<open>The options under which the interpreter speaks for the process.\<close>

definition prog_args :: "cli_args \<Rightarrow> bool" where
  "prog_args args \<longleftrightarrow> a_rvc args \<and> a_check_ram args \<and> \<not> a_check_inv args \<and> \<not> a_check_all args \<and> \<not> use_mmio args \<and>
     \<not> a_gdb args \<and> a_init_regs args = ''zero'' \<and> a_init_ram args = ''zero'' \<and>
     (case a_regs args of None \<Rightarrow> True | Some r \<Rightarrow> r = [] \<or> (\<exists>f. make_regformatter_lambda r = Inr f))"

lemma no_peripherals: "\<not> use_mmio args \<Longrightarrow> attach_peripherals h args s = s"
  by (simp add: attach_peripherals_def use_mmio_def Let_def)

text \<open>The system as constructed, and as a loader leaves it for the run.\<close>

definition fresh :: "bool \<Rightarrow> int \<Rightarrow> 'o sc_state msys \<Rightarrow> bool" where
  "fresh timer n s \<longleftrightarrow> prog_ok timer 0 s \<and> prog_of s = flat_prog n [] \<and> mtime (cpu s) = 0 \<and> ram_class (ram s) = SafeRAM \<and>
     ram_size (ram s) = n \<and> opt_rvc (mach (host s)) \<and> regs_ok (mach (host s)) \<and> opt_timer (mach (host s)) = timer"

definition ready :: "bool \<Rightarrow> nat \<Rightarrow> prog \<Rightarrow> 'o sc_state msys \<Rightarrow> bool" where
  "ready timer k g s \<longleftrightarrow> prog_ok timer k s \<and> prog_of s = g \<and> opt_rvc (mach (host s)) \<and> regs_ok (mach (host s)) \<and>
     opt_timer (mach (host s)) = timer"

lemma setup_fresh:
  assumes "prog_args args" "0 \<le> a_ram_size args"
  shows "\<exists>s. setup_system h args = Inr s \<and> fresh (a_timer args \<noteq> None) (1024 * a_ram_size args) s \<and>
    start_checks (mach (host s)) = Some (a_start_checks args)"
proof -
  let ?n = "1024 * a_ram_size args"
  let ?R = "\<lparr>memory = replicate (nat (?n + 4)) 0, ram_size = ?n, ram_class = SafeRAM, base_addr = 0\<rparr>"
  have a: "a_rvc args" "select_ram (use_mmio args) (a_check_ram args) = SafeRAM"
      "a_init_ram args = ''zero''" "a_init_regs args = ''zero''" "\<not> a_check_inv args" "\<not> use_mmio args"
    using assms(1) by (auto simp: prog_args_def select_ram_def)
  have R: "RAM_init (rnd_byte h) SafeRAM 0 ?n (Some ''zero'') 4 = Inr ?R" using assms(2) by (simp add: RAM_init_def mod_simps)
  obtain c where c: "CPU_init (rnd_word h) True (Some ''zero'') True (a_traps args) = Inr c" "registers c = (\<lambda>_. 0)" "pc c = 0"
      "csrs c = initial_csrs True" "mtime c = 0"
    by (simp add: CPU_init_def)
  obtain m where m: "Machine_init (a_timer args \<noteq> None) False True True (a_trace args) (a_regs args) False (Some (a_start_checks args)) = Inr m"
      "opt_rvc m" "opt_timer m = (a_timer args \<noteq> None)" "\<not> opt_check_inv m" "opt_regs m = a_regs args" "start_checks m = Some (a_start_checks args)"
      "heap_end m = None" "stack_bottom m = None"
    by (simp add: Machine_init_def)
  obtain i ou er where fds: "std_fds h = (i, ou, er)" by (cases "std_fds h")
  let ?s = "\<lparr>cpu = c, ram = ?R, devices = [], mmio_ranges = [], runners = [],
     host = \<lparr>mach = m, handler = SyscallHandler_init i ou er True (a_raw_tty args) (os_initial h)\<rparr>\<rparr>"
  have s: "setup_system h args = Inr ?s" using a R c(1) m(1) by (simp add: setup_system_def fds no_peripherals)
  have wf: "ram_wf ?R" using RAM_init_wf [OF R] assms(2) by simp
  have "cpu_inv True True c" using cpu_init_invariant [OF c(1)] by simp
  then have "prog_ok (a_timer args \<noteq> None) 0 ?s"
    using wf m(4) c by (simp add: prog_ok_def isa_ok_def sys_inv_def checked_def initial_csrs_def)
  moreover have "prog_of ?s = flat_prog ?n []"
    using c m by (auto simp: prog_of_def flat_prog_def zeroed_def mem_write_def arch_of_def env_of_def mem_of_def safe_valid_def
        SyscallHandler_init_def fun_eq_iff)
  moreover have "regs_ok m" using assms(1) m(5) by (auto simp: regs_ok_def wants_regs_def prog_args_def split: option.splits)
  ultimately show ?thesis using s m c(5) by (simp add: fresh_def)
qed

lemma fresh_start:
  assumes "fresh timer n s"
  shows "checked s" "pc (cpu s) = 0" "mem_of s = zeroed n" "heap s = None" "stack_bottom (mach (host s)) = None"
    "console (handler (host s)) = []" "registers (cpu s) i = 0"
proof -
  have ok: "isa_ok s" using assms by (simp add: fresh_def prog_ok_def)
  have g: "(arch_of s, env_of (host s)) = flat_prog n []" using assms by (simp add: fresh_def prog_of_def)
  show "checked s" by (rule isa_ok_inv(3) [OF ok])
  have "apc (arch_of s) = 0" "xreg (arch_of s) i = 0" using g by (simp_all add: flat_prog_def del: arch_of_simps)
  then show "pc (cpu s) = 0" "registers (cpu s) i = 0"
    using pc_word [OF ok] isa_ok_reg [OF ok, of i] by (simp_all del: arch_of_simps(1))
  show "mem_of s = zeroed n" using g by (simp add: flat_prog_def arch_of_def)
  show "heap s = None" "stack_bottom (mach (host s)) = None" "console (handler (host s)) = []"
    using g by (simp_all add: flat_prog_def env_of_def)
qed

lemma ready_loaded:
  assumes "fresh timer n s" "timer \<Longrightarrow> k < 2 ^ 64" "filled s m b u" "fits 32 p" "p AND 1 = 0" "\<forall>i. fits 32 (R i)" "R 0 = 0"
    "machine_opts M = opts s" "opt_regs M = opt_regs (mach (host s))"
    "t = u\<lparr>cpu := (cpu s)\<lparr>pc := p, registers := R\<rparr>, host := (host u)\<lparr>mach := M\<rparr>\<rparr>"
  shows "ready timer k (\<lparr>xreg = \<lambda>i. w32 (R i), apc = w32 p, amem = m\<rparr>, \<lparr>out = [], brk = heap_end M, stack_limit = stack_bottom M\<rparr>) t"
proof -
  obtain Q where Q: "u = s\<lparr>ram := Q, host := (host s)\<lparr>mach := (mach (host s))\<lparr>heap_end := b\<rparr>\<rparr>\<rparr>" "ram_wf Q" "ram_class Q = ram_class (ram s)"
      "ram_size Q = ram_size (ram s)" "mem_of u = m"
    using assms(3) by (auto simp: filled_def)
  have s: "prog_ok timer 0 s" "mtime (cpu s) = 0" "opt_rvc (mach (host s))" "regs_ok (mach (host s))" "opt_timer (mach (host s)) = timer"
    using assms(1) by (simp_all add: fresh_def)
  have "cpu_inv True True ((cpu s)\<lparr>pc := p, registers := R\<rparr>)"
    using s(1) assms(4-6) by (auto simp: prog_ok_def isa_ok_def sys_inv_def cpu_inv_def cpu_ranges_def aligned_def cache_inv_def)
  then have "sys_inv True True t"
    using s(1) Q(2) by (simp add: assms(10) Q(1) prog_ok_def isa_ok_def sys_inv_def)
  then have "prog_ok timer k t"
    using s(1,2) Q(2,3) assms(2,7,8) by (auto simp: assms(10) Q(1) prog_ok_def isa_ok_def checked_def machine_opts_def)
  moreover have "prog_of t = (\<lparr>xreg = \<lambda>i. w32 (R i), apc = w32 p, amem = m\<rparr>, \<lparr>out = [], brk = heap_end M, stack_limit = stack_bottom M\<rparr>)"
    using fresh_start(6) [OF assms(1)] Q(5) by (simp add: assms(10) prog_of_def arch_of_def env_of_def) (simp add: Q(1))
  ultimately show ?thesis
    using s(3-5) assms(8,9) by (simp add: assms(10) ready_def regs_ok_def wants_regs_def machine_opts_def)
qed

lemma flat_ready:
  assumes "fresh timer n s" "timer \<Longrightarrow> k < 2 ^ 64" "int (length binary) \<le> n" "start_checks (mach (host s)) \<noteq> Some ''main''"
  shows "\<exists>t. load_flatbinary binary s = (Inr (), t) \<and> ready timer k (flat_prog n binary) t"
proof -
  note f = fresh_start [OF assms(1)]
  have v: "safe_valid (ram s) 0 (length binary)" using assms(1,3) by (simp add: fresh_def safe_valid_def)
  obtain M where M: "(if start_checks (mach (host s)) = None \<or> start_checks (mach (host s)) = Some ''auto''
      then (mach (host s))\<lparr>start_checks := Some ''first-call''\<rparr> else mach (host s)) = M"
      "machine_opts M = opts s" "heap_end M = None" "stack_bottom M = None" "opt_regs M = opt_regs (mach (host s))"
    using f(4,5) by (simp add: machine_opts_def)
  let ?u = "sput s 0 binary"
  let ?t = "?u\<lparr>cpu := (cpu s)\<lparr>pc := 0, registers := registers (cpu s)\<rparr>, host := (host ?u)\<lparr>mach := M\<rparr>\<rparr>"
  have "load_flatbinary binary s = (Inr (), ?t)"
    using store_binary_plain [OF f(1) v] assms(4) M(1)
    by (auto simp: load_flatbinary_def py_then_def py_bind_def set_pc_def on_cpu_def on_mach_def py_zoom_def py_modify_def)
  moreover have "ready timer k (flat_prog n binary) ?t"
    using ready_loaded [OF assms(1,2) filled_put(2) [OF f(1) v], where p = 0 and R = "registers (cpu s)" and M = M and t = ?t] M(2-5) f(3,7)
    by (simp add: fits_def flat_prog_def)
  ultimately show ?thesis by blast
qed

lemma elf_noted:
  assumes "heap_end m = None" "stack_bottom m = None"
  shows "heap_end (note_elf elf syms text_too mem m) = symbol_value ''__heap_start'' (elf_symbols elf)"
    and "stack_bottom (note_elf elf syms text_too mem m) = symbol_value ''__stack_bottom'' (elf_symbols elf)"
    and "machine_opts (note_elf elf syms text_too mem m) = machine_opts m" "opt_regs (note_elf elf syms text_too mem m) = opt_regs m"
  using assms unfolding note_elf_def Let_def
  by (simp_all add: symbols_noted symbols_options functions_noted text_noted note_opts fold_note_opts elf_symbols_def
      machine_opts_def [of "m\<lparr>start_checks := x\<rparr>" for m x] machine_opts_def [symmetric] split: option.split)
    (simp_all add: symbol_value_def)

lemma load_elf_filled:
  assumes "fresh timer n s" "elf_fits n elf pargs"
  obtains u M where "load_elf elf syms text_too s =
      (Inr (), u\<lparr>cpu := (cpu s)\<lparr>pc := e_entry elf, registers := registers (cpu s)\<rparr>, host := (host u)\<lparr>mach := M\<rparr>\<rparr>)"
    "filled s (fold (\<lambda>(a, bs). mem_write a bs) (loaded elf) (zeroed n)) None u"
    "heap_end M = symbol_value ''__heap_start'' (elf_symbols elf)" "stack_bottom M = symbol_value ''__stack_bottom'' (elf_symbols elf)"
    "machine_opts M = opts s" "opt_regs M = opt_regs (mach (host s))"
proof -
  note f = fresh_start [OF assms(1)]
  have n: "ram_size (ram s) = n" using assms(1) by (simp add: fresh_def)
  obtain u where u: "load_segments (segments elf) s = (Inr (), u)" "filled s (fold (\<lambda>(a, bs). mem_write a bs) (loaded elf) (zeroed n)) None u"
    using load_segments_filled [OF f(1), of "segments elf"] assms(2) n f(3,4) by (auto simp: elf_fits_def loaded_def)
  have "heap u = None" "stack_bottom (mach (host u)) = None" "opts u = opts s" "opt_regs (mach (host u)) = opt_regs (mach (host s))"
    using u(2) f(4,5) by (auto simp: filled_def machine_opts_def)
  note M = elf_noted [OF this(1,2), of elf syms text_too "memory (ram u)", unfolded this(3,4)]
  have "load_elf elf syms text_too s = (Inr (), u\<lparr>cpu := (cpu s)\<lparr>pc := e_entry elf, registers := registers (cpu s)\<rparr>,
      host := (host u)\<lparr>mach := note_elf elf syms text_too (memory (ram u)) (mach (host u))\<rparr>\<rparr>)"
    using u(1) filled_same(6) [OF u(2) f(1)]
    by (simp add: load_elf_def py_then_def py_bind_def set_pc_def on_cpu_def on_mach_def py_zoom_def py_modify_def)
  from that [OF this u(2) M] show ?thesis .
qed

text \<open>The arguments on the heap of a loaded file.\<close>

lemma args_ready:
  assumes "fresh timer n s" "timer \<Longrightarrow> k < 2 ^ 64" "elf_fits n elf pargs" "heap_end M = Some h" "pargs \<noteq> []"
    "filled s (fold (\<lambda>(a, bs). mem_write a bs) (loaded elf) (zeroed n)) None u"
    "heap_end M = symbol_value ''__heap_start'' (elf_symbols elf)" "stack_bottom M = symbol_value ''__stack_bottom'' (elf_symbols elf)"
    "machine_opts M = opts s" "opt_regs M = opt_regs (mach (host s))"
    "t = u\<lparr>cpu := (cpu s)\<lparr>pc := e_entry elf, registers := registers (cpu s)\<rparr>, host := (host u)\<lparr>mach := M\<rparr>\<rparr>"
  shows "\<exists>v. setup_argv pargs t = (Inr (), v) \<and> ready timer k (with_args pargs (elf_prog n elf)) v"
proof -
  note f = fresh_start [OF assms(1)]
  note g = filled_same [OF assms(6) f(1)]
  have n: "ram_size (ram s) = n" "ram_class (ram s) = SafeRAM" "n \<le> 2 ^ 32" "fits 32 (e_entry elf)" "e_entry elf AND 1 = 0"
    using assms(1,3) by (simp_all add: fresh_def elf_fits_def)
  have room: "0 \<le> h" "h + argv_room pargs + 4 * (int (length pargs) + 1) \<le> ram_size (ram t)" "list_all (list_all (\<lambda>c. c < 0x80)) pargs"
    using assms(3,4,5,7,11) g(3) n(1) by (auto simp: elf_fits_def)
  have t: "checked t" "ram_class (ram t) = SafeRAM" "heap t = Some h" using g n assms(4,11) by (simp_all add: checked_def)
  obtain ptrs e m where pa: "put_args h pargs (mem_of t) = (ptrs, e, m)" by (metis prod_cases3)
  let ?b = "(e + 4 * (int (length pargs) + 1) + 7) AND NOT 7"
  let ?R = "(registers (cpu s))(10 := int (length pargs), 11 := e)"
  let ?M = "M\<lparr>heap_end := Some ?b\<rparr>"
  obtain v where v: "setup_argv pargs t = (Inr (), v\<lparr>cpu := (cpu t)\<lparr>registers := (registers (cpu t))(10 := int (length pargs), 11 := e)\<rparr>\<rparr>)"
      "filled t (put_table e (ptrs @ [0]) m) (Some ?b) v" "0 \<le> e" "e + 4 * (int (length pargs) + 1) \<le> ram_size (ram t)"
    using setup_argv_filled [OF t room pa] by blast
  obtain w where w: "filled s (put_table e (ptrs @ [0]) m) None w"
      "v = w\<lparr>cpu := (cpu s)\<lparr>pc := e_entry elf, registers := registers (cpu s)\<rparr>, host := (host w)\<lparr>mach := ?M\<rparr>\<rparr>"
    using filled_rebase [OF assms(6,11) v(2)] by blast
  have R: "\<forall>i. fits 32 (?R i)" "?R 0 = 0" using v(3,4) n(1,3) g(3) f(7) assms(11) by (simp_all add: fits_def)
  have eq: "with_args pargs (elf_prog n elf) = (\<lparr>xreg = \<lambda>i. w32 (?R i), apc = w32 (e_entry elf), amem = put_table e (ptrs @ [0]) m\<rparr>,
      \<lparr>out = [], brk = Some ?b, stack_limit = stack_bottom M\<rparr>)"
    using pa assms(4,5,7,8) f(7) g(5) by (simp add: with_args_def elf_prog_def assms(11) fun_eq_iff)
  have o: "machine_opts ?M = opts s" "opt_regs ?M = opt_regs (mach (host s))" using assms(9,10) by (simp_all add: machine_opts_def)
  have "setup_argv pargs t = (Inr (), w\<lparr>cpu := (cpu s)\<lparr>pc := e_entry elf, registers := ?R\<rparr>, host := (host w)\<lparr>mach := ?M\<rparr>\<rparr>)"
    using v(1) by (simp add: w(2) assms(11))
  moreover have "ready timer k (with_args pargs (elf_prog n elf))
      (w\<lparr>cpu := (cpu s)\<lparr>pc := e_entry elf, registers := ?R\<rparr>, host := (host w)\<lparr>mach := ?M\<rparr>\<rparr>)"
    unfolding eq using ready_loaded [where R = ?R, OF assms(1,2) w(1) n(4,5) R o refl] by simp
  ultimately show ?thesis by blast
qed

lemma elf_ready:
  assumes "fresh timer n s" "timer \<Longrightarrow> k < 2 ^ 64" "elf_fits n elf pargs"
  shows "\<exists>t. py_then (load_elf elf syms text_too)
      (\<lambda>s. py_then (if heap s \<noteq> None \<and> pargs \<noteq> [] then setup_argv pargs else py_return ()) (py_return True) s) s = (Inr True, t) \<and>
    ready timer k (with_args pargs (elf_prog n elf)) t"
proof -
  let ?t = "\<lambda>u M. u\<lparr>cpu := (cpu s)\<lparr>pc := e_entry elf, registers := registers (cpu s)\<rparr>, host := (host u)\<lparr>mach := M\<rparr>\<rparr>"
  obtain u M where u: "load_elf elf syms text_too s = (Inr (), ?t u M)" "filled s (fold (\<lambda>(a, bs). mem_write a bs) (loaded elf) (zeroed n)) None u"
      "heap_end M = symbol_value ''__heap_start'' (elf_symbols elf)" "stack_bottom M = symbol_value ''__stack_bottom'' (elf_symbols elf)"
      "machine_opts M = opts s" "opt_regs M = opt_regs (mach (host s))"
    using load_elf_filled [OF assms(1,3)] by metis
  show ?thesis
  proof (cases "heap_end M = None \<or> pargs = []")
    case True
    have "ready timer k (elf_prog n elf) (?t u M)"
      using ready_loaded [OF assms(1,2) u(2) _ _ _ _ u(5,6) refl, where p = "e_entry elf" and R = "registers (cpu s)"] u(3,4) fresh_start(7) [OF assms(1)] assms(3)
      by (simp add: elf_prog_def elf_fits_def fits_def)
    moreover have "with_args pargs (elf_prog n elf) = elf_prog n elf"
      using True u(3) by (auto simp: with_args_def elf_prog_def split: option.splits)
    ultimately show ?thesis using True u(1) by (auto simp: py_then_def py_bind_def py_return_def)
  next
    case False
    then obtain h where h: "heap_end M = Some h" "pargs \<noteq> []" by auto
    then show ?thesis
      using args_ready [OF assms h u(2-6) refl] u(1) by (auto simp: py_then_def py_bind_def py_return_def)
  qed
qed

text \<open>C1. From the command line to the end of the process: with the options \<open>--rvc\<close> and \<open>--check-ram\<close>, any timer in the CPU and any tracing,
  let the command line name a flat image or an ELF file that fits the memory, and let the program be that file in a zeroed memory
  at its entry point, with its arguments as a C argument vector on the heap. If the reference interpreter ends the program
  with an exception then the process ends with the exit status of that exception, 0 for \<open>_exit\<close> and 1 for an access fault or
  a bad system call, and with the output, registers and memory of the interpreter.\<close>

theorem emulator_answers:
  assumes "prog_args args" "0 \<le> a_ram_size args" "start_prog (files h) args = Some p" "n < 2 ^ 64" "prog_run n p = Some (e, g)"
  shows "\<exists>s. emulator h args = Some (run_outcome e, Some s) \<and> prog_of s = g"
proof -
  have a: "apply_check_all args = args" "\<not> a_gdb args" using assms(1) by (simp_all add: prog_args_def apply_check_all_def)
  obtain s where s: "setup_system h args = Inr s" "fresh (a_timer args \<noteq> None) (1024 * a_ram_size args) s"
      "start_checks (mach (host s)) = Some (a_start_checks args)"
    using setup_fresh [OF assms(1,2)] by blast
  obtain t where t: "load_program (files h) args s = (Inr True, t)" "ready (a_timer args \<noteq> None) n p t"
    using assms(3) flat_ready [OF s(2) assms(4)] elf_ready [OF s(2) assms(4)] s(3)
    by (fastforce simp: start_prog_def load_program_def Let_def py_then_def py_bind_def py_return_def split: if_splits sum.splits)
  have "\<exists>s'. run (Some (handle (os_calls h))) t = Some (e, s') \<and> prog_of s' = g"
    using t(2) assms(5) by (intro run_gives [of t n]) (auto simp: ready_def)
  with t show ?thesis using s(1) a(2) by (auto simp: emulator_def a(1) run_guest_def guest_end_def end_outcome_def)
qed

text \<open>A program at 0x80 that writes five bytes of its first argument and exits with 0.\<close>

definition hello_elf :: elf_file where
  "hello_elf =
     \<lparr>segments = [(False, 0, [1, 2, 3]),
        (True, 0x80, [0x8C, 0x41,  0x15, 0x46,  0x93, 0x08, 0x00, 0x04,  0x05, 0x45,  0x73, 0x00, 0x00, 0x00,
                      0x93, 0x08, 0xD0, 0x05,  0x01, 0x45,  0x73, 0x00, 0x00, 0x00])],
      e_entry = 0x80,
      symtab = Some [\<lparr>sym_name = ''__heap_start'', st_value = 0x100, is_func = False\<rparr>,
                     \<lparr>sym_name = ''__stack_bottom'', st_value = 0x300, is_func = False\<rparr>],
      text_section = None\<rparr>"

definition hello_env :: "unit host_env" where
  "hello_env = demo_env\<lparr>files := \<lparr>read_elf = \<lambda>_. Inr hello_elf, read_bin = \<lambda>_. Inl ValueError\<rparr>\<rparr>"

definition hello_args :: cli_args where
  "hello_args = (default_args ''hello.elf'')\<lparr>a_ram_size := 1, a_rvc := True, a_check_ram := True, a_timer := Some Csr,
     a_program_args := [[104, 101, 108, 108, 111]]\<rparr>"

theorem emulator_answers_witness:
  "\<exists>s. emulator hello_env hello_args = Some (Exited 0 (Some (ExecutionTerminated (ExitCode 0))), Some s) \<and>
     console (handler (host s)) = [104, 101, 108, 108, 111]"
proof -
  have "map_option (\<lambda>(e, g). (e, out (snd g))) (Option.bind (start_prog (files hello_env) hello_args) (prog_run 9)) =
      Some (ExecutionTerminated (ExitCode 0), [104, 101, 108, 108, 111])" by code_simp
  then obtain p g where "start_prog (files hello_env) hello_args = Some p" "prog_run 9 p = Some (ExecutionTerminated (ExitCode 0), g)"
      "out (snd g) = [104, 101, 108, 108, 111]"
    by (auto simp: bind_eq_Some_conv)
  moreover have "prog_args hello_args" "0 \<le> a_ram_size hello_args"
    by (simp_all add: prog_args_def hello_args_def default_args_def use_mmio_def has_blkdev_def)
  ultimately show ?thesis
    using emulator_answers [of hello_args hello_env p 9 _ g] by (auto simp: run_outcome_def is_machine_error_def prog_of_def env_of_def)
qed

end
