(* ===== verification/Isa_Priv.thy ===== *)
theory Isa_Priv
  imports Isa_Prog
begin

text \<open>
  Machine mode: the abstract machine with control and status registers, traps, \<open>MRET\<close> and the timer interrupt, as an
  executable interpreter on words, and the proof that the four execution loops follow it.

  It executes the instructions of \<open>Isa_Step\<close> and accesses to the CSRs of trap handling, \<open>misa\<close> and the identification registers. Programs that access
  \<open>mip\<close> or the CSRs of the timer, write a CSR that is read-only, use \<open>LR.W\<close> or \<open>SC.W\<close>, or make an environment call without a vector are outside it.
\<close>

unbundle bit_operations_syntax

section \<open>The abstract machine\<close>

record priv =
  hart :: arch
  pcsr :: "int \<Rightarrow> 32 word"
  ptime :: int
  ptimecmp :: int

text \<open>\<open>MPIE <- MIE\<close>, \<open>MIE <- 0\<close> on a trap; \<open>MIE <- MPIE\<close>, \<open>MPIE <- 1\<close> on \<open>MRET\<close>.\<close>

definition enter_status :: "32 word \<Rightarrow> 32 word" where
  "enter_status st = (if bit st 3 then set_bit 7 else unset_bit 7) (unset_bit 3 st)"

definition leave_status :: "32 word \<Rightarrow> 32 word" where
  "leave_status st = set_bit 7 ((if bit st 7 then set_bit 3 else unset_bit 3) st)"

text \<open>Entry of a trap with a vector installed; \<open>epc\<close> is the address to return to.\<close>

definition take_trap :: "32 word \<Rightarrow> 32 word \<Rightarrow> 32 word \<Rightarrow> priv \<Rightarrow> priv option" where
  "take_trap cause tval epc p =
     (if pcsr p 0x305 = 0 then None
      else Some (p\<lparr>pcsr := (pcsr p)(0x341 := epc, 0x342 := cause, 0x343 := tval, 0x300 := enter_status (pcsr p 0x300)),
                   hart := (hart p)\<lparr>apc := pcsr p 0x305 AND NOT 3\<rparr>\<rparr>))"

definition CSR_TRAP :: "int list" where
  "CSR_TRAP = [0x300, 0x304, 0x305, 0x340, 0x341, 0x342, 0x343]"

definition CSR_ID :: "int list" where
  "CSR_ID = [0x301, 0xF11, 0xF12, 0xF13, 0xF14]"

text \<open>The value written by the three kinds of CSR instructions, if any, and what the register makes of it. \<open>mtvec\<close> is written by
  \<open>CSRRW\<close> only.\<close>

definition csr_value :: "int \<Rightarrow> 32 word \<Rightarrow> 32 word \<Rightarrow> 32 word option" where
  "csr_value f3 old v =
     (if f3 = 1 \<or> f3 = 5 then Some v
      else if v = 0 then None
      else if f3 = 2 \<or> f3 = 6 then Some (old OR v) else Some (old AND NOT v))"

definition csr_legal :: "int \<Rightarrow> 32 word \<Rightarrow> 32 word" where
  "csr_legal csr v = (if csr = 0x300 then v OR 0x1800 else if csr = 0x305 then v AND NOT 3 else v)"

definition priv_csr :: "int \<Rightarrow> int \<Rightarrow> int \<Rightarrow> int \<Rightarrow> int \<Rightarrow> priv \<Rightarrow> priv option" where
  "priv_csr sz rd f3 rs1 csr p =
     (let old = pcsr p csr; v = (if f3 < 5 then xreg (hart p) rs1 else word_of_int rs1); new = csr_value f3 old v in
      if csr \<in> set CSR_TRAP \<and> (csr = 0x305 \<longrightarrow> f3 = 1 \<or> f3 = 5 \<or> new = None) \<or> csr \<in> set CSR_ID \<and> new = None then
        Some (p\<lparr>hart := (hart p)\<lparr>xreg := wr rd old (xreg (hart p)), apc := apc (hart p) + word_of_int sz\<rparr>,
                pcsr := (case new of None \<Rightarrow> pcsr p | Some n \<Rightarrow> (pcsr p)(csr := csr_legal csr n))\<rparr>)
      else None)"

definition priv_mret :: "priv \<Rightarrow> priv option" where
  "priv_mret p =
     (if bit (pcsr p 0x341) 0 then take_trap 0 (pcsr p 0x341) (apc (hart p)) p
      else Some (p\<lparr>hart := (hart p)\<lparr>apc := pcsr p 0x341\<rparr>, pcsr := (pcsr p)(0x300 := leave_status (pcsr p 0x300))\<rparr>))"

text \<open>System instructions; \<open>EBREAK\<close> with a number of the emulator's own in \<open>a7\<close> is left out.\<close>

definition priv_system :: "int \<Rightarrow> int \<Rightarrow> int \<Rightarrow> int \<Rightarrow> int \<Rightarrow> priv \<Rightarrow> priv option" where
  "priv_system sz rd f3 rs1 imm p =
     (if f3 \<in> {1, 2, 3, 5, 6, 7} then priv_csr sz rd f3 rs1 (imm AND 0xFFF) p
      else if (rd, f3, rs1) \<noteq> (0, 0, 0) then None
      else if imm = 0 then take_trap 11 0 (apc (hart p)) p
      else if imm = 1 then (if xreg (hart p) 17 < 0xFFFF0000 then take_trap 3 0 (apc (hart p)) p else None)
      else if imm = 0x302 then priv_mret p
      else if imm = 0x105 then Some (p\<lparr>hart := (hart p)\<lparr>apc := apc (hart p) + word_of_int sz\<rparr>\<rparr>)
      else None)"

definition priv_exec :: "int \<Rightarrow> rv_inst \<Rightarrow> priv \<Rightarrow> priv option" where
  "priv_exec sz i p =
     (case i of
        IType op rd f3 rs1 imm \<Rightarrow>
          if op = 0x73 then priv_system sz rd f3 rs1 imm p else map_option (\<lambda>a. p\<lparr>hart := a\<rparr>) (isa_exec sz i (hart p))
      | _ \<Rightarrow> map_option (\<lambda>a. p\<lparr>hart := a\<rparr>) (isa_exec sz i (hart p)))"

text \<open>Fetch and execute; an illegal word traps, with those of the atomics left out.\<close>

definition priv_step :: "priv \<Rightarrow> priv option" where
  "priv_step p =
     (case mem_read (amem (hart p)) (uint (apc (hart p))) 4 of
        None \<Rightarrow> None
      | Some bs \<Rightarrow>
          if illegal (le_int bs)
          then if fld 6 0 (le_int bs) = 0x2F then None else take_trap 2 (word_of_int (reported (le_int bs))) (apc (hart p)) p
          else (case prog_fetch (hart p) of Some (sz, i) \<Rightarrow> priv_exec sz i p | None \<Rightarrow> None))"

text \<open>The timer after an instruction: \<open>mip.MTIP\<close> follows the comparison, and the interrupt is taken if it is pending and enabled.\<close>

definition priv_tick :: "priv \<Rightarrow> priv option" where
  "priv_tick p =
     (let pending = (ptimecmp p \<le> ptime p);
          p = p\<lparr>ptime := ptime p + 1, pcsr := (pcsr p)(0x344 := (if pending then set_bit 7 (pcsr p 0x344) else unset_bit 7 (pcsr p 0x344)))\<rparr>
      in if pending \<and> bit (pcsr p 0x300) 3 \<and> bit (pcsr p 0x304) 7 then take_trap 0x80000007 0 (apc (hart p)) p else Some p)"

definition priv_cycle :: "bool \<Rightarrow> priv \<Rightarrow> priv option" where
  "priv_cycle timer p = (case priv_step p of Some p' \<Rightarrow> if timer then priv_tick p' else Some p' | None \<Rightarrow> None)"

text \<open>What ends a run: a breakpoint or an illegal word without a vector, and a load or store outside the memory. A
  breakpoint is recorded as a trap that has returned.\<close>

definition note_break :: "priv \<Rightarrow> priv" where
  "note_break p = p\<lparr>pcsr := (pcsr p)(0x341 := apc (hart p), 0x342 := 3, 0x343 := 0, 0x300 := set_bit 7 (pcsr p 0x300))\<rparr>"

definition priv_halt :: "priv \<Rightarrow> (exn \<times> priv) option" where
  "priv_halt p =
     (let a = hart p in
      case mem_read (amem a) (uint (apc a)) 4 of
        None \<Rightarrow> None
      | Some bs \<Rightarrow>
          if illegal (le_int bs)
          then if pcsr p 0x305 = 0 \<and> fld 6 0 (le_int bs) \<noteq> 0x2F then Some (ExecutionTerminated (TrapWithoutHandler (uint (apc a)) 2), p) else None
          else (case prog_fetch a of
                  None \<Rightarrow> None
                | Some (sz, i) \<Rightarrow>
                    if i = IType 0x73 0 0 0 1
                    then if pcsr p 0x305 = 0 \<and> xreg a 17 < 0xFFFF0000
                         then Some (ExecutionTerminated (BreakpointAt (uint (apc a))), note_break p) else None
                    else (case access_of i a of
                            None \<Rightarrow> None
                          | Some (addr, k) \<Rightarrow>
                              if mem_read (amem a) addr k = None then Some (MemoryAccessError (OutOfBounds addr (int k)), p)
                              else None)))"

fun priv_run :: "bool \<Rightarrow> nat \<Rightarrow> priv \<Rightarrow> (exn \<times> priv) option" where
  "priv_run timer 0 p = None"
| "priv_run timer (Suc n) p =
     (case priv_halt p of
        Some r \<Rightarrow> Some r
      | None \<Rightarrow> (case priv_cycle timer p of Some p' \<Rightarrow> priv_run timer n p' | None \<Rightarrow> None))"

section \<open>The state of the emulator as a state of the abstract machine\<close>

definition priv_of :: "'h sys \<Rightarrow> priv" where
  "priv_of s = \<lparr>hart = arch_of s, pcsr = \<lambda>a. w32 (csrs (cpu s) a), ptime = mtime (cpu s), ptimecmp = mtimecmp (cpu s)\<rparr>"

definition priv_ok :: "bool \<Rightarrow> nat \<Rightarrow> 'u msys \<Rightarrow> bool" where
  "priv_ok timer n s \<longleftrightarrow> isa_ok s \<and> runners s = [] \<and> \<not> opt_check_inv (mach (host s)) \<and>
     (timer \<longrightarrow> mtime (cpu s) + int n < 2 ^ 64 \<and> mtip (cpu s) = bit (csrs (cpu s) 0x344) 7)"

section \<open>Control and status registers\<close>

lemma w32_csr: "cpu_ranges c \<Longrightarrow> csrs c a = uint (w32 (csrs c a))"
  by (rule reg_word) (simp add: cpu_ranges_def)

lemma uint_andnot: "uint (a AND NOT b) = uint a AND NOT (uint b)" for a b :: "32 word"
  by (rule bit_eqI) (auto simp: bit_simps dest: bit_imp_le_length)

lemma mpp_absorb: "mpp_set x \<Longrightarrow> x OR 0x1800 = x"
  by (rule bit_eqI) (auto simp: mpp_set_bits bit_or_iff bit_mpp)

lemma trap_csrs: "csr \<in> set CSR_TRAP \<Longrightarrow> csr \<notin> {0x7C0, 0x7C1, 0x7C2, 0x7C3} \<and> csr \<notin> set CSR_NOWRITE"
  by (auto simp: CSR_TRAP_def CSR_NOWRITE_def)

lemma csrrw_plain:
  assumes "csr \<notin> {0x7C0, 0x7C1, 0x7C2, 0x7C3}" "csr \<notin> set CSR_NOWRITE"
  shows "csrrw_write csr v c = set_csr csr (if csr = 0x305 then v AND NOT 3 else v) c"
  using assms by (simp add: csrrw_write_def Let_def)

text \<open>The three write forms on a CSR that is not one of the timer's.\<close>

lemma csr_update_refines:
  assumes "cpu_ranges c" "mpp_set (csrs c 0x300)" "f3 \<in> {1, 2, 3, 5, 6, 7}" "rv = uint v" "new = csr_value f3 (w32 (csrs c csr)) v"
    "csr \<in> set CSR_TRAP \<and> (csr = 0x305 \<longrightarrow> f3 = 1 \<or> f3 = 5 \<or> new = None) \<or> csr \<in> set CSR_ID \<and> new = None"
  shows "csr_update f3 csr (csrs c csr) rv c = c\<lparr>csrs := (case new of None \<Rightarrow> csrs c | Some n \<Rightarrow> (csrs c)(csr := uint (csr_legal csr n)))\<rparr>"
proof -
  have o: "csrs c csr = uint (w32 (csrs c csr))" by (rule w32_csr [OF assms(1)])
  have z: "rv = 0 \<longleftrightarrow> v = 0" by (simp add: assms(4) unsigned_eq_0_iff)
  have w: "uint (w32 (csrs c csr) OR v) = csrs c csr OR rv" "uint (w32 (csrs c csr) AND NOT v) = csrs c csr AND NOT rv"
    "uint (v AND NOT 3) = rv AND NOT 3" "uint (x OR 0x1800) = uint x OR 0x1800" for x :: "32 word"
    using o uint_andnot [of v 3] by (simp_all add: uint_andnot unsigned_or_eq assms(4))
  have m: "(csrs c)(0x300 := csrs c 0x300 OR 0x1800) = csrs c" using mpp_absorb [OF assms(2)] by auto
  consider "f3 = 1 \<or> f3 = 5" "new = Some v" | "f3 \<in> {2, 3, 6, 7}" "v = 0" "new = None"
    | "f3 = 2 \<or> f3 = 6" "v \<noteq> 0" "new = Some (w32 (csrs c csr) OR v)" | "f3 = 3 \<or> f3 = 7" "v \<noteq> 0" "new = Some (w32 (csrs c csr) AND NOT v)"
    using assms(3) unfolding assms(5) csr_value_def by (elim insertE emptyE; cases "v = 0"; simp)
  then show ?thesis
  proof cases
    case 1
    have t: "csr \<notin> {0x7C0, 0x7C1, 0x7C2, 0x7C3}" "csr \<notin> set CSR_NOWRITE" using assms(6) 1 trap_csrs by auto
    have "csr_update f3 csr (csrs c csr) rv c = (let c = csrrw_write csr rv c in if csr = 0x300 then set_csr 0x300 (csrs c 0x300 OR 0x1800) c else c)"
      using 1 by (auto simp: csr_update_def)
    then show ?thesis using 1 w(3,4) by (simp add: csrrw_plain [OF t] csr_legal_def set_csr_def assms(4))
  next
    case 2
    then show ?thesis using m z by (auto simp: csr_update_def set_csr_def)
  next
    case 3
    then have t: "csr \<notin> set CSR_NOWRITE" "csr \<noteq> 0x305" using assms(6) trap_csrs by auto
    have "csr_update f3 csr (csrs c csr) rv c =
        (let c = set_csr csr (csrs c csr OR rv) c in if csr = 0x300 then set_csr 0x300 (csrs c 0x300 OR 0x1800) c else c)"
      using 3 t z by (auto simp: csr_update_def)
    then show ?thesis using 3 t(2) w(1,4) by (cases "csr = 0x300") (simp_all add: csr_legal_def set_csr_def)
  next
    case 4
    then have t: "csr \<notin> set CSR_NOWRITE" "csr \<noteq> 0x305" using assms(6) trap_csrs by auto
    have "csr_update f3 csr (csrs c csr) rv c =
        (let c = set_csr csr (csrs c csr AND NOT rv) c in if csr = 0x300 then set_csr 0x300 (csrs c 0x300 OR 0x1800) c else c)"
      using 4 t z by (auto simp: csr_update_def)
    then show ?thesis using 4 t(2) w(2,4) by (cases "csr = 0x300") (simp_all add: csr_legal_def set_csr_def)
  qed
qed

lemma exec_CSR_refines:
  assumes "cpu_ranges c" "mpp_set (csrs c 0x300)" "f3 \<in> {1, 2, 3, 5, 6, 7}" "fits 5 rs1" "csr = drop_bit 20 inst AND 0xFFF"
    "v = (if f3 < 5 then w32 (registers c rs1) else word_of_int rs1)" "new = csr_value f3 (w32 (csrs c csr)) v"
    "csr \<in> set CSR_TRAP \<and> (csr = 0x305 \<longrightarrow> f3 = 1 \<or> f3 = 5 \<or> new = None) \<or> csr \<in> set CSR_ID \<and> new = None"
  shows "exec_CSR inst rd f3 rs1 c = (Inr (), c\<lparr>csrs := (case new of None \<Rightarrow> csrs c | Some n \<Rightarrow> (csrs c)(csr := uint (csr_legal csr n))),
    registers := (if rd = 0 then registers c else (registers c)(rd := csrs c csr))\<rparr>)"
proof -
  let ?rv = "if f3 < 5 then registers c rs1 else rs1"
  have rv: "?rv = uint v"
    using cpu_ranges_reg [OF assms(1), of rs1] reg_word [OF fits_mono [OF assms(4)]] by (simp add: assms(6))
  have ro: "\<not> (csr \<in> set CSR_RO \<and> (f3 = 1 \<or> f3 = 5 \<or> uint v \<noteq> 0))"
  proof
    assume a: "csr \<in> set CSR_RO \<and> (f3 = 1 \<or> f3 = 5 \<or> uint v \<noteq> 0)"
    then have "csr \<notin> set CSR_TRAP" by (auto simp: CSR_RO_def CSR_TRAP_def)
    then have "new = None" using assms(8) by blast
    then show False using a unfolding assms(7) by (auto simp: csr_value_def unsigned_eq_0_iff split: if_splits)
  qed
  have "csr_read_value csr old c' = old" for old c' using assms(8) by (auto simp: csr_read_value_def CSR_TRAP_def CSR_ID_def)
  then show ?thesis
    using csr_update_refines [OF assms(1,2,3) refl assms(7,8)]
    unfolding exec_CSR_def Let_def rv assms(5) [symmetric] if_not_P [OF ro] by (simp add: py_then_def py_bind_def py_return_def py_modify_def)
qed

section \<open>Status and traps\<close>

lemma status_words:
  assumes "fits 32 x"
  shows "trap_mstatus x = uint (enter_status (w32 x))" "mret_mstatus x = uint (leave_status (w32 x))"
proof -
  have x: "bit x n \<Longrightarrow> n < 32" for n using assms by (auto simp: fits_bits not_le)
  show "trap_mstatus x = uint (enter_status (w32 x))"
    by (rule bit_eqI) (auto simp: bit_trap_mstatus enter_status_def bit_uint_iff bit_set_bit_iff bit_unset_bit_iff bit_word_of_int_iff dest: x)
  show "mret_mstatus x = uint (leave_status (w32 x))"
    by (rule bit_eqI) (auto simp: bit_mret_mstatus leave_status_def bit_uint_iff bit_set_bit_iff bit_unset_bit_iff bit_word_of_int_iff dest: x)
qed

section \<open>System instructions\<close>

text \<open>The state in which \<open>dispatch\<close> calls a handler, and what the handler of a system instruction leaves behind.\<close>

definition entered :: "(int \<rightharpoonup> decoded) \<Rightarrow> (int \<rightharpoonup> decoded \<times> int) \<Rightarrow> int \<Rightarrow> cpu \<Rightarrow> cpu" where
  "entered x y sz c = c\<lparr>decode_cache := x, decode_cache_compressed := y, next_pc := (pc c + sz) AND 0xFFFFFFFF\<rparr>"

lemma entered_simps [simp]:
  "registers (entered x y sz c) = registers c" "csrs (entered x y sz c) = csrs c" "pc (entered x y sz c) = pc c"
  "next_pc (entered x y sz c) = (pc c + sz) AND 0xFFFFFFFF" "mtime (entered x y sz c) = mtime c" "mtimecmp (entered x y sz c) = mtimecmp c"
  "mtip (entered x y sz c) = mtip c" "alignment_mask (entered x y sz c) = alignment_mask c" "cpu_ranges (entered x y sz c) = cpu_ranges c"
  by (simp_all add: entered_def cpu_ranges_def)

definition left :: "cpu \<Rightarrow> (int \<Rightarrow> int) \<Rightarrow> (int \<Rightarrow> int) \<Rightarrow> int \<Rightarrow> cpu \<Rightarrow> bool" where
  "left c0 regs cs np c \<longleftrightarrow> registers c = regs \<and> csrs c = cs \<and> next_pc c = np \<and>
     mtime c = mtime c0 \<and> mtimecmp c = mtimecmp c0 \<and> mtip c = mtip c0"

definition after_system :: "'h sys \<Rightarrow> (int \<Rightarrow> int) \<Rightarrow> (int \<Rightarrow> int) \<Rightarrow> int \<Rightarrow> priv" where
  "after_system s regs cs np =
     \<lparr>hart = \<lparr>xreg = \<lambda>j. if j = 0 then 0 else w32 (regs j), apc = w32 np, amem = mem_of s\<rparr>, pcsr = \<lambda>a. w32 (cs a),
      ptime = mtime (cpu s), ptimecmp = mtimecmp (cpu s)\<rparr>"

lemma system_step:
  assumes "priv_ok timer n s" "fetched sz i w" "i = IType 0x73 rd f3 rs1 imm" "cs 0x344 = csrs (cpu s) 0x344"
    "\<And>ec x y. exec_SYSTEM ec (encode32 i) sz rd f3 rs1 (fld 4 0 imm) (fld 11 5 imm) (s\<lparr>cpu := entered x y sz (cpu s)\<rparr>) =
      on_cpu f (s\<lparr>cpu := entered x y sz (cpu s)\<rparr>)"
    "\<And>x y. \<exists>c. f (entered x y sz (cpu s)) = (Inr (), c) \<and> left (cpu s) regs cs np c"
  shows "\<exists>t. execute ecall w s = (Inr (), t) \<and> priv_of (adv t) = after_system s regs cs np \<and> priv_ok timer n t"
proof -
  have ok: "isa_ok s" using assms(1) by (simp add: priv_ok_def)
  have wf: "wf_inst (IType 0x73 rd f3 rs1 imm)" "fits 32 w" using assms(2,3) by (auto simp: fetched_def)
  obtain x y where xy: "\<And>ec. execute ec w s = dispatch ec (encode32 i) sz (decode_fields (encode32 i))
      (s\<lparr>cpu := (cpu s)\<lparr>decode_cache := x, decode_cache_compressed := y\<rparr>\<rparr>)"
    using fetched_dispatch [OF ok assms(2)] by blast
  obtain c where c: "f (entered x y sz (cpu s)) = (Inr (), c)" "left (cpu s) regs cs np c" using assms(6) by blast
  let ?t = "s\<lparr>cpu := c\<lparr>registers := (registers c)(0 := 0)\<rparr>\<rparr>"
  have e: "execute ec w s = (Inr (), ?t)" for ec
    using assms(5) [of ec x y] c(1) decode_I(1) [OF wf(1)] unfolding xy assms(3)
    by (simp add: dispatch_def opcode_handler_def py_then_def py_bind_def py_modify_def on_cpu_def py_zoom_def set_reg_def entered_def
        del: encode32.simps)
  have "sys_inv True True ?t" using no_ecall.execute_inv [OF isa_ok_inv(1) [OF ok]] wf(2) e [of None] by (metis snd_conv)
  then have "isa_ok ?t" using isa_ok_inv(3,4) [OF ok] by (simp add: isa_ok_def checked_def)
  then have "priv_ok timer n ?t" using assms(1,4) c(2) by (auto simp: priv_ok_def left_def)
  moreover have "priv_of (adv ?t) = after_system s regs cs np"
    using c(2) by (auto simp: priv_of_def adv_def arch_of_def after_system_def left_def fun_eq_iff)
  ultimately show ?thesis using e by blast
qed

lemma priv_of_simps [simp]:
  "hart (priv_of s) = arch_of s" "pcsr (priv_of s) a = w32 (csrs (cpu s) a)" "ptime (priv_of s) = mtime (cpu s)"
  "ptimecmp (priv_of s) = mtimecmp (cpu s)"
  by (simp_all add: priv_of_def)

lemma priv_okD:
  assumes "priv_ok timer n s"
  shows "isa_ok s" "cpu_ranges (cpu s)" "mpp_set (csrs (cpu s) 0x300)" "alignment_mask (cpu s) = 1" "registers (cpu s) 0 = 0"
    "fits 32 (csrs (cpu s) a)"
  using assms sys_invD(1) [of True True s] by (auto simp: priv_ok_def isa_ok_def cpu_inv_def cpu_ranges_def)

text \<open>The CSRs after a trap, as the emulator and as the abstract machine have them.\<close>

definition trap_csrs_of :: "int \<Rightarrow> int \<Rightarrow> int \<Rightarrow> (int \<Rightarrow> int) \<Rightarrow> int \<Rightarrow> int" where
  "trap_csrs_of cause tval epc m = m(0x341 := epc, 0x342 := cause, 0x343 := tval, 0x300 := trap_mstatus (m 0x300))"

lemma trap_left:
  assumes "csrs c 0x305 \<noteq> 0" "csrs c = csrs c0" "registers c = registers c0" "mtime c = mtime c0" "mtimecmp c = mtimecmp c0" "mtip c = mtip c0"
  shows "\<exists>c'. trap cause tval sync c = (Inr (), c') \<and>
    left c0 (registers c0) (trap_csrs_of cause tval (if sync then pc c else next_pc c) (csrs c0)) (csrs c0 0x305 AND NOT 3) c'"
  using assms by (simp add: trap_def trap_state_def set_csr_def Let_def left_def trap_csrs_of_def)

lemma w32_andnot: "w32 (a AND NOT 3) = w32 a AND NOT 3"
  by (rule bit_word_eqI) (auto simp: bit_simps)

lemma after_trap:
  assumes "priv_ok timer n s" "take_trap (w32 cause) (w32 tval) (apc (arch_of s)) (priv_of s) = Some p"
  shows "after_system s (registers (cpu s)) (trap_csrs_of cause tval (pc (cpu s)) (csrs (cpu s))) (csrs (cpu s) 0x305 AND NOT 3) = p"
  using assms(2) priv_okD(5) [OF assms(1)] status_words(1) [OF priv_okD(6) [OF assms(1)]]
  by (auto simp: after_system_def take_trap_def trap_csrs_of_def priv_of_def arch_of_def w32_andnot [simplified] fun_eq_iff split: if_splits)

lemma take_trap_vector: "take_trap cause tval epc (priv_of s) = Some p \<Longrightarrow> csrs (cpu s) 0x305 \<noteq> 0"
  by (auto simp: take_trap_def split: if_splits)

lemma trap_step:
  assumes "priv_ok timer n s" "fetched sz i w" "i = IType 0x73 rd f3 rs1 imm"
    "take_trap (w32 cause) (w32 tval) (apc (arch_of s)) (priv_of s) = Some p"
    "\<And>ec x y. exec_SYSTEM ec (encode32 i) sz rd f3 rs1 (fld 4 0 imm) (fld 11 5 imm) (s\<lparr>cpu := entered x y sz (cpu s)\<rparr>) =
      on_cpu (trap cause tval True) (s\<lparr>cpu := entered x y sz (cpu s)\<rparr>)"
  shows "\<exists>t. execute ecall w s = (Inr (), t) \<and> priv_of (adv t) = p \<and> priv_ok timer n t"
  using system_step [OF assms(1-3) _ assms(5), where regs = "registers (cpu s)" and np = "csrs (cpu s) 0x305 AND NOT 3"
      and cs = "trap_csrs_of cause tval (pc (cpu s)) (csrs (cpu s))"]
    trap_left [of "entered _ _ _ (cpu s)" "cpu s" cause tval True] take_trap_vector [OF assms(4)]
  unfolding after_trap [OF assms(1,4)] by (simp add: trap_csrs_of_def)

lemma system_codes:
  "encode32 (IType 0x73 0 0 0 0) = 0x00000073" "encode32 (IType 0x73 0 0 0 1) = 0x00100073"
  "encode32 (IType 0x73 0 0 0 0x302) = 0x30200073" "encode32 (IType 0x73 0 0 0 0x105) = 0x10500073"
  by code_simp+

lemma csr_codes:
  assumes "wf_inst (IType 0x73 rd f3 rs1 imm)" "f3 \<noteq> 0"
  shows "encode32 (IType 0x73 rd f3 rs1 imm) \<notin> {0x00000073, 0x00100073, 0x30200073, 0x10500073}"
    "drop_bit 20 (encode32 (IType 0x73 rd f3 rs1 imm)) AND 0xFFF = imm AND 0xFFF"
proof -
  have "fst (snd (snd (decode_fields (encode32 (IType 0x73 rd f3 rs1 imm))))) = f3" using decode_I(1) [OF assms(1)] by simp
  moreover have "fst (snd (snd (decode_fields w))) = 0" if "w \<in> {0x00000073, 0x00100073, 0x30200073, 0x10500073}" for w
    using that by (auto simp: decode_fields_def)
  ultimately show "encode32 (IType 0x73 rd f3 rs1 imm) \<notin> {0x00000073, 0x00100073, 0x30200073, 0x10500073}" using assms(2) by metis
  have "drop_bit 20 (encode32 (IType 0x73 rd f3 rs1 imm)) = fld 11 0 imm" using assms(1) by (intro decode_IType(2)) (auto simp: wf_opcode_def)
  moreover have "x AND 0xFFF = take_bit 12 x" for x :: int by (simp add: take_bit_eq_mask mask_eq_exp_minus_1)
  ultimately show "drop_bit 20 (encode32 (IType 0x73 rd f3 rs1 imm)) AND 0xFFF = imm AND 0xFFF"
    by (simp add: fld_def del: encode32.simps)
qed

lemma csr_step:
  assumes "priv_ok timer n s" "fetched sz i w" "i = IType 0x73 rd f3 rs1 imm" "f3 \<in> {1, 2, 3, 5, 6, 7}"
    "priv_csr sz rd f3 rs1 (imm AND 0xFFF) (priv_of s) = Some p"
  shows "\<exists>t. execute ecall w s = (Inr (), t) \<and> priv_of (adv t) = p \<and> priv_ok timer n t"
proof -
  let ?csr = "imm AND 0xFFF"
  define v where "v = (if f3 < 5 then w32 (registers (cpu s) rs1) else word_of_int rs1)"
  define new where "new = csr_value f3 (w32 (csrs (cpu s) ?csr)) v"
  let ?regs = "if rd = 0 then registers (cpu s) else (registers (cpu s))(rd := csrs (cpu s) ?csr)"
    and ?cs = "case new of None \<Rightarrow> csrs (cpu s) | Some n \<Rightarrow> (csrs (cpu s))(?csr := uint (csr_legal ?csr n))"
  have wf: "wf_inst (IType 0x73 rd f3 rs1 imm)" "fits 5 rs1" "f3 \<noteq> 0" using assms(2-4) by (auto simp: fetched_def)
  have legal: "?csr \<in> set CSR_TRAP \<and> (?csr = 0x305 \<longrightarrow> f3 = 1 \<or> f3 = 5 \<or> new = None) \<or> ?csr \<in> set CSR_ID \<and> new = None"
    and p: "p = (priv_of s)\<lparr>hart := (arch_of s)\<lparr>xreg := wr rd (w32 (csrs (cpu s) ?csr)) (xreg (arch_of s)), apc := apc (arch_of s) + word_of_int sz\<rparr>,
      pcsr := (case new of None \<Rightarrow> pcsr (priv_of s) | Some n \<Rightarrow> (pcsr (priv_of s))(?csr := csr_legal ?csr n))\<rparr>"
    using assms(5) by (simp_all add: priv_csr_def new_def v_def Let_def split: if_splits)
  have "?cs 0x344 = csrs (cpu s) 0x344" using legal by (auto simp: CSR_TRAP_def split: option.splits)
  moreover have "exec_SYSTEM ec (encode32 i) sz rd f3 rs1 (fld 4 0 imm) (fld 11 5 imm) s0 = on_cpu (exec_CSR (encode32 i) rd f3 rs1) s0" for ec s0
    using csr_codes(1) [OF wf(1,3)] assms(4) unfolding assms(3) by (simp add: exec_SYSTEM_def del: encode32.simps)
  moreover have "\<exists>c. exec_CSR (encode32 i) rd f3 rs1 (entered x y sz (cpu s)) = (Inr (), c) \<and>
      left (cpu s) ?regs ?cs ((pc (cpu s) + sz) AND 0xFFFFFFFF) c" for x y
  proof -
    have "v = (if f3 < 5 then w32 (registers (entered x y sz (cpu s)) rs1) else word_of_int rs1)"
      "new = csr_value f3 (w32 (csrs (entered x y sz (cpu s)) ?csr)) v" by (simp_all only: v_def new_def entered_simps)
    moreover have "?csr = drop_bit 20 (encode32 i) AND 0xFFF" using csr_codes(2) [OF wf(1,3)] by (simp only: assms(3))
    moreover have "cpu_ranges (entered x y sz (cpu s))" "mpp_set (csrs (entered x y sz (cpu s)) 0x300)"
      using priv_okD(2,3) [OF assms(1)] by simp_all
    ultimately have "exec_CSR (encode32 i) rd f3 rs1 (entered x y sz (cpu s)) = (Inr (), (entered x y sz (cpu s))\<lparr>csrs := ?cs, registers := ?regs\<rparr>)"
      using exec_CSR_refines [OF _ _ assms(4) wf(2) _ _ _ legal, where c = "entered x y sz (cpu s)" and inst = "encode32 i" and v = v and rd = rd] by (simp only: entered_simps)
    then show ?thesis by (simp add: left_def del: encode32.simps)
  qed
  ultimately have "\<exists>t. execute ecall w s = (Inr (), t) \<and> priv_of (adv t) = after_system s ?regs ?cs ((pc (cpu s) + sz) AND 0xFFFFFFFF) \<and>
      priv_ok timer n t"
    using system_step [OF assms(1-3), where f = "exec_CSR (encode32 i) rd f3 rs1" and cs = ?cs] by blast
  moreover have "after_system s ?regs ?cs ((pc (cpu s) + sz) AND 0xFFFFFFFF) = p"
    using priv_okD(5) [OF assms(1)]
    by (auto simp: p after_system_def priv_of_def arch_of_def wr_def w32_next w32_masked fun_eq_iff split: option.splits)
  ultimately show ?thesis by simp
qed

lemma mret_step:
  assumes "priv_ok timer n s" "fetched sz i w" "i = IType 0x73 0 0 0 0x302" "priv_mret (priv_of s) = Some p"
  shows "\<exists>t. execute ecall w s = (Inr (), t) \<and> priv_of (adv t) = p \<and> priv_ok timer n t"
proof -
  let ?e = "csrs (cpu s) 0x341"
  have b: "?e AND 1 \<noteq> 0 \<longleftrightarrow> bit (w32 ?e) 0" using bit_word_of_int_iff [of ?e 0, where 'a = 32] by (simp add: and_one_eq odd_iff_mod_2_eq_one bit_0)
  have sys: "exec_SYSTEM ec (encode32 i) sz 0 0 0 (fld 4 0 0x302) (fld 11 5 0x302) s0 = on_cpu exec_MRET s0" for ec s0
    unfolding assms(3) exec_SYSTEM_def system_codes by simp
  show ?thesis
  proof (cases "bit (w32 ?e) 0")
    case True
    then have "take_trap (w32 0) (w32 ?e) (apc (arch_of s)) (priv_of s) = Some p" using assms(4) by (simp add: priv_mret_def)
    moreover have "on_cpu exec_MRET (s\<lparr>cpu := entered x y sz (cpu s)\<rparr>) = on_cpu (trap 0 ?e True) (s\<lparr>cpu := entered x y sz (cpu s)\<rparr>)" for x y
      using True b priv_okD(4) [OF assms(1)] by (simp add: on_cpu_def py_zoom_def exec_MRET_def)
    ultimately show ?thesis using trap_step [OF assms(1-3), of 0 ?e] unfolding sys by blast
  next
    case False
    let ?cs = "(csrs (cpu s))(0x300 := mret_mstatus (csrs (cpu s) 0x300))"
    have "\<exists>c. exec_MRET (entered x y sz (cpu s)) = (Inr (), c) \<and> left (cpu s) (registers (cpu s)) ?cs ?e c" for x y
      using False b priv_okD(4) [OF assms(1)] by (simp add: exec_MRET_def left_def set_csr_def)
    then have "\<exists>t. execute ecall w s = (Inr (), t) \<and> priv_of (adv t) = after_system s (registers (cpu s)) ?cs ?e \<and> priv_ok timer n t"
      using system_step [OF assms(1-3), where f = exec_MRET and cs = ?cs] unfolding sys by simp
    moreover have "after_system s (registers (cpu s)) ?cs ?e = p"
      using False assms(4) priv_okD(5) [OF assms(1)] status_words(2) [OF priv_okD(6) [OF assms(1)]]
      by (auto simp: priv_mret_def after_system_def priv_of_def arch_of_def fun_eq_iff)
    ultimately show ?thesis by simp
  qed
qed

lemma wfi_step:
  assumes "priv_ok timer n s" "fetched sz i w" "i = IType 0x73 0 0 0 0x105"
  shows "\<exists>t. execute ecall w s = (Inr (), t) \<and>
    priv_of (adv t) = (priv_of s)\<lparr>hart := (arch_of s)\<lparr>apc := apc (arch_of s) + word_of_int sz\<rparr>\<rparr> \<and> priv_ok timer n t"
proof -
  have sys: "exec_SYSTEM ec (encode32 i) sz 0 0 0 (fld 4 0 0x105) (fld 11 5 0x105) s0 = on_cpu (py_return ()) s0" for ec s0
    unfolding assms(3) exec_SYSTEM_def system_codes by (simp add: on_cpu_def py_zoom_def py_return_def)
  have "\<exists>t. execute ecall w s = (Inr (), t) \<and>
      priv_of (adv t) = after_system s (registers (cpu s)) (csrs (cpu s)) ((pc (cpu s) + sz) AND 0xFFFFFFFF) \<and> priv_ok timer n t"
    using system_step [OF assms(1-3), where f = "py_return ()" and cs = "csrs (cpu s)"] unfolding sys by (simp add: py_return_def left_def)
  moreover have "after_system s (registers (cpu s)) (csrs (cpu s)) ((pc (cpu s) + sz) AND 0xFFFFFFFF) =
      (priv_of s)\<lparr>hart := (arch_of s)\<lparr>apc := apc (arch_of s) + word_of_int sz\<rparr>\<rparr>"
    using priv_okD(5) [OF assms(1)] by (auto simp: after_system_def priv_of_def arch_of_def w32_next fun_eq_iff)
  ultimately show ?thesis by simp
qed

lemma call_step:
  assumes "priv_ok timer n s" "fetched sz i w" "i = IType 0x73 0 0 0 0" "take_trap 11 0 (apc (arch_of s)) (priv_of s) = Some p"
  shows "\<exists>t. execute ecall w s = (Inr (), t) \<and> priv_of (adv t) = p \<and> priv_ok timer n t"
proof -
  have "exec_SYSTEM ec (encode32 i) sz 0 0 0 (fld 4 0 0) (fld 11 5 0) (s\<lparr>cpu := entered x y sz (cpu s)\<rparr>) =
      on_cpu (trap 11 0 True) (s\<lparr>cpu := entered x y sz (cpu s)\<rparr>)" for ec x y
    using take_trap_vector [OF assms(4)] unfolding assms(3) exec_SYSTEM_def system_codes
    by (simp add: exec_ECALL_def split: option.split)
  then show ?thesis using trap_step [OF assms(1-3), of 11 0] assms(4) by simp
qed

lemma break_step:
  assumes "priv_ok timer n s" "fetched sz i w" "i = IType 0x73 0 0 0 1" "take_trap 3 0 (apc (arch_of s)) (priv_of s) = Some p"
    "xreg (arch_of s) 17 < 0xFFFF0000"
  shows "\<exists>t. execute ecall w s = (Inr (), t) \<and> priv_of (adv t) = p \<and> priv_ok timer n t"
proof -
  have "registers (cpu s) 17 < 0xFFFF0000"
    using assms(5) cpu_ranges_reg [OF priv_okD(2) [OF assms(1)], of 17] by (simp add: word_less_alt)
  then have "exec_SYSTEM ec (encode32 i) sz 0 0 0 (fld 4 0 1) (fld 11 5 1) (s\<lparr>cpu := entered x y sz (cpu s)\<rparr>) =
      on_cpu (trap 3 0 True) (s\<lparr>cpu := entered x y sz (cpu s)\<rparr>)" for ec x y
    using take_trap_vector [OF assms(4)] unfolding assms(3) exec_SYSTEM_def system_codes
    by (simp add: exec_EBREAK_def)
  then show ?thesis using trap_step [OF assms(1-3), of 3 0] assms(4) by simp
qed

lemma priv_execute:
  assumes "priv_ok timer n s" "fetched sz i w" "priv_exec sz i (priv_of s) = Some p"
  shows "\<exists>t. execute ecall w s = (Inr (), t) \<and> priv_of (adv t) = p \<and> priv_ok timer n t"
proof (cases "\<exists>rd f3 rs1 imm. i = IType 0x73 rd f3 rs1 imm")
  case True
  then obtain rd f3 rs1 imm where i: "i = IType 0x73 rd f3 rs1 imm" by blast
  then have p: "priv_system sz rd f3 rs1 imm (priv_of s) = Some p" using assms(3) by (simp add: priv_exec_def)
  note steps = csr_step [OF assms(1,2) i, of p] call_step [OF assms(1,2), of p] break_step [OF assms(1,2), of p] mret_step [OF assms(1,2), of p] wfi_step [OF assms(1,2)]
  show ?thesis
  proof (cases "f3 \<in> {1, 2, 3, 5, 6, 7}")
    case True
    then show ?thesis using p steps(1) by (simp add: priv_system_def del: insert_iff)
  next
    case False
    then have "rd = 0" "f3 = 0" "rs1 = 0" using p by (auto simp: priv_system_def split: if_splits)
    then show ?thesis using p i steps(2-) by (auto simp: priv_system_def split: if_splits)
  qed
next
  case False
  then have "map_option (\<lambda>a. (priv_of s)\<lparr>hart := a\<rparr>) (isa_exec sz i (arch_of s)) = Some p"
    using assms(3) by (auto simp: priv_exec_def split: rv_inst.splits if_splits)
  then obtain a where a: "isa_exec sz i (arch_of s) = Some a" "p = (priv_of s)\<lparr>hart := a\<rparr>" by auto
  obtain t where "execute ecall w s = (Inr (), t)" "arch_of (adv t) = a" "isa_ok t" "kept s t"
    using isa_execute [OF priv_okD(1) [OF assms(1)] a(1) assms(2)] by blast
  then show ?thesis using assms(1) a(2) by (auto simp: kept_def priv_ok_def priv_of_def adv_def)
qed

section \<open>Illegal words and the end of a run\<close>

lemma same_inst_illegal: "same_inst v w \<Longrightarrow> illegal w = illegal v" "same_inst v w \<Longrightarrow> reported w = reported v"
  "same_inst v w \<Longrightarrow> fld 6 0 w = fld 6 0 v" "same_inst v w \<Longrightarrow> fits 32 v \<Longrightarrow> fits 32 w"
proof -
  have "fld 6 0 (v AND 0xFFFF) = fld 6 0 v" by (simp add: fld_def bits and.assoc)
  then show "same_inst v w \<Longrightarrow> fld 6 0 w = fld 6 0 v" by (auto simp: same_inst_def)
  have "expanded w = expanded v" "expanded v = None \<Longrightarrow> w AND 0xFFFF = v AND 0xFFFF" if "same_inst v w"
    using that by (auto simp: same_inst_def expanded_def and.assoc)
  then show "same_inst v w \<Longrightarrow> illegal w = illegal v" "same_inst v w \<Longrightarrow> reported w = reported v"
    by (auto simp: illegal_def reported_def split: option.split)
qed (auto simp: same_inst_def fits_and_left)

lemma illegal_plain:
  assumes "sys_inv True True s" "registers (cpu s) 0 = 0" "fits 32 w" "illegal w" "fld 6 0 w \<noteq> 0x2F"
  shows "\<exists>x y p. \<forall>ecall. execute ecall w s =
    on_cpu (trap 2 (reported w) True) (s\<lparr>cpu := (cpu s)\<lparr>decode_cache := x, decode_cache_compressed := y, next_pc := p\<rparr>\<rparr>)"
  using illegal_execute [OF assms(1-4)] reported_trap [OF assms(3)] assms(5) by (simp add: enter_illegal_def)

lemma illegal_step:
  assumes "priv_ok timer n s" "illegal w" "fits 32 w" "fld 6 0 w \<noteq> 0x2F" "take_trap 2 (w32 (reported w)) (apc (arch_of s)) (priv_of s) = Some p"
  shows "\<exists>t. execute ecall w s = (Inr (), t) \<and> priv_of (adv t) = p \<and> priv_ok timer n t"
proof -
  note ok = priv_okD(1) [OF assms(1)]
  obtain x y np where e: "execute ec w s = on_cpu (trap 2 (reported w) True)
      (s\<lparr>cpu := (cpu s)\<lparr>decode_cache := x, decode_cache_compressed := y, next_pc := np\<rparr>\<rparr>)" for ec
    using illegal_plain [OF isa_ok_inv(1) [OF ok] priv_okD(5) [OF assms(1)] assms(3,2,4)] by blast
  define c0 where "c0 = (cpu s)\<lparr>decode_cache := x, decode_cache_compressed := y, next_pc := np\<rparr>"
  obtain c where c: "trap 2 (reported w) True c0 = (Inr (), c)"
      "left (cpu s) (registers (cpu s)) (trap_csrs_of 2 (reported w) (pc (cpu s)) (csrs (cpu s))) (csrs (cpu s) 0x305 AND NOT 3) c"
    using trap_left [of c0 "cpu s" 2 "reported w" True] take_trap_vector [OF assms(5)] by (auto simp: c0_def)
  have t: "execute ec w s = (Inr (), s\<lparr>cpu := c\<rparr>)" for ec unfolding e c0_def [symmetric] using c(1) by (simp add: on_cpu_def py_zoom_def)
  have "sys_inv True True (s\<lparr>cpu := c\<rparr>)" using no_ecall.execute_inv [OF isa_ok_inv(1) [OF ok]] assms(3) t [of None] by (metis snd_conv)
  then have "isa_ok (s\<lparr>cpu := c\<rparr>)" using isa_ok_inv(3,4) [OF ok] c(2) priv_okD(5) [OF assms(1)] by (simp add: isa_ok_def checked_def left_def)
  then have "priv_ok timer n (s\<lparr>cpu := c\<rparr>)" using assms(1) c(2) by (auto simp: priv_ok_def left_def trap_csrs_of_def)
  moreover have "priv_of (adv (s\<lparr>cpu := c\<rparr>)) = p"
    using c(2) priv_okD(5) [OF assms(1)] after_trap [OF assms(1), of 2 "reported w" p] assms(5)
    by (auto simp: priv_of_def adv_def arch_of_def after_system_def left_def fun_eq_iff)
  ultimately show ?thesis using t by blast
qed

lemma mip_words: "w32 (x OR push_bit 7 1) = set_bit 7 (w32 x)" "w32 (x AND NOT (push_bit 7 1)) = unset_bit 7 (w32 x)"
  "bit x 7 \<Longrightarrow> set_bit 7 (w32 x) = w32 x" "\<not> bit x 7 \<Longrightarrow> unset_bit 7 (w32 x) = w32 x"
  by (rule bit_word_eqI; auto simp: bit_or_iff bit_and_iff bit_not_iff bit_word_of_int_iff bit_set_bit_iff bit_unset_bit_iff bit_push_bit_iff bit_1_iff
      simp del: push_bit_of_1)+

lemma halt_steps:
  assumes "priv_ok timer n s" "fits 32 w"
  shows "illegal w \<Longrightarrow> fld 6 0 w \<noteq> 0x2F \<Longrightarrow> csrs (cpu s) 0x305 = 0 \<Longrightarrow>
      \<exists>t. execute ecall w s = (Inl (ExecutionTerminated (TrapWithoutHandler (pc (cpu s)) 2)), t) \<and> priv_of t = priv_of s"
    and "fetched sz (IType 0x73 0 0 0 1) w \<Longrightarrow> csrs (cpu s) 0x305 = 0 \<Longrightarrow> xreg (arch_of s) 17 < 0xFFFF0000 \<Longrightarrow>
      \<exists>t. execute ecall w s = (Inl (ExecutionTerminated (BreakpointAt (pc (cpu s)))), t) \<and> priv_of t = note_break (priv_of s)"
    and "fetched sz i w \<Longrightarrow> access_of i (arch_of s) = Some (addr, k) \<Longrightarrow> mem_read (mem_of s) addr k = None \<Longrightarrow>
      \<exists>t. execute ecall w s = (Inl (MemoryAccessError (OutOfBounds addr (int k))), t) \<and> priv_of t = priv_of s"
proof -
  note ok = priv_okD(1) [OF assms(1)]
  show "\<exists>t. execute ecall w s = (Inl (ExecutionTerminated (TrapWithoutHandler (pc (cpu s)) 2)), t) \<and> priv_of t = priv_of s"
    if il: "illegal w" "fld 6 0 w \<noteq> 0x2F" and v: "csrs (cpu s) 0x305 = 0"
  proof -
    obtain x y np where "execute ecall w s = on_cpu (trap 2 (reported w) True)
        (s\<lparr>cpu := (cpu s)\<lparr>decode_cache := x, decode_cache_compressed := y, next_pc := np\<rparr>\<rparr>)"
      using illegal_plain [OF isa_ok_inv(1) [OF ok] priv_okD(5) [OF assms(1)] assms(2) il] by blast
    then show ?thesis using v by (simp add: on_cpu_def py_zoom_def trap_def priv_of_def arch_of_def)
  qed
  show "\<exists>t. execute ecall w s = (Inl (MemoryAccessError (OutOfBounds addr (int k))), t) \<and> priv_of t = priv_of s"
    if "fetched sz i w" "access_of i (arch_of s) = Some (addr, k)" "mem_read (mem_of s) addr k = None"
    using execute_access_fault [OF ok that, of ecall] by (fastforce simp: priv_of_def kept_def)
  show "\<exists>t. execute ecall w s = (Inl (ExecutionTerminated (BreakpointAt (pc (cpu s)))), t) \<and> priv_of t = note_break (priv_of s)"
    if f: "fetched sz (IType 0x73 0 0 0 1) w" and v: "csrs (cpu s) 0x305 = 0" and a7: "xreg (arch_of s) 17 < 0xFFFF0000"
  proof -
    obtain x y where xy: "execute ecall w s = dispatch ecall (encode32 (IType 0x73 0 0 0 1)) sz (decode_fields (encode32 (IType 0x73 0 0 0 1)))
        (s\<lparr>cpu := (cpu s)\<lparr>decode_cache := x, decode_cache_compressed := y\<rparr>\<rparr>)"
      using fetched_dispatch [OF ok f] by blast
    let ?s = "s\<lparr>cpu := (cpu s)\<lparr>decode_cache := x, decode_cache_compressed := y, next_pc := (pc (cpu s) + sz) AND 0xFFFFFFFF\<rparr>\<rparr>"
    let ?t = "s\<lparr>cpu := bypassed_trap_return 3 0 (cpu ?s)\<rparr>"
    have "wf_inst (IType 0x73 0 0 0 1)" using f by (simp only: fetched_def)
    note d = decode_I(1) [OF this]
    have "registers (cpu s) 17 < 0xFFFF0000" using a7 cpu_ranges_reg [OF priv_okD(2) [OF assms(1)], of 17] by (simp add: word_less_alt)
    then have "exec_SYSTEM ecall (encode32 (IType 0x73 0 0 0 1)) sz 0 0 0 (fld 4 0 1) (fld 11 5 1) ?s =
        (Inl (ExecutionTerminated (BreakpointAt (pc (cpu s)))), ?t)"
      using v unfolding exec_SYSTEM_def system_codes by (simp add: exec_EBREAK_def)
    then have "execute ecall w s = (Inl (ExecutionTerminated (BreakpointAt (pc (cpu s)))), ?t)"
      unfolding xy by (intro dispatch_raises [OF d, of ecall "exec_SYSTEM ecall"]) (simp_all add: opcode_handler_def del: encode32.simps)
    moreover have "priv_of ?t = note_break (priv_of s)"
      using mip_words(1) [of "csrs (cpu s) 0x300"]
      by (auto simp: priv_of_def note_break_def arch_of_def bypassed_trap_return_def set_csr_def Let_def fun_eq_iff)
    ultimately show ?thesis by blast
  qed
qed

section \<open>The timer\<close>

lemma w32_bits: "fits 32 x \<Longrightarrow> n < 32 \<Longrightarrow> bit (w32 x) n = bit x n"
  by (simp add: bit_word_of_int_iff)

text \<open>The timer up to the interrupt.\<close>

definition ticked :: "cpu \<Rightarrow> cpu" where
  "ticked c =
     (let pending = (mtimecmp c \<le> mtime c); c = c\<lparr>mtime := mtime c + 1\<rparr> in
      if pending = mtip c then c
      else (if pending then set_csr 0x344 (csrs c 0x344 OR push_bit 7 1) c else set_csr 0x344 (csrs c 0x344 AND NOT (push_bit 7 1)) c)\<lparr>mtip := pending\<rparr>)"

lemma ticked_simps:
  "a \<noteq> 0x344 \<Longrightarrow> csrs (ticked c) a = csrs c a" "mtime (ticked c) = mtime c + 1" "mtimecmp (ticked c) = mtimecmp c" "next_pc (ticked c) = next_pc c"
  "registers (ticked c) = registers c" "mtip (ticked c) = (mtimecmp c \<le> mtime c)"
  by (auto simp: ticked_def set_csr_def Let_def)

lemma ticked_mip:
  assumes "mtip c = bit (csrs c 0x344) 7"
  shows "w32 (csrs (ticked c) 0x344) = (if mtimecmp c \<le> mtime c then set_bit 7 (w32 (csrs c 0x344)) else unset_bit 7 (w32 (csrs c 0x344)))"
    "bit (csrs (ticked c) 0x344) 7 = (mtimecmp c \<le> mtime c)"
proof -
  show "w32 (csrs (ticked c) 0x344) = (if mtimecmp c \<le> mtime c then set_bit 7 (w32 (csrs c 0x344)) else unset_bit 7 (w32 (csrs c 0x344)))"
    using assms mip_words [of "csrs c 0x344"] by (auto simp: ticked_def set_csr_def Let_def)
  show "bit (csrs (ticked c) 0x344) 7 = (mtimecmp c \<le> mtime c)"
    using assms by (auto simp: ticked_def set_csr_def Let_def bit_or_iff bit_and_iff bit_not_iff bit_push_bit_iff simp del: push_bit_of_1)
qed

lemma timer_update_ticked:
  "timer_update c = (if mtimecmp c \<le> mtime c \<and> bit (csrs c 0x300) 3 \<and> bit (csrs c 0x304) 7
     then trap 0x80000007 0 False (ticked c) else (Inr (), ticked c))"
proof -
  have e: "x AND 8 = 0 \<longleftrightarrow> \<not> bit x 3" "x AND 128 = 0 \<longleftrightarrow> \<not> bit x 7" for x :: int
    using and_exp_iff_bit [of x 3] and_exp_iff_bit [of x 7] by auto
  show ?thesis by (simp add: timer_update_def ticked_def Let_def e set_csr_def)
qed

lemma tick_refines:
  assumes "priv_ok True (Suc n) t" "priv_tick (priv_of (adv t)) = Some p"
  shows "\<exists>u. tick True t = (Inr (), u) \<and> priv_of (adv u) = p \<and> priv_ok True n u"
proof -
  let ?c = "cpu t" and ?irq = "mtimecmp (cpu t) \<le> mtime (cpu t) \<and> bit (csrs (cpu t) 0x300) 3 \<and> bit (csrs (cpu t) 0x304) 7"
  have m: "mtip ?c = bit (csrs ?c 0x344) 7" "mtime ?c + int (Suc n) < 2 ^ 64" using assms(1) by (auto simp: priv_ok_def)
  define q where "q = priv_of (adv (t\<lparr>cpu := ticked ?c\<rparr>))"
  have q: "q = (priv_of (adv t))\<lparr>ptime := mtime ?c + 1, pcsr := (pcsr (priv_of (adv t)))(0x344 :=
      (if mtimecmp ?c \<le> mtime ?c then set_bit 7 (w32 (csrs ?c 0x344)) else unset_bit 7 (w32 (csrs ?c 0x344))))\<rparr>"
    using ticked_mip(1) [OF m(1)] ticked_simps
    by (auto simp: q_def priv_of_def adv_def arch_of_def fun_eq_iff)
  have tick: "(if ?irq then take_trap 0x80000007 0 (w32 (next_pc ?c)) q else Some q) = Some p"
    using assms(2) w32_bits [OF priv_okD(6) [OF assms(1)]] unfolding q
    by (simp add: priv_tick_def Let_def adv_def priv_of_def arch_of_def cong: if_cong)
  obtain c where c: "timer_update ?c = (Inr (), c)" "priv_of (adv (t\<lparr>cpu := c\<rparr>)) = p" "registers c = registers ?c" "mtime c = mtime ?c + 1"
      "mtip c = bit (csrs c 0x344) 7"
  proof (cases ?irq)
    case True
    then have v: "csrs ?c 0x305 \<noteq> 0" using tick by (auto simp: take_trap_def q priv_of_def adv_def split: if_splits)
    obtain c' where c': "trap 0x80000007 0 False (ticked ?c) = (Inr (), c')"
        "left (ticked ?c) (registers ?c) (trap_csrs_of 0x80000007 0 (next_pc ?c) (csrs (ticked ?c))) (csrs ?c 0x305 AND NOT 3) c'"
      using trap_left [of "ticked ?c" "ticked ?c" "0x80000007" 0 False] v by (auto simp: ticked_simps)
    have "priv_of (adv (t\<lparr>cpu := c'\<rparr>)) = p"
      using c'(2) tick True v status_words(1) [OF priv_okD(6) [OF assms(1)]]
      by (auto simp: left_def trap_csrs_of_def q_def take_trap_def priv_of_def adv_def arch_of_def ticked_simps w32_andnot [simplified] fun_eq_iff
          split: if_splits)
    then show ?thesis using that [of c'] c' True ticked_mip(2) [OF m(1)]
      by (simp add: timer_update_ticked left_def ticked_simps trap_csrs_of_def)
  next
    case False
    then show ?thesis using that [of "ticked ?c"] tick ticked_mip(2) [OF m(1)] by (auto simp: timer_update_ticked q_def ticked_simps)
  qed
  have "cpu_inv True True c"
    using timer_update_inv [of True True ?c] c(1) m(2) sys_invD(1) [OF isa_ok_inv(1) [OF priv_okD(1) [OF assms(1)]]] by simp
  then have "isa_ok (t\<lparr>cpu := c\<rparr>)" using priv_okD(1) [OF assms(1)] c(3) by (simp add: isa_ok_def sys_inv_def checked_def)
  then show ?thesis using assms(1) c m(2) by (auto simp: tick_def on_cpu_def py_zoom_def priv_ok_def)
qed

lemma cycle_refines:
  assumes "priv_ok timer (Suc n) t" "(if timer then priv_tick (priv_of (adv t)) else Some (priv_of (adv t))) = Some p"
  shows "\<exists>u. tick timer t = (Inr (), u) \<and> priv_of (adv u) = p \<and> priv_ok timer n (adv u)"
proof -
  have "\<exists>u. tick timer t = (Inr (), u) \<and> priv_of (adv u) = p \<and> priv_ok timer n u"
    using assms tick_refines [of n t p] by (cases timer) (auto simp: tick_def py_return_def priv_ok_def)
  moreover have "priv_ok timer n u \<Longrightarrow> priv_ok timer n (adv u)" for u :: "'a msys"
    using isa_ok_adv [of u] by (simp add: priv_ok_def) (simp add: adv_def)
  ultimately show ?thesis by blast
qed

section \<open>The loops\<close>

definition priv_next :: "bool \<Rightarrow> priv \<Rightarrow> priv \<Rightarrow> bool" where
  "priv_next timer p p' \<longleftrightarrow> priv_cycle timer p = Some p'"

definition priv_stop :: "priv \<Rightarrow> exn \<Rightarrow> priv \<Rightarrow> bool" where
  "priv_stop p e p' \<longleftrightarrow> priv_halt p = Some (e, p')"

lemma priv_run_sound:
  "priv_run timer n p = Some (e, p') \<Longrightarrow> \<exists>k q. k < n \<and> (priv_next timer ^^ k) p q \<and> priv_stop q e p'"
proof (induction n arbitrary: p)
  case (Suc n)
  show ?case
  proof (cases "priv_halt p")
    case (Some r)
    then show ?thesis using Suc.prems by (intro exI [of _ 0] exI [of _ p]) (simp add: priv_stop_def)
  next
    case None
    then obtain p2 where p2: "priv_next timer p p2" "priv_run timer n p2 = Some (e, p')"
      using Suc.prems by (auto simp: priv_next_def split: option.splits)
    obtain k q where "k < n" "(priv_next timer ^^ k) p2 q" "priv_stop q e p'" using Suc.IH [OF p2(2)] by blast
    then show ?thesis using p2(1) by (intro exI [of _ "Suc k"] exI [of _ q]) (auto intro: relpowp_Suc_I2 simp del: relpowp.simps)
  qed
qed simp

locale priv_loop = exec_loop ecall timer body rest
  for ecall :: "('u msys, unit) py option" and timer :: bool and body :: "'l \<Rightarrow> ('u msys, 'l) py" and rest :: "'l \<Rightarrow> ('u msys, 'l) py"
begin

lemma priv_iteration:
  assumes "priv_ok timer n s" "mem_read (amem (hart (priv_of s))) (uint (apc (hart (priv_of s)))) 4 = Some bs"
  shows "\<exists>w. same_inst (le_int bs) w \<and> fits 32 (le_int bs) \<and>
    (\<forall>sz i. prog_fetch (arch_of s) = Some (sz, i) \<longrightarrow> fetched sz i w) \<and>
    body l s = py_then (execute ecall w) (py_then (tick timer) (py_then advance_pc (rest l))) s"
proof -
  note ok = priv_okD(1) [OF assms(1)]
  have m: "mem_read (mem_of s) (pc (cpu s)) 4 = Some bs" using assms(2) pc_word [OF ok] by simp
  obtain w where w: "same_inst (le_int bs) w" "body l s = py_then (execute ecall w) (py_then (tick timer) (py_then advance_pc (rest l))) s"
    using iteration [OF ok _ m] assms(1) unfolding priv_ok_def by blast
  have "fetched sz i (le_int bs)" if "prog_fetch (arch_of s) = Some (sz, i)" for sz i
    using fetch_isa [OF ok prog_fetch_sound [OF that]] fetch_bytes(1) [OF ok m] by auto
  then show ?thesis using w fetch_bytes(2) [OF ok m] same_inst_fetched by blast
qed

lemma priv_follows:
  assumes "priv_ok timer (Suc n) s" "priv_next timer (priv_of s) p"
  shows "\<exists>l' s'. body l s = (Inr l', s') \<and> priv_of s' = p \<and> priv_ok timer n s'"
proof -
  obtain q where q: "priv_step (priv_of s) = Some q" "(if timer then priv_tick q else Some q) = Some p"
    using assms(2) by (auto simp: priv_next_def priv_cycle_def split: option.splits)
  obtain bs where bs: "mem_read (amem (hart (priv_of s))) (uint (apc (hart (priv_of s)))) 4 = Some bs"
    using q(1) unfolding priv_step_def by (auto split: option.splits)
  obtain w where w: "same_inst (le_int bs) w" "fits 32 (le_int bs)" "\<forall>sz i. prog_fetch (arch_of s) = Some (sz, i) \<longrightarrow> fetched sz i w"
      "body l s = py_then (execute ecall w) (py_then (tick timer) (py_then advance_pc (rest l))) s"
    using priv_iteration [OF assms(1) bs, of l] by blast
  note same = same_inst_illegal [OF w(1)]
  have "\<exists>t. execute ecall w s = (Inr (), t) \<and> priv_of (adv t) = q \<and> priv_ok timer (Suc n) t"
  proof (cases "illegal (le_int bs)")
    case True
    then have "fld 6 0 (le_int bs) \<noteq> 0x2F" "take_trap 2 (w32 (reported (le_int bs))) (apc (arch_of s)) (priv_of s) = Some q"
      using q(1) bs unfolding priv_step_def by (simp_all split: if_splits)
    then show ?thesis using illegal_step [OF assms(1), of w q ecall] True same w(2) by simp
  next
    case False
    then obtain sz i where "prog_fetch (arch_of s) = Some (sz, i)" "priv_exec sz i (priv_of s) = Some q"
      using q(1) bs unfolding priv_step_def by (auto split: option.splits)
    then show ?thesis using priv_execute [OF assms(1)] w(3) by blast
  qed
  then obtain t where t: "execute ecall w s = (Inr (), t)" "priv_of (adv t) = q" "priv_ok timer (Suc n) t" by blast
  obtain u where u: "tick timer t = (Inr (), u)" "priv_of (adv u) = p" "priv_ok timer n (adv u)"
    using cycle_refines [OF t(3)] q(2) t(2) by blast
  moreover obtain l' where "rest l (adv u) = (Inr l', adv u)" using idle [of "adv u" l] u(3) by (auto simp: priv_ok_def)
  ultimately show ?thesis using t(1) by (simp add: w(4) py_then_def py_bind_def advance_adv)
qed

lemma priv_raises:
  assumes "priv_ok timer n s" "priv_stop (priv_of s) e p"
  shows "\<exists>s'. body l s = (Inl e, s') \<and> priv_of s' = p"
proof -
  note halt = assms(2) [unfolded priv_stop_def priv_halt_def Let_def]
  obtain bs where bs: "mem_read (amem (hart (priv_of s))) (uint (apc (hart (priv_of s)))) 4 = Some bs"
    using halt by (auto split: option.splits)
  obtain w where w: "same_inst (le_int bs) w" "fits 32 (le_int bs)" "\<forall>sz i. prog_fetch (arch_of s) = Some (sz, i) \<longrightarrow> fetched sz i w"
      "body l s = py_then (execute ecall w) (py_then (tick timer) (py_then advance_pc (rest l))) s"
    using priv_iteration [OF assms(1) bs, of l] by blast
  note same = same_inst_illegal [OF w(1)] and pc = pc_word [OF priv_okD(1) [OF assms(1)]]
  note steps = halt_steps [OF assms(1) same(4) [OF w(2)], where ecall = ecall]
  have v: "w32 (csrs (cpu s) 0x305) = 0 \<Longrightarrow> csrs (cpu s) 0x305 = 0" using w32_csr [OF priv_okD(2) [OF assms(1)], of "0x305"] by simp
  have "\<exists>t. execute ecall w s = (Inl e, t) \<and> priv_of t = p"
  proof (cases "illegal (le_int bs)")
    case True
    then show ?thesis using halt bs steps(1) same pc v by (auto split: if_splits)
  next
    case False
    then obtain sz i where i: "prog_fetch (arch_of s) = Some (sz, i)" using halt bs by (auto split: option.splits)
    then have "fetched sz i w" using w(3) by blast
    then show ?thesis using halt bs i False steps(2) [where sz = sz] steps(3) [where sz = sz and i = i] pc v by (auto split: if_splits option.splits prod.splits)
  qed
  then show ?thesis by (auto simp: w(4) py_then_def py_bind_def)
qed

end

sublocale priv_loop \<subseteq> stopping_simulation body "priv_next timer" priv_of "priv_ok timer" priv_stop
  by unfold_locales (use priv_follows priv_raises in blast)+

context priv_loop
begin

lemma loop_gives:
  assumes "priv_ok timer n s" "priv_run timer n (priv_of s) = Some (e, p)"
  shows "\<exists>s'. py_forever body l s = Some (e, s') \<and> priv_of s' = p"
proof -
  obtain k q where k: "k < n" "(priv_next timer ^^ k) (priv_of s) q" "priv_stop q e p" using priv_run_sound [OF assms(2)] by blast
  have "priv_ok timer k s" using assms(1) k(1) by (auto simp: priv_ok_def)
  from stops_forever [OF this k(2,3)] show ?thesis .
qed

end

interpretation priv_fast: priv_loop ecall False "fast_step ecall" "\<lambda>_. py_return ()" for ecall :: "('u msys, unit) py option"
  by unfold_locales

interpretation priv_timed: priv_loop ecall True "timer_step ecall" "\<lambda>_. py_return ()" for ecall :: "('u msys, unit) py option"
  by unfold_locales

interpretation priv_slow: priv_loop ecall timer "mmio_step ecall timer" "poll True" for ecall :: "('u msys, unit) py option" and timer
  by unfold_locales

interpretation priv_watched: priv_loop ecall timer "checks_step ecall timer mmio" "poll mmio" for ecall :: "('u msys, unit) py option" and timer mmio
  by unfold_locales

section \<open>Properties\<close>

text \<open>A program that installs a trap vector, enables the timer interrupt, makes an environment call, from which its handler returns by
  \<open>MRET\<close>, and waits for the timer, whose interrupt the handler ends with a breakpoint, \<open>mcause\<close> being in \<open>a0\<close>.\<close>

definition trap_binary :: "8 word list" where
  "trap_binary =
     [0x93, 0x00, 0xC0, 0x01,  0x73, 0x90, 0x50, 0x30,  0x13, 0x01, 0x00, 0x08,  0x73, 0x20, 0x41, 0x30,
      0x73, 0x60, 0x04, 0x30,  0x73, 0x00, 0x00, 0x00,  0x6F, 0x00, 0x00, 0x00,  0x73, 0x25, 0x20, 0x34,
      0x63, 0x4A, 0x05, 0x00,  0xF3, 0x22, 0x10, 0x34,  0x93, 0x82, 0x42, 0x00,  0x73, 0x90, 0x12, 0x34,
      0x73, 0x00, 0x20, 0x30,  0x73, 0x10, 0x50, 0x30,  0x73, 0x00, 0x10, 0x00]"

definition trap_demo :: "unit msys" where
  "trap_demo =
     (let s = demo_msys SafeRAM True ()
      in s\<lparr>ram := \<lparr>memory = trap_binary @ replicate 4 0, ram_size = 60, ram_class = SafeRAM, base_addr = 0\<rparr>,
           cpu := (cpu s)\<lparr>mtimecmp := 16\<rparr>, host := (host s)\<lparr>mach := (mach (host s))\<lparr>opt_timer := True\<rparr>\<rparr>\<rparr>)"

text \<open>C23. Trap handlers and interrupts run as on the abstract machine in machine mode: for a machine with the C extension in checked memory without
  peripherals or invariant checks, if the abstract machine (instructions, CSR accesses, \<open>ECALL\<close>, \<open>EBREAK\<close> and illegal instructions as traps to the vector in \<open>mtvec\<close>,
  \<open>MRET\<close> and, with the timer, its interrupt after each instruction that finds it pending and enabled) ends a program within \<open>n\<close> instructions, by a breakpoint
  or an illegal instruction without a vector or by an access fault, then \<open>run\<close>, in whichever of its four loops the options select and whatever its
  system-call handler, ends with exactly that exception and leaves the registers, the program counter, the memory, all CSRs and the timer of the abstract machine. With the
  timer, \<open>mtime\<close> must not overflow within \<open>n\<close> ticks and the cached level must agree with \<open>mip.MTIP\<close> at the start.\<close>

theorem machine_mode_answers:
  assumes "opt_rvc (mach (host s))" "regs_ok (mach (host s))" "priv_ok (opt_timer (mach (host s))) n s"
    "priv_run (opt_timer (mach (host s))) n (priv_of s) = Some (e, p)"
  shows "\<exists>s'. run ecall s = Some (e, s') \<and> priv_of s' = p"
proof -
  have "pc (cpu s) AND 1 = 0"
    using priv_okD(1) [OF assms(3)] by (auto simp: isa_ok_def sys_inv_def cpu_inv_def aligned_def)
  then show ?thesis
    using assms priv_fast.loop_gives [of n s e p ecall "()"] priv_timed.loop_gives [of n s e p ecall "()"]
      priv_slow.loop_gives [of _ n s e p ecall 0] priv_watched.loop_gives [of _ n s e p ecall _ 0]
    by (auto simp: run_def Let_def run_with_checks_def run_mmio_def run_timer_forever run_fast_forever regs_ok_def)
qed

theorem machine_mode_answers_witness:
  "\<exists>s. run None trap_demo = Some (ExecutionTerminated (BreakpointAt 0x38), s) \<and> w32 (registers (cpu s) 10) = 0x80000007"
proof -
  have "map_option (\<lambda>(e, p). (e, xreg (hart p) 10)) (priv_run True 30 (priv_of trap_demo)) =
      Some (ExecutionTerminated (BreakpointAt 0x38), 0x80000007)"
    by code_simp
  then obtain p where p: "priv_run True 30 (priv_of trap_demo) = Some (ExecutionTerminated (BreakpointAt 0x38), p)"
      "xreg (hart p) 10 = 0x80000007" by auto
  have inv: "sys_inv True True trap_demo"
    using demo_msys_inv [of True True SafeRAM "()"]
    by (auto intro!: cpu_inv_timer_fields simp: trap_demo_def demo_msys_def sys_inv_def ram_wf_def trap_binary_def fits_def)
  have m: "checked trap_demo" "mmio_ranges trap_demo = []" "runners trap_demo = []"
    by (simp_all add: trap_demo_def demo_msys_def checked_def ram_wf_def trap_binary_def demo_sys_def)
  have "priv_ok True 30 trap_demo"
    using inv m by (simp add: priv_ok_def isa_ok_def trap_demo_def demo_msys_def demo_sys_def demo_machine_def CPU_init_def initial_csrs_def)
  then show ?thesis
    using machine_mode_answers [of trap_demo 30 _ p None] p
    by (auto simp: trap_demo_def demo_msys_def demo_machine_def regs_ok_def wants_regs_def priv_of_def)
qed

end
