(* ===== verification/Console.thy ===== *)
theory Console
  imports Emulator
begin

text \<open>
  What the command \<open>riscv-emu.py\<close> does to the terminal: the log (its handlers and formatters, its lines in raw and cooked
  mode), the raw mode of the terminal and its restoration on every way out of the run, and the dump of the
  registers. The same for the logger of the web application, \<open>browser_logger.py\<close>.

  The time stamp of a record and the text of an exception are given by the host. The settings of the terminal are a value of
  an arbitrary type, on which \<open>setraw\<close> is the call \<open>tty.setraw\<close>. A user interrupt
  may come at any time of the run, so the state of the system at that time is arbitrary. What the components log during the run
  (traces, and the messages of the debugger) is not modelled.
\<close>

unbundle bit_operations_syntax

section \<open>Log lines\<close>

datatype log_level = DEBUG | INFO | WARNING | ERROR

primrec levelno :: "log_level \<Rightarrow> int" where
  "levelno DEBUG = 10"
| "levelno INFO = 20"
| "levelno WARNING = 30"
| "levelno ERROR = 40"

primrec levelname :: "log_level \<Rightarrow> string" where
  "levelname DEBUG = ''DEBUG''"
| "levelname INFO = ''INFO''"
| "levelname WARNING = ''WARNING''"
| "levelname ERROR = ''ERROR''"

definition NL :: string where "NL = [CHR 0x0A]"

definition CRNL :: string where "CRNL = [CHR 0x0D, CHR 0x0A]"

definition ansi :: "string \<Rightarrow> string" where
  "ansi code = CHR 0x1B # ''['' @ code @ ''m''"

definition LOG_COLORS :: "log_level \<rightharpoonup> string" where
  "LOG_COLORS = [DEBUG \<mapsto> ansi ''36'', INFO \<mapsto> ansi ''32'', WARNING \<mapsto> ansi ''33'', ERROR \<mapsto> ansi ''31'']"

definition RESET_COLOR :: string where
  "RESET_COLOR = ansi ''0''"

text \<open>\<open>'%(asctime)s [%(levelname)s] %(message)s'\<close>.\<close>

definition RelativeTimeFormatter_format :: "string \<Rightarrow> log_level \<Rightarrow> string \<Rightarrow> string" where
  "RelativeTimeFormatter_format stamp lv msg = stamp @ '' ['' @ levelname lv @ ''] '' @ msg"

definition ColorFormatter_format :: "bool \<Rightarrow> string \<Rightarrow> log_level \<Rightarrow> string \<Rightarrow> string" where
  "ColorFormatter_format use_color stamp lv msg =
     (let message = RelativeTimeFormatter_format stamp lv msg
      in case LOG_COLORS lv of
           Some color \<Rightarrow> if use_color then color @ message @ RESET_COLOR else message
         | None \<Rightarrow> message)"

definition emit :: "bool \<Rightarrow> string \<Rightarrow> string" where
  "emit raw msg = (if raw then py_replace (CHR 0x0A) CRNL msg else msg) @ (if raw then CRNL else NL)"

section \<open>The log\<close>

record log_args =
  a_log :: "string option"
  a_log_level :: string
  a_no_color :: bool          \<comment> \<open>a \<open>store_false\<close> option: true unless it is given\<close>

datatype log_sink = LogFile int | LogTerminal bool bool

text \<open>\<open>attr\<close> is \<open>getattr(logging, name)\<close>, a number or a string that names no level, such as \<open>BASIC_FORMAT\<close>, which \<open>setLevel\<close> refuses;
  \<open>log_open\<close> is what opening the file raises.\<close>

datatype log_attr = LevelNumber int | NotALevel

definition setup_logging :: "(string \<Rightarrow> log_attr option) \<Rightarrow> exn option \<Rightarrow> bool \<Rightarrow> bool \<Rightarrow> log_args \<Rightarrow> exn + log_sink" where
  "setup_logging attr log_open isatty raw args =
     (case a_log args of
        Some path \<Rightarrow>
          if path \<noteq> [] then
            (case log_open of
               Some e \<Rightarrow> Inl e
             | None \<Rightarrow>
                 (case attr (py_upper (a_log_level args)) of
                    Some (LevelNumber l) \<Rightarrow> Inr (LogFile l)
                  | Some NotALevel \<Rightarrow> Inl ValueError
                  | None \<Rightarrow> Inr (LogFile (levelno DEBUG))))
          else Inr (LogTerminal raw (isatty \<and> a_no_color args))
      | None \<Rightarrow> Inr (LogTerminal raw (isatty \<and> a_no_color args)))"

text \<open>The terminal; \<open>log_modes\<close> keeps the settings under which each record was logged.\<close>

record 't console =
  tty_settings :: 't
  con_out :: string
  con_err :: string
  log_file :: string
  log_modes :: "'t list"

definition log_record :: "log_sink \<Rightarrow> string \<Rightarrow> log_level \<Rightarrow> string \<Rightarrow> 't console \<Rightarrow> 't console" where
  "log_record sink stamp lv msg c =
     (case sink of
        LogFile l \<Rightarrow>
          c\<lparr>log_file := log_file c @ (if levelno lv \<ge> l then RelativeTimeFormatter_format stamp lv msg @ NL else []),
            log_modes := log_modes c @ [tty_settings c]\<rparr>
      | LogTerminal raw use_color \<Rightarrow>
          c\<lparr>con_err := con_err c @ emit raw (ColorFormatter_format use_color stamp lv msg),
            log_modes := log_modes c @ [tty_settings c]\<rparr>)"

definition print_nl :: "'t console \<Rightarrow> 't console" where
  "print_nl c = c\<lparr>con_out := con_out c @ NL\<rparr>"

definition restore_terminal :: "'t \<Rightarrow> 't console \<Rightarrow> 't console" where
  "restore_terminal settings c = c\<lparr>tty_settings := settings\<rparr>"

section \<open>The dump of the registers\<close>

definition register_dump :: "cpu \<Rightarrow> string list" where
  "register_dump c =
     (let hex_dec = (\<lambda>v. fmt_hex True 8 v @ '' ('' @ dec_int v @ '')'') in
      [''REGISTER STATE:'', ljust 12 ''pc'' @ ''        '' @ hex_dec (pc c)] @
      map (\<lambda>(i, name). ljust 12 name @ '' (x'' @ fmt_dec 2 i @ ''): '' @ hex_dec (registers c (int i))) (List.enumerate 0 REG_NAMES) @
      map (\<lambda>(name, addr). ljust 12 name @ '' ('' @ fmt_hex True 3 addr @ ''): '' @ hex_dec (csrs c addr)) CSR_NAMES @
      [ljust 18 ''mtime_lo'' @ '': '' @ hex_dec (mtime c AND 0xFFFFFFFF),
       ljust 18 ''mtime_hi'' @ '': '' @ hex_dec (drop_bit 32 (mtime c)),
       ljust 18 ''mtimecmp_lo'' @ '': '' @ hex_dec (mtimecmp c AND 0xFFFFFFFF),
       ljust 18 ''mtimecmp_hi'' @ '': '' @ hex_dec (drop_bit 32 (mtimecmp c))])"

definition print_registers :: "log_sink \<Rightarrow> string \<Rightarrow> cpu \<Rightarrow> 't console \<Rightarrow> 't console" where
  "print_registers sink stamp c con =
     (if logger c then fold (log_record sink stamp INFO) (register_dump c) con else con)"

section \<open>The process\<close>

definition type_name :: "exn \<Rightarrow> string" where
  "type_name e =
     (case e of
        MachineError _ \<Rightarrow> ''MachineError'' | SetupError _ \<Rightarrow> ''SetupError''
      | InvariantViolationError _ \<Rightarrow> ''InvariantViolationError'' | ExecutionTerminated _ \<Rightarrow> ''ExecutionTerminated''
      | DebugBreak _ \<Rightarrow> ''DebugBreak'' | MemoryAccessError _ \<Rightarrow> ''MemoryAccessError''
      | InvalidSyscallError \<Rightarrow> ''InvalidSyscallError'' | IndexError \<Rightarrow> ''IndexError'' | ValueError \<Rightarrow> ''ValueError''
      | TypeError \<Rightarrow> ''TypeError'' | BufferError \<Rightarrow> ''BufferError'' | AttributeError \<Rightarrow> ''AttributeError''
      | RuntimeError \<Rightarrow> ''RuntimeError'' | OverflowError \<Rightarrow> ''OverflowError'' | OSError _ \<Rightarrow> ''OSError'')"

text \<open>What the process takes from the host for its terminal; \<open>tcgetattr\<close> is what the call of that name raises if the standard input is no
  terminal.\<close>

record 't tty_env =
  setraw :: "'t \<Rightarrow> 't"
  stamp :: string
  exn_str :: "exn \<Rightarrow> string"
  sink :: log_sink
  tcgetattr :: "exn option"
  gdb_address :: string        \<comment> \<open>\<open>host:port\<close>\<close>

definition restore_if :: "bool \<Rightarrow> 't \<Rightarrow> 't console \<Rightarrow> 't console" where
  "restore_if raw old c = (if raw then restore_terminal old c else c)"

text \<open>The handlers of the run, then the \<open>finally\<close> clause.\<close>

definition handle_end :: "'t tty_env \<Rightarrow> bool \<Rightarrow> 't \<Rightarrow> run_end \<Rightarrow> cpu \<Rightarrow> 't console \<Rightarrow> 't console" where
  "handle_end t raw old r c con =
     (let log = (\<lambda>lv msg. log_record (sink t) (stamp t) lv msg); at_pc = fmt_hex True 8 (pc c) in
      case r of
        Returned \<Rightarrow> con
      | Interrupted \<Rightarrow>
          log INFO (''Execution interrupted by user at PC=0x'' @ at_pc) (print_nl (restore_if raw old con))
      | Raised e \<Rightarrow>
          if is_machine_error e then
            let con = (if raw then print_nl (restore_terminal old con) else con)
            in (case e of
                  ExecutionTerminated _ \<Rightarrow> log INFO (''Execution terminated: '' @ exn_str t e) con
                | _ \<Rightarrow>
                    let con = log ERROR (''EMULATOR ERROR ('' @ type_name e @ '') at PC=0x'' @ at_pc @ '': '' @ exn_str t e) con
                    in (case e of SetupError _ \<Rightarrow> con | _ \<Rightarrow> print_registers (sink t) (stamp t) c con))
          else print_nl (restore_if raw old con))"

definition leave_run :: "'t tty_env \<Rightarrow> bool \<Rightarrow> 't \<Rightarrow> run_end \<Rightarrow> cpu \<Rightarrow> 't console \<Rightarrow> 't console" where
  "leave_run t raw old r c con = print_nl (restore_if raw old (handle_end t raw old r c con))"

definition run_on_terminal :: "'t tty_env \<Rightarrow> bool \<Rightarrow> bool \<Rightarrow> run_end \<Rightarrow> cpu \<Rightarrow> 't console \<Rightarrow> 't console" where
  "run_on_terminal t raw gdb r c con =
     (let old = tty_settings con;
          con = (if raw then con\<lparr>tty_settings := setraw t old\<rparr> else con);
          con = (if gdb then log_record (sink t) (stamp t) INFO (''Starting GDB server on '' @ gdb_address t) con else con)
      in leave_run t raw old r c con)"

text \<open>The process once the log is set up; \<open>intr\<close> is the state in which the user interrupts the run, if at all.\<close>

definition emulator_on_terminal ::
  "'t tty_env \<Rightarrow> 'o host_env \<Rightarrow> cli_args \<Rightarrow> 'o sc_state msys option \<Rightarrow> 't console \<Rightarrow> (outcome \<times> 't console) option" where
  "emulator_on_terminal t h args0 intr con =
     (let args = apply_check_all args0; log = (\<lambda>msg. log_record (sink t) (stamp t) ERROR msg)
      in case setup_system h args of
           Inl e \<Rightarrow> Some (Uncaught e, con)
         | Inr s \<Rightarrow>
             (case load_program (files h) args s of
                (Inl e, s') \<Rightarrow>
                  Some (setup_failure e,
                    if is_machine_error e
                    then log (''EMULATOR ERROR ('' @ type_name e @ '') during setup: '' @ exn_str t e) con else con)
              | (Inr supported, s') \<Rightarrow>
                  if \<not> supported
                  then Some (Exited 1 None, log ''Unsupported file format. Please provide a .bin or .elf file'' con)
                  else if a_raw_tty args \<and> tcgetattr t \<noteq> None then Some (Uncaught (the (tcgetattr t)), con)
                  else (case intr of
                          Some i \<Rightarrow> Some (end_outcome Interrupted, run_on_terminal t (a_raw_tty args) (a_gdb args) Interrupted (cpu i) con)
                        | None \<Rightarrow>
                            map_option (\<lambda>(r, s''). (end_outcome r, run_on_terminal t (a_raw_tty args) (a_gdb args) r (cpu s'') con))
                              (guest_end h args s'))))"

text \<open>The whole process. \<open>attr\<close>, \<open>log_open\<close> and \<open>isatty\<close> are what \<open>setup_logging\<close> asks the host for.\<close>

definition riscv_emu ::
  "(string \<Rightarrow> log_attr option) \<Rightarrow> exn option \<Rightarrow> bool \<Rightarrow> log_args \<Rightarrow> 't tty_env \<Rightarrow> 'o host_env \<Rightarrow> cli_args \<Rightarrow>
   'o sc_state msys option \<Rightarrow> 't console \<Rightarrow> (outcome \<times> 't console) option" where
  "riscv_emu attr log_open isatty largs t h args intr con =
     (case setup_logging attr log_open isatty (a_raw_tty args) largs of
        Inl e \<Rightarrow> Some (Uncaught e, con)
      | Inr k \<Rightarrow> emulator_on_terminal (t\<lparr>sink := k\<rparr>) h args intr con)"

section \<open>The logger of the web application\<close>

definition BROWSER_COLORS :: "log_level \<rightharpoonup> string" where
  "BROWSER_COLORS = [DEBUG \<mapsto> ansi ''35'', INFO \<mapsto> ansi ''32'', WARNING \<mapsto> ansi ''33'', ERROR \<mapsto> ansi ''31'']"

text \<open>The JavaScript console, one entry per call of \<open>log\<close>, \<open>info\<close>, \<open>warn\<close> or \<open>error\<close>, and the terminal of the page, if there is one.\<close>

record js_page =
  js_console :: "(string \<times> string) list"
  js_terminal :: "string option"

definition terminal_write :: "bool \<Rightarrow> log_level \<Rightarrow> string \<Rightarrow> js_page \<Rightarrow> js_page" where
  "terminal_write write_to_terminal lv msg p =
     (case js_terminal p of
        Some out \<Rightarrow>
          if write_to_terminal
          then p\<lparr>js_terminal := Some (out @
                 (case BROWSER_COLORS lv of Some color \<Rightarrow> color | None \<Rightarrow> []) @ ''['' @ levelname lv @ ''] '' @ msg @ RESET_COLOR @ CRNL)\<rparr>
          else p
      | None \<Rightarrow> p)"

primrec js_method :: "log_level \<Rightarrow> string" where
  "js_method DEBUG = ''log''"
| "js_method INFO = ''info''"
| "js_method WARNING = ''warn''"
| "js_method ERROR = ''error''"

definition BrowserLogger_log :: "string \<Rightarrow> bool \<Rightarrow> log_level \<Rightarrow> string \<Rightarrow> js_page \<Rightarrow> js_page" where
  "BrowserLogger_log name write_to_terminal lv msg p =
     terminal_write write_to_terminal lv msg
       (p\<lparr>js_console := js_console p @ [(js_method lv, ''['' @ name @ ''] '' @ levelname lv @ '': '' @ msg)]\<rparr>)"

section \<open>Lines\<close>

text \<open>A line feed of a text that no carriage return precedes.\<close>

fun bare_nl :: "char \<Rightarrow> string \<Rightarrow> bool" where
  "bare_nl prev [] = False"
| "bare_nl prev (c # cs) \<longleftrightarrow> c = CHR 0x0A \<and> prev \<noteq> CHR 0x0D \<or> bare_nl c cs"

lemma bare_nl_append: "bare_nl p (xs @ ys) \<longleftrightarrow> bare_nl p xs \<or> bare_nl (last (p # xs)) ys"
  by (induction xs arbitrary: p) auto

lemma emit_raw: "\<not> bare_nl p (emit True msg)"
proof -
  have "\<not> bare_nl p (py_replace (CHR 0x0A) CRNL msg)" for p
    by (induction msg arbitrary: p) (auto simp: py_replace_def CRNL_def)
  then show ?thesis by (simp add: emit_def bare_nl_append CRNL_def)
qed

section \<open>Modes\<close>

lemma log_record_modes:
  "tty_settings (log_record k st lv msg c) = tty_settings c" "log_modes (log_record k st lv msg c) = log_modes c @ [tty_settings c]"
  by (simp_all add: log_record_def split: log_sink.split)

lemma log_records_modes:
  "tty_settings (fold (log_record k st lv) msgs c) = tty_settings c \<and>
   (\<exists>n. log_modes (fold (log_record k st lv) msgs c) = log_modes c @ replicate n (tty_settings c))"
proof (induction msgs arbitrary: c)
  case Nil
  show ?case by (auto intro: exI [of _ 0])
next
  case (Cons m ms)
  then show ?case
    using Cons.IH [of "log_record k st lv m c"] by (auto simp: log_record_modes intro: exI [of _ "Suc n" for n])
qed

text \<open>\<open>quiet old c c'\<close>: what was logged between \<open>c\<close> and \<open>c'\<close> was logged under the settings \<open>old\<close>.\<close>

definition quiet :: "'t \<Rightarrow> 't console \<Rightarrow> 't console \<Rightarrow> bool" where
  "quiet old c c' \<longleftrightarrow> (\<exists>n. log_modes c' = log_modes c @ replicate n old)"

lemma restored_modes:
  "tty_settings (print_nl c) = tty_settings c" "log_modes (print_nl c) = log_modes c"
  "log_modes (restore_if raw old c) = log_modes c"
  "tty_settings (restore_if raw old c) = (if raw then old else tty_settings c)"
  "tty_settings (restore_terminal old c) = old" "log_modes (restore_terminal old c) = log_modes c"
  by (simp_all add: print_nl_def restore_if_def restore_terminal_def)

lemma print_registers_modes:
  "tty_settings (print_registers k st r c) = tty_settings c" "tty_settings c = old \<Longrightarrow> quiet old c (print_registers k st r c)"
  using log_records_modes [of k st INFO "register_dump r" c] by (auto simp: print_registers_def quiet_def intro: exI [of _ 0])

lemma quiet_step:
  "quiet old c c" "quiet old c c' \<Longrightarrow> quiet old c' c'' \<Longrightarrow> quiet old c c''"
  "tty_settings c = old \<Longrightarrow> quiet old c (log_record k st lv msg c)"
  "log_modes c' = log_modes c \<Longrightarrow> quiet old c c'"
  by (auto simp: quiet_def log_record_modes simp flip: replicate_add intro: exI [of _ 0] exI [of _ 1])

lemma handle_end_quiet:
  assumes "raw \<or> tty_settings con = old"
  shows "quiet old con (handle_end t raw old r c con)"
proof (cases r)
  case Interrupted
  have "tty_settings (print_nl (restore_if raw old con)) = old" using assms by (auto simp: restored_modes)
  from quiet_step(2) [OF quiet_step(4) quiet_step(3) [OF this], of con] show ?thesis
    by (simp add: Interrupted handle_end_def Let_def restored_modes)
next
  case (Raised e)
  define c1 where "c1 = (if raw then print_nl (restore_terminal old con) else con)"
  have c1: "tty_settings c1 = old" "quiet old con c1" using assms by (auto simp: c1_def restored_modes quiet_step)
  let ?log = "\<lambda>lv msg. log_record (sink t) (stamp t) lv msg"
  have l: "quiet old con (?log lv msg c1)" for lv msg using quiet_step(2) [OF c1(2) quiet_step(3) [OF c1(1)]] .
  have "quiet old con (print_registers (sink t) (stamp t) c (?log lv msg c1))" for lv msg
    by (rule quiet_step(2) [OF l print_registers_modes(2)]) (simp add: log_record_modes c1(1))
  with l show ?thesis
    using quiet_step(4) [of "print_nl (restore_if raw old con)" con old]
    by (auto simp: Raised handle_end_def Let_def restored_modes simp flip: c1_def split: exn.split)
qed (simp add: handle_end_def quiet_step)

lemma handle_end_settings:
  assumes "raw \<or> tty_settings con = old"
  shows "raw \<or> tty_settings (handle_end t raw old r c con) = old"
  using assms
  by (auto simp: handle_end_def Let_def restored_modes log_record_modes print_registers_modes split: run_end.split exn.split)

lemma run_on_terminal_restores:
  "tty_settings (run_on_terminal t raw gdb r c con) = tty_settings con"
  "\<exists>k n. k \<le> (if gdb then 1 else 0) \<and>
     log_modes (run_on_terminal t raw gdb r c con) = log_modes con @ replicate k (setraw t (tty_settings con)) @ replicate n (tty_settings con)"
proof -
  let ?old = "tty_settings con"
  define c1 where "c1 = (if raw then con\<lparr>tty_settings := setraw t ?old\<rparr> else con)"
  define c2 where "c2 = (if gdb then log_record (sink t) (stamp t) INFO (''Starting GDB server on '' @ gdb_address t) c1 else c1)"
  have run: "run_on_terminal t raw gdb r c con = print_nl (restore_if raw ?old (handle_end t raw ?old r c c2))"
    by (simp add: run_on_terminal_def leave_run_def Let_def c1_def c2_def)
  have c2: "raw \<or> tty_settings c2 = ?old" "log_modes c2 = log_modes con @ (if gdb then [if raw then setraw t ?old else ?old] else [])"
    by (simp_all add: c2_def c1_def log_record_modes)
  have h: "quiet ?old c2 (handle_end t raw ?old r c c2)" by (rule handle_end_quiet [OF c2(1)])
  show "tty_settings (run_on_terminal t raw gdb r c con) = ?old"
    using handle_end_settings [OF c2(1)] by (auto simp: run restored_modes)
  obtain n where n: "log_modes (run_on_terminal t raw gdb r c con) = log_modes c2 @ replicate n ?old"
    using h by (auto simp: quiet_def run restored_modes)
  show "\<exists>k n. k \<le> (if gdb then 1 else 0) \<and>
     log_modes (run_on_terminal t raw gdb r c con) = log_modes con @ replicate k (setraw t ?old) @ replicate n ?old"
    by (rule exI [of _ "if gdb \<and> raw then 1 else 0"], rule exI [of _ "if gdb \<and> \<not> raw then Suc n else n"]) (simp add: n c2(2))
qed

lemma emulator_on_terminal_restores:
  assumes "emulator_on_terminal t h args intr con = Some (out, con')"
  shows "tty_settings con' = tty_settings con \<and>
    (\<exists>k n. k \<le> (if a_gdb args then 1 else 0) \<and>
       log_modes con' = log_modes con @ replicate k (setraw t (tty_settings con)) @ replicate n (tty_settings con)) \<and>
    (intr = None \<and> (a_raw_tty args \<longrightarrow> tcgetattr t = None) \<longrightarrow> (\<exists>so. emulator h args = Some (out, so)))"
proof -
  let ?a = "apply_check_all args"
  have g: "a_gdb ?a = a_gdb args" "a_raw_tty ?a = a_raw_tty args" by (simp_all add: apply_check_all_def)
  have *: "P con \<Longrightarrow> (\<And>lv msg. P (log_record (sink t) (stamp t) lv msg con)) \<Longrightarrow>
      (\<And>r c. P (run_on_terminal t (a_raw_tty ?a) (a_gdb args) r c con)) \<Longrightarrow> P con'" for P
    using assms unfolding emulator_on_terminal_def Let_def
    by (auto simp: g split: sum.splits prod.splits if_splits option.splits)
  have "tty_settings con' = tty_settings con" by (rule *) (simp_all add: log_record_modes run_on_terminal_restores)
  moreover have "\<exists>k n. k \<le> (if a_gdb args then 1 else 0) \<and>
       log_modes con' = log_modes con @ replicate k (setraw t (tty_settings con)) @ replicate n (tty_settings con)"
  proof (rule *)
    show "\<exists>k n. k \<le> (if a_gdb args then 1 else 0) \<and>
       log_modes con = log_modes con @ replicate k (setraw t (tty_settings con)) @ replicate n (tty_settings con)"
      by (intro exI [of _ 0]) simp
    show "\<exists>k n. k \<le> (if a_gdb args then 1 else 0) \<and> log_modes (log_record (sink t) (stamp t) lv msg con) =
        log_modes con @ replicate k (setraw t (tty_settings con)) @ replicate n (tty_settings con)" for lv msg
      by (rule exI [of _ 0], rule exI [of _ 1]) (simp add: log_record_modes)
  qed (rule run_on_terminal_restores(2))
  moreover have "\<exists>so. emulator h args = Some (out, so)" if "intr = None \<and> (a_raw_tty args \<longrightarrow> tcgetattr t = None)"
    using assms that g(2) unfolding emulator_on_terminal_def emulator_def Let_def
    by (auto simp: run_guest_def split: sum.splits prod.splits if_splits)
  ultimately show ?thesis by blast
qed

section \<open>Properties\<close>

text \<open>C24. The terminal is as it was whenever the process ends: for every option, host and guest, and also if the user interrupts the
  run at any moment, the settings of the terminal are those before the process, and every message after the run is
  written under these settings; only the announcement of the debugger may be written in raw mode. Without an interrupt the outcome
  is that of the emulator, unless the log cannot be set up or raw mode is asked for and the standard input is no terminal.\<close>

theorem terminal_restored:
  assumes "riscv_emu attr log_open isatty largs t h args intr con = Some (out, con')"
  shows "tty_settings con' = tty_settings con \<and>
    (\<exists>k n. k \<le> (if a_gdb args then 1 else 0) \<and>
       log_modes con' = log_modes con @ replicate k (setraw t (tty_settings con)) @ replicate n (tty_settings con)) \<and>
    (intr = None \<and> (\<exists>k. setup_logging attr log_open isatty (a_raw_tty args) largs = Inr k) \<and> (a_raw_tty args \<longrightarrow> tcgetattr t = None) \<longrightarrow>
       (\<exists>so. emulator h args = Some (out, so)))"
proof (cases "setup_logging attr log_open isatty (a_raw_tty args) largs")
  case (Inl e)
  then show ?thesis using assms by (auto simp: riscv_emu_def intro: exI [of _ 0])
next
  case (Inr k)
  then have "emulator_on_terminal (t\<lparr>sink := k\<rparr>) h args intr con = Some (out, con')" using assms by (simp add: riscv_emu_def)
  from emulator_on_terminal_restores [OF this] show ?thesis by auto
qed

definition demo_tty :: "nat tty_env" where
  "demo_tty = \<lparr>setraw = Suc, stamp = ''000.001s'', exn_str = \<lambda>_. ''exit'', sink = LogTerminal True False, tcgetattr = None, gdb_address = []\<rparr>"

definition demo_console :: "nat console" where
  "demo_console = \<lparr>tty_settings = 7, con_out = [], con_err = [], log_file = [], log_modes = []\<rparr>"

definition demo_log :: log_args where
  "demo_log = \<lparr>a_log = None, a_log_level = ''DEBUG'', a_no_color = True\<rparr>"

theorem terminal_restored_witness:
  "\<exists>con. riscv_emu (\<lambda>_. None) None True demo_log demo_tty demo_env (demo_args\<lparr>a_raw_tty := True\<rparr>) None demo_console =
      Some (Exited 0 (Some (ExecutionTerminated (ExitCode 93))), con) \<and> tty_settings con = 7"
proof -
  let ?e = "riscv_emu (\<lambda>_. None) None True demo_log demo_tty demo_env (demo_args\<lparr>a_raw_tty := True\<rparr>) None demo_console"
  have "map_option fst ?e = Some (Exited 0 (Some (ExecutionTerminated (ExitCode 93))))" by code_simp
  then obtain con where e: "?e = Some (Exited 0 (Some (ExecutionTerminated (ExitCode 93))), con)" by auto
  show ?thesis using terminal_restored [OF e] e by (simp add: demo_console_def)
qed

end
