(* ===== verification/Device_Props.thy ===== *)
theory Device_Props
  imports Mem_Access Cpu_Inv
begin

text \<open>
  Properties of the peripherals as the guest sees them: the receive queue of the UART and the transfers of
  the block device.
\<close>

unbundle bit_operations_syntax

section \<open>The UART\<close>

text \<open>
  What happens at the receiving side: the guest reads the \<open>RX\<close> register, the machine polls the
  peripheral, the host terminal sends bytes. The bytes the guest gets are the values read without the
  flag of an empty buffer.
\<close>

datatype uart_event = Read | Poll | Arrive "8 word list"

fun uart_trace :: "uart_event list \<Rightarrow> pty_uart \<Rightarrow> 8 word list \<times> pty_uart" where
  "uart_trace [] u = ([], u)"
| "uart_trace (Read # es) u =
     (case PtyUART_read32 (uart_base u + 0x04) u of
        (Inr v, u') \<Rightarrow>
          (case uart_trace es u' of (out, u'') \<Rightarrow> (if v AND push_bit 31 1 = 0 then (word_of_int v # out, u'') else (out, u'')))
      | (Inl _, u') \<Rightarrow> uart_trace es u')"
| "uart_trace (Poll # es) u = uart_trace es (PtyUART_run u)"
| "uart_trace (Arrive bs # es) u = uart_trace es (u\<lparr>pty_rx := pty_rx u @ bs\<rparr>)"

fun sent :: "uart_event list \<Rightarrow> 8 word list" where
  "sent [] = []"
| "sent (Arrive bs # es) = bs @ sent es"
| "sent (_ # es) = sent es"

definition queue :: "pty_uart \<Rightarrow> 8 word list" where
  "queue u = rx_buf u @ pty_rx u"

lemma queue_run [simp]: "queue (PtyUART_run u) = queue u" "uart_base (PtyUART_run u) = uart_base u"
  by (simp_all add: queue_def PtyUART_run_def)

lemma run_ready: "rx_buf (PtyUART_run u) = [] \<longleftrightarrow> queue u = []"
  by (auto simp: queue_def PtyUART_run_def)

lemma read_RX:
  obtains "queue u = []" "PtyUART_read32 (uart_base u + 0x04) u = (Inr (push_bit 31 1), PtyUART_run u)"
  | ch u' where "queue u = ch # queue u'" "PtyUART_read32 (uart_base u + 0x04) u = (Inr (uint ch), u')" 
proof (cases "rx_buf (PtyUART_run u)")
  case Nil
  then show thesis using that(1) run_ready [of u] by (simp add: PtyUART_read32_def Let_def)
next
  case (Cons ch rest)
  then have "queue u = ch # queue ((PtyUART_run u)\<lparr>rx_buf := rest\<rparr>)"
    using queue_run(1) [of u] by (simp add: queue_def)
  then show thesis using that(2) Cons by (simp add: PtyUART_read32_def Let_def)
qed

lemma byte_no_flag: "uint (ch :: 8 word) AND push_bit 31 1 = 0"
proof -
  have "\<not> bit (uint ch) 31" using bit_imp_le_length [of ch 31] by (auto simp: bit_uint_iff)
  then show ?thesis using and_exp_iff_bit [of "uint ch" 31] by simp
qed

text \<open>C34. The UART neither loses, duplicates nor reorders received bytes: along any interleaving of reads, polls and
  arrivals, the bytes read so far followed by those still queued are the bytes queued at the start
  followed by those that arrived; and a read finds the buffer empty only if no byte is queued.\<close>

theorem uart_fifo:
  "(case uart_trace es u of (out, u') \<Rightarrow> out @ queue u' = queue u @ sent es) \<and>
   fst (PtyUART_read32 (uart_base u + 0x04) u) =
     Inr (case queue u of [] \<Rightarrow> push_bit 31 1 | ch # _ \<Rightarrow> uint ch)"
proof
  show "case uart_trace es u of (out, u') \<Rightarrow> out @ queue u' = queue u @ sent es"
  proof (induction es arbitrary: u)
    case (Cons e es)
    show ?case
    proof (cases e)
      case Read
      show ?thesis
      proof (cases u rule: read_RX)
        case 1
        then show ?thesis using Cons [of "PtyUART_run u"] Read by (simp split: prod.splits)
      next
        case (2 ch u')
        then show ?thesis using Cons [of u'] Read byte_no_flag [of ch] by (simp split: prod.splits)
      qed
    next
      case (Arrive bs)
      then show ?thesis using Cons [of "u\<lparr>pty_rx := pty_rx u @ bs\<rparr>"] by (simp add: queue_def)
    qed (use Cons [of "PtyUART_run u"] in simp)
  qed simp
  show "fst (PtyUART_read32 (uart_base u + 0x04) u) = Inr (case queue u of [] \<Rightarrow> push_bit 31 1 | ch # _ \<Rightarrow> uint ch)"
    by (cases u rule: read_RX) simp_all
qed

section \<open>The block device\<close>

text \<open>The register writes by which a guest driver starts a transfer.\<close>

definition blk_request :: "int \<Rightarrow> int \<Rightarrow> int \<Rightarrow> (block_dev \<times> ram, unit) py" where
  "blk_request cmd n p = (\<lambda>(d, R).
     py_then (MMIOBlockDevice_write32 (blk_base d + 0x00) cmd)
       (py_then (MMIOBlockDevice_write32 (blk_base d + 0x04) n)
         (py_then (MMIOBlockDevice_write32 (blk_base d + 0x08) p)
           (MMIOBlockDevice_write32 (blk_base d + 0x0C) 1))) (d, R))"

lemma blk_request_execute:
  "blk_request cmd n p (d, R) = execute_cmd (d\<lparr>blk_cmd := cmd, blk_no := n, blk_ptr := p\<rparr>, R)"
  by (simp add: blk_request_def py_then_def py_bind_def MMIOBlockDevice_write32_def)

definition block :: "block_dev \<Rightarrow> nat \<Rightarrow> 8 word list" where
  "block d m = file_read (image d) (nat (int m * block_size d)) (block_size d)"

lemma blocks_apart:
  fixes m n b :: nat
  assumes "m \<noteq> n"
  shows "m * b + b \<le> n * b \<or> n * b + b \<le> m * b"
  using assms by (metis add.commute linorder_neqE_nat mult_Suc mult_le_mono1 Suc_leI)

lemma file_write_inside:
  assumes "off + length bs \<le> length f"
  shows "file_write f off bs = put_bytes f off bs"
  using assms by (simp add: file_write_def put_bytes_def)

lemma take_put_bytes:
  assumes "off + length bs \<le> length f" "k + n \<le> off \<or> off + length bs \<le> k"
  shows "take n (drop k (put_bytes f off bs)) = take n (drop k f)"
  using assms by (auto intro!: nth_equalityI simp: nth_put_bytes)

lemma binary_access:
  assumes "ram_class R \<noteq> SafeRAMOffset" "ram_wf R"
  shows "safe_valid R a n \<Longrightarrow> ram_load_binary a (int n) R = (Inr (take n (drop (nat a) (memory R))), R)"
    and "safe_valid R a (length bs) \<Longrightarrow> ram_store_binary a bs R = (Inr (), ram_put R a bs)"
proof -
  assume v: "safe_valid R a n"
  show "ram_load_binary a (int n) R = (Inr (take n (drop (nat a) (memory R))), R)"
    using assms(1) safe_load_binary [OF assms(2) v] py_slice_in [of a n "memory R"] v assms(2)
    by (auto simp: ram_load_binary_def RAM_load_binary_def safe_valid_def ram_wf_def py_defs split: ram_class.split)
next
  assume v: "safe_valid R a (length bs)"
  show "ram_store_binary a bs R = (Inr (), ram_put R a bs)"
    using assms(1) safe_store_binary [OF assms(2) v] mem_store_slice_valid [OF safe_imp_ram_valid [OF assms(2) v]]
    by (auto simp: ram_store_binary_def RAM_store_binary_def split: ram_class.split)
qed

text \<open>C33. A block written to the device is read back: in the memory classes that take peripherals (and any other but \<open>SafeRAMOffset\<close>), a guest that
  writes block \<open>n\<close> of the image from one buffer inside the memory and later, with whatever the memory then holds, reads it into another finds the
  bytes it wrote, and nothing else of the memory changes; the other blocks of
  the image stay as they were.\<close>

theorem block_roundtrip:
  assumes "ram_class R \<noteq> SafeRAMOffset" "ram_wf R" "safe_valid R p b"
    and "ram_class R' \<noteq> SafeRAMOffset" "ram_wf R'" "safe_valid R' q b"
    and "block_size d = int b" "0 < b" "num_blocks d = int N" "n < N" "N * b \<le> length (image d)"
  shows "\<exists>d' d''. blk_request 1 (int n) p (d, R) = (Inr (), (d', R)) \<and>
    blk_request 0 (int n) q (d', R') = (Inr (), (d'', ram_put R' q (take b (drop (nat p) (memory R))))) \<and>
    (\<forall>m. m \<noteq> n \<and> m < N \<longrightarrow> block d' m = block d m)"
proof -
  let ?bs = "take b (drop (nat p) (memory R))" and ?img = "put_bytes (image d) (n * b) (take b (drop (nat p) (memory R)))"
  have len: "length ?bs = b" using assms(2,3) by (auto simp: ram_wf_def safe_valid_def)
  have fit: "m * b + b \<le> length (image d)" if "m < N" for m
    using that assms(11) mult_le_mono1 [of "Suc m" N b] by simp
  have off: "int n * int b < int N * int b" "nat (int m * int b) = m * b" "\<not> int m * int b < 0" for m
    using assms(8,10) by (simp_all add: nat_mult_distrib not_less)
  let ?d = "d\<lparr>blk_cmd := 1, blk_no := int n, blk_ptr := p, image := ?img, blk_status := 1\<rparr>"
  have w: "blk_request 1 (int n) p (d, R) = (Inr (), (?d, R))"
    using binary_access(1) [OF assms(1,2,3)] assms(7,9) off fit [OF assms(10)] len
    by (simp add: blk_request_execute execute_cmd_def file_write_inside Let_def)
  have img: "take b (drop (n * b) ?img) = ?bs"
    using fit [OF assms(10)] len by (auto intro!: nth_equalityI simp: nth_put_bytes)
  have r: "blk_request 0 (int n) q (?d, R') = (Inr (), (?d\<lparr>blk_cmd := 0, blk_ptr := q\<rparr>, ram_put R' q ?bs))"
    using binary_access(2) [OF assms(4,5), of q ?bs] assms(6,7,9) off len img
    by (simp add: blk_request_execute execute_cmd_def file_read_def Let_def)
  have "block ?d m = block d m" if "m \<noteq> n \<and> m < N" for m
    using take_put_bytes [of "n * b" ?bs "image d" "m * b" b] fit [OF assms(10)] len blocks_apart [of m n b] that assms(7)
    by (auto simp: block_def file_read_def off(2))
  with w r show ?thesis by blast
qed

definition demo_block :: block_dev where
  "demo_block = (MMIOBlockDevice_init 0x10010000 None 4 2)"

theorem block_roundtrip_witness:
  "\<exists>d' d''. blk_request 1 1 0 (demo_block, demo_ram RAM_MMIO) = (Inr (), (d', demo_ram RAM_MMIO)) \<and>
    blk_request 0 1 8 (d', demo_ram SafeRAM_MMIO) =
      (Inr (), (d'', ram_put (demo_ram SafeRAM_MMIO) 8 (take 4 (memory (demo_ram RAM_MMIO))))) \<and>
    block d' 0 = block demo_block 0"
proof -
  have "ram_class (demo_ram RAM_MMIO) \<noteq> SafeRAMOffset" "ram_class (demo_ram SafeRAM_MMIO) \<noteq> SafeRAMOffset"
      "safe_valid (demo_ram RAM_MMIO) 0 4" "safe_valid (demo_ram SafeRAM_MMIO) 8 4"
      "block_size demo_block = int 4" "num_blocks demo_block = int 2" "2 * 4 \<le> length (image demo_block)"
    by (simp_all add: demo_ram_def safe_valid_def demo_block_def MMIOBlockDevice_init_def)
  from block_roundtrip [OF this(1) demo_ram_wf this(3) this(2) demo_ram_wf this(4) this(5) _ this(6) _ this(7), of 1]
  show ?thesis by force
qed

end
