(* ===== verification/Browser_Syscalls.thy ===== *)
theory Browser_Syscalls
  imports Syscalls_Props
begin

text \<open>
  Class \<open>BrowserSyscallHandler\<close> of \<open>browser_syscalls.py\<close>: the system calls of the guest in the web
  application, where the terminal is a JavaScript object and files are not supported.

  The callback that writes to the terminal is the parameter \<open>js_write\<close> on a state \<open>'o\<close> of the page; it
  returns whether it succeeded, since its exceptions are caught. \<open>input_buffer\<close> is the array
  \<open>emulatorTerminal.inputBuffer\<close> of numbers the page has put there. The callbacks may be absent.

  The handler satisfies the contract of the CPU with its \<open>ecall\<close> handler (the interpretation
  \<open>browser\<close>), and it agrees with the handler of \<open>syscalls.py\<close> on the calls both support.
\<close>

unbundle bit_operations_syntax

section \<open>State\<close>

record 'o page =
  has_write_callback :: bool
  has_read_callback :: bool
  input_buffer :: "int list"
  page_state :: 'o

record 'o browser_state =
  b_umask :: int
  b_page :: "'o page"

type_synonym ('o, 'a) bsc = "('o browser_state msys, 'a) py"

definition BrowserSyscallHandler_init :: "'o page \<Rightarrow> 'o browser_state" where
  "BrowserSyscallHandler_init p = \<lparr>b_umask = 18, b_page = p\<rparr>"

definition EAGAIN :: int where "EAGAIN = 11"

definition the_page :: "'o browser_state msys \<Rightarrow> 'o page" where
  "the_page s = b_page (handler (host s))"

definition upd_page :: "('o page \<Rightarrow> 'o page) \<Rightarrow> ('o, unit) bsc" where
  "upd_page f = py_modify (\<lambda>s. s\<lparr>host := (host s)\<lparr>handler := (handler (host s))\<lparr>b_page := f (b_page (handler (host s)))\<rparr>\<rparr>\<rparr>)"

section \<open>System calls\<close>

definition browser_exit :: "('o, unit) bsc" where
  "browser_exit s =
     (Inl (ExecutionTerminated (ExitCode (to_signed (reg 10 s)))), s\<lparr>cpu := (cpu s)\<lparr>pc := next_pc (cpu s)\<rparr>\<rparr>)"

definition browser_sbrk :: "('o, unit) bsc" where
  "browser_sbrk s =
     (case (stack_bottom (mach (host s)), heap_end (mach (host s))) of
        (None, _) \<Rightarrow> (Inl InvalidSyscallError, s)
      | (Some _, None) \<Rightarrow> (Inl TypeError, s)
      | (Some bottom, Some old_heap_end) \<Rightarrow>
          let new_heap_end = old_heap_end + reg 10 s
          in if new_heap_end \<ge> bottom then set_a0 0xFFFFFFFF s
             else py_then (set_heap_end new_heap_end) (set_a0 old_heap_end) s)"

definition browser_write :: "(8 word list \<Rightarrow> 'o \<Rightarrow> bool \<times> 'o) \<Rightarrow> ('o, unit) bsc" where
  "browser_write js_write s =
     (let fd = reg 10 s; count = reg 12 s in
      py_bind (load_binary (reg 11 s) count) (\<lambda>data.
        if fd = 1 \<or> fd = 2 then
          if has_write_callback (the_page s) then
            (case js_write data (page_state (the_page s)) of
               (ok, p) \<Rightarrow> py_then (upd_page (\<lambda>g. g\<lparr>page_state := p\<rparr>)) (set_a0 (if ok then count else - EIO)))
          else set_a0 count
        else set_a0 (- EBADF)) s)"

text \<open>\<open>bytes(data_list)\<close> refuses numbers that are not bytes.\<close>

definition to_bytes :: "int list \<Rightarrow> ('s, 8 word list) py" where
  "to_bytes ns = (if list_all (\<lambda>n. 0 \<le> n \<and> n < 256) ns then py_return (map word_of_int ns) else py_raise ValueError)"

definition browser_read :: "('o, unit) bsc" where
  "browser_read s =
     (let fd = reg 10 s; addr = reg 11 s; count = reg 12 s in
      (if fd = 0 then
         if has_read_callback (the_page s) then
           let available = int (length (input_buffer (the_page s)))
           in if available = 0 then set_a0 (- EAGAIN)
              else let k = nat (min count available)
                   in py_except (\<lambda>_. True)
                        (py_then (upd_page (\<lambda>g. g\<lparr>input_buffer := drop k (input_buffer g)\<rparr>))
                          (py_bind (to_bytes (take k (input_buffer (the_page s)))) (\<lambda>data_bytes.
                            py_then (store_binary addr data_bytes) (set_a0 (int (length data_bytes))))))
                        (set_a0 (- EIO))
         else set_a0 0
       else set_a0 (- EBADF)) s)"

definition browser_fstat :: "('o, unit) bsc" where
  "browser_fstat s =
     (let fd = reg 10 s; buf_ptr = reg 11 s in
      (if fd = 0 \<or> fd = 1 \<or> fd = 2 then put_stat buf_ptr (0x2000 OR 0x1B6) 0 else set_a0 (- EBADF)) s)"

definition browser_isatty :: "('o, unit) bsc" where
  "browser_isatty s = (let fd = reg 10 s in (if fd = 0 \<or> fd = 1 \<or> fd = 2 then set_a0 1 else set_a0 0) s)"

definition browser_getpid :: "('o, unit) bsc" where
  "browser_getpid = set_a0 1"

definition browser_umask :: "('o, unit) bsc" where
  "browser_umask s =
     (let new_mask = reg 10 s; old_mask = b_umask (handler (host s))
      in py_then (py_modify (\<lambda>s. s\<lparr>host := (host s)\<lparr>handler := (handler (host s))\<lparr>b_umask := new_mask\<rparr>\<rparr>\<rparr>))
           (set_a0 old_mask) s)"

definition browser_openat :: "('o, unit) bsc" where "browser_openat = set_a0 (- ENOSYS)"
definition browser_close :: "('o, unit) bsc" where "browser_close = set_a0 (- ENOSYS)"
definition browser_lseek :: "('o, unit) bsc" where "browser_lseek = set_a0 (- ENOSYS)"
definition browser_kill :: "('o, unit) bsc" where "browser_kill = set_a0 (- ENOSYS)"
definition browser_mkdirat :: "('o, unit) bsc" where "browser_mkdirat = set_a0 (- ENOSYS)"
definition browser_unlinkat :: "('o, unit) bsc" where "browser_unlinkat = set_a0 (- ENOSYS)"

section \<open>Dispatch\<close>

definition browser_handler :: "(8 word list \<Rightarrow> 'o \<Rightarrow> bool \<times> 'o) \<Rightarrow> int \<Rightarrow> ('o, unit) bsc option" where
  "browser_handler js_write n =
     (if n = 93 then Some browser_exit
      else if n = 214 then Some browser_sbrk
      else if n = 64 then Some (browser_write js_write)
      else if n = 63 then Some browser_read
      else if n = 1024 then Some browser_openat
      else if n = 57 then Some browser_close
      else if n = 62 then Some browser_lseek
      else if n = 80 then Some browser_fstat
      else if n = 89 then Some browser_isatty
      else if n = 129 then Some browser_kill
      else if n = 172 then Some browser_getpid
      else if n = 60 then Some browser_umask
      else if n = 34 then Some browser_mkdirat
      else if n = 35 then Some browser_unlinkat
      else None)"

definition browser_handle :: "(8 word list \<Rightarrow> 'o \<Rightarrow> bool \<times> 'o) \<Rightarrow> ('o, unit) bsc" where
  "browser_handle js_write s =
     (case browser_handler js_write (reg 17 s) of
        Some h \<Rightarrow> h s
      | None \<Rightarrow> set_a0 (- ENOSYS) s)"

section \<open>The handler keeps the system invariant\<close>

lemma keeps_upd_page [py_keeps_intros]: "py_keeps (sys_inv r md) (upd_page f)"
  by (simp add: py_keeps_def upd_page_def py_modify_def sys_inv_host)

lemma keeps_to_bytes [py_keeps_intros]: "py_keeps P (to_bytes ns)"
  unfolding to_bytes_def by (intro py_keeps_intros)

lemma keeps_stubbed:
  "py_keeps (sys_inv False md) browser_openat" "py_keeps (sys_inv False md) browser_close"
  "py_keeps (sys_inv False md) browser_lseek" "py_keeps (sys_inv False md) browser_kill"
  "py_keeps (sys_inv False md) browser_mkdirat" "py_keeps (sys_inv False md) browser_unlinkat"
  "py_keeps (sys_inv False md) browser_getpid"
  unfolding browser_openat_def browser_close_def browser_lseek_def browser_kill_def browser_mkdirat_def
    browser_unlinkat_def browser_getpid_def
  by (intro py_keeps_intros)+

lemma keeps_browser_exit: "py_keeps (sys_inv False md) browser_exit"
  by (auto simp: py_keeps_def browser_exit_def sys_inv_def cpu_inv_def)

lemma keeps_browser_sbrk: "py_keeps (sys_inv False md) browser_sbrk"
  unfolding py_keeps_def browser_sbrk_def Let_def
  by (auto split: option.split intro!: after py_keeps_intros)

lemma keeps_browser_write: "py_keeps (sys_inv False md) (browser_write w)"
  unfolding py_keeps_def browser_write_def Let_def
  by (auto split: prod.split intro!: after py_keeps_intros)

lemma keeps_browser_read: "py_keeps (sys_inv False md) browser_read"
  unfolding py_keeps_def browser_read_def Let_def
  by (auto intro!: after py_keeps_intros py_keepsD [OF py_keeps_except])

lemma keeps_browser_fstat: "py_keeps (sys_inv False md) browser_fstat"
  unfolding py_keeps_def browser_fstat_def Let_def
  by (auto intro!: after keeps_put_stat [THEN py_keepsD])

lemma keeps_browser_isatty: "py_keeps (sys_inv False md) browser_isatty"
  unfolding py_keeps_def browser_isatty_def Let_def by (auto intro!: after)

lemma keeps_browser_umask: "py_keeps (sys_inv False md) browser_umask"
  unfolding py_keeps_def browser_umask_def Let_def
  by (auto intro!: after py_keeps_intros py_keeps_modify simp: sys_inv_host)

lemma keeps_browser_handle: "py_keeps (sys_inv False md) (browser_handle w)"
proof -
  have "py_keeps (sys_inv False md) h" if "browser_handler w n = Some h" for n h
    using that keeps_browser_exit keeps_browser_sbrk keeps_browser_write keeps_browser_read keeps_browser_fstat
      keeps_browser_isatty keeps_browser_umask keeps_stubbed
    by (auto simp: browser_handler_def split: if_splits)
  then show ?thesis
    by (auto simp: py_keeps_def [of _ "browser_handle w"] browser_handle_def split: option.split intro!: after dest: py_keepsD)
qed

interpretation browser: ecall_contract False md "Some (browser_handle w)" for md w
  by unfold_locales (simp add: keeps_browser_handle)

section \<open>Agreement with the handler of the command line emulator\<close>

text \<open>Two systems in the same state, but for the state behind their handlers.\<close>

definition same_machine :: "'a msys \<Rightarrow> 'b msys \<Rightarrow> bool" where
  "same_machine s t \<longleftrightarrow> cpu s = cpu t \<and> ram s = ram t \<and> devices s = devices t \<and> mmio_ranges s = mmio_ranges t \<and>
     runners s = runners t \<and> mach (host s) = mach (host t)"

text \<open>The calls that both handlers serve in the same way.\<close>

definition shared_call :: "cpu \<Rightarrow> bool" where
  "shared_call c \<longleftrightarrow>
     registers c 17 \<in> {93, 214, 129, 172} \<or>
     registers c 17 \<in> {80, 89} \<and> registers c 10 \<in> {0, 1, 2} \<or>
     registers c 17 = 64 \<and> registers c 10 \<in> {1, 2}"

lemma same_on_cpu:
  assumes "same_machine s t"
  shows "fst (on_cpu m s) = fst (on_cpu m t)" "same_machine (snd (on_cpu m s)) (snd (on_cpu m t))"
  using assms by (auto simp: same_machine_def on_cpu_def py_zoom_def split: prod.split)

lemma same_on_ram:
  assumes "same_machine s t"
  shows "fst (on_ram m s) = fst (on_ram m t)" "same_machine (snd (on_ram m s)) (snd (on_ram m t))"
  using assms by (auto simp: same_machine_def on_ram_def py_zoom_def split: prod.split)

definition agree :: "('a msys, 'r) py \<Rightarrow> ('b msys, 'r) py \<Rightarrow> bool" where
  "agree f g \<longleftrightarrow> (\<forall>s t. same_machine s t \<longrightarrow> fst (f s) = fst (g t) \<and> same_machine (snd (f s)) (snd (g t)))"

lemma agree_then: "agree f g \<Longrightarrow> agree f' g' \<Longrightarrow> agree (py_then f f') (py_then g g')"
  by (fastforce simp: agree_def py_then_def py_bind_def split: prod.splits sum.splits)

lemma agree_a0: "agree (set_a0 v) (set_a0 v)"
  using same_on_cpu by (auto simp: agree_def set_a0_def)

lemma agree_put_stat: "agree (put_stat p m z) (put_stat p m z)"
  unfolding put_stat_def store_binary_def
  using same_on_ram by (auto intro!: agree_then agree_a0 simp: agree_def [of "on_ram _"]) (auto simp: agree_def py_raise_def)

lemma agree_heap_end: "agree (set_heap_end a) (set_heap_end a)"
  by (auto simp: agree_def set_heap_end_def on_mach_def py_zoom_def py_modify_def same_machine_def)

lemma agreeD:
  assumes "agree f g" "same_machine s t"
  shows "fst (f s) = fst (g t) \<and> same_machine (snd (f s)) (snd (g t))"
  using assms by (simp add: agree_def)

lemma agree_exit: "agree handle_exit browser_exit"
  by (auto simp: agree_def handle_exit_def browser_exit_def reg_def same_machine_def)

lemma agree_sbrk: "agree handle_sbrk browser_sbrk"
proof -
  have "fst (handle_sbrk s) = fst (browser_sbrk t) \<and> same_machine (snd (handle_sbrk s)) (snd (browser_sbrk t))"
    if st: "same_machine s t" for s :: "'a sc_state msys" and t :: "'b browser_state msys"
  proof -
    have "mach (host s) = mach (host t)" "reg 10 s = reg 10 t" using st by (simp_all add: same_machine_def reg_def)
    then show ?thesis
      using st agreeD [OF agree_a0 st] agreeD [OF agree_then [OF agree_heap_end agree_a0] st]
      by (simp add: handle_sbrk_def browser_sbrk_def Let_def split: option.split)
  qed
  then show ?thesis by (simp add: agree_def)
qed

lemma agree_write:
  fixes s :: "'a sc_state msys" and t :: "'b browser_state msys"
  assumes st: "same_machine s t" and fd: "registers (cpu s) 10 \<in> {1, 2}" and js: "\<And>data p. fst (js_write data p)"
  shows "fst (handle_write os s) = fst (browser_write js_write t) \<and>
    same_machine (snd (handle_write os s)) (snd (browser_write js_write t))"
proof -
  have r: "reg i s = reg i t" for i using st by (simp add: same_machine_def reg_def)
  have fd': "reg 10 t = 1 \<or> reg 10 t = 2" using fd r [of 10] by (simp add: reg_def)
  obtain out s1 t1 where l: "load_binary (reg 11 t) (reg 12 t) s = (out, s1)" "load_binary (reg 11 t) (reg 12 t) t = (out, t1)"
      "same_machine s1 t1"
    using same_on_ram [OF st] unfolding load_binary_def by (metis prod.collapse)
  have sc: "same_machine (snd (upd_sc f s')) t'" if "same_machine s' t'" for f and s' :: "'a sc_state msys" and t' :: "'b browser_state msys"
    using that by (simp add: upd_sc_def py_modify_def same_machine_def)
  have pg: "same_machine s' (snd (upd_page f t'))" if "same_machine s' t'" for f and s' :: "'a sc_state msys" and t' :: "'b browser_state msys"
    using that by (simp add: upd_page_def py_modify_def same_machine_def)
  have a0: "fst (set_a0 v s') = fst (set_a0 v t') \<and> same_machine (snd (set_a0 v s')) (snd (set_a0 v t'))"
    if "same_machine s' t'" for v and s' :: "'a sc_state msys" and t' :: "'b browser_state msys"
    using agreeD [OF agree_a0 that] .
  show ?thesis
  proof (cases out)
    case (Inr data)
    obtain ok p where w: "js_write data (page_state (the_page t)) = (ok, p)" by (cases "js_write data (page_state (the_page t))")
    have ok using js [of data "page_state (the_page t)"] w by simp
    then show ?thesis
      using l fd' w a0 [OF sc [OF l(3)]] a0 [OF sc [OF pg [OF l(3)]]] Inr
      by (simp add: handle_write_def browser_write_def r py_bind_def py_then_def upd_sc_def upd_page_def py_modify_def Let_def)
  qed (use l in \<open>simp add: handle_write_def browser_write_def r py_bind_def Let_def\<close>)
qed

text \<open>C30. On the calls that both serve, the handler of the web application and that of the command line emulator give the
  same result and leave registers, memory and heap in the same state, if the page accepts the output:
  \<open>exit\<close>, \<open>sbrk\<close>, \<open>kill\<close>, \<open>getpid\<close>, \<open>fstat\<close> and \<open>isatty\<close> on the standard streams, and \<open>write\<close> to the terminal.\<close>

theorem browser_agrees:
  fixes s :: "'a sc_state msys" and t :: "'b browser_state msys"
  assumes "same_machine s t" "shared_call (cpu s)" "\<And>data p. fst (js_write data p)"
  shows "fst (handle os s) = fst (browser_handle js_write t) \<and>
    same_machine (snd (handle os s)) (snd (browser_handle js_write t))"
proof -
  have r: "reg i s = reg i t" "registers (cpu s) i = reg i t" for i using assms(1) by (simp_all add: same_machine_def reg_def)
  consider "reg 17 t = 93" | "reg 17 t = 214" | "reg 17 t = 129" | "reg 17 t = 172"
    | "reg 17 t = 80" "reg 10 t \<in> {0, 1, 2}" | "reg 17 t = 89" "reg 10 t \<in> {0, 1, 2}"
    | "reg 17 t = 64" "reg 10 t \<in> {1, 2}"
    using assms(2) by (auto simp: shared_call_def r)
  then show ?thesis
  proof cases
    case 1
    then show ?thesis using agreeD [OF agree_exit assms(1)]
      by (simp add: handle_def browser_handle_def syscall_handler_def browser_handler_def r)
  next
    case 2
    then show ?thesis using agreeD [OF agree_sbrk assms(1)]
      by (simp add: handle_def browser_handle_def syscall_handler_def browser_handler_def r)
  next
    case 7
    then show ?thesis using agree_write [OF assms(1) _ assms(3)]
      by (simp add: handle_def browser_handle_def syscall_handler_def browser_handler_def r)
  next
    case 5
    then show ?thesis using agreeD [OF agree_put_stat assms(1)]
      by (simp add: handle_def browser_handle_def syscall_handler_def browser_handler_def r handle_fstat_def browser_fstat_def Let_def)
  qed (use agreeD [OF agree_a0 assms(1)] in
      \<open>simp add: handle_def browser_handle_def syscall_handler_def browser_handler_def r handle_kill_def browser_kill_def
        handle_getpid_def browser_getpid_def handle_isatty_def browser_isatty_def Let_def\<close>)+
qed

definition demo_page :: "8 word list page" where
  "demo_page = \<lparr>has_write_callback = True, has_read_callback = True, input_buffer = [104, 105], page_state = []\<rparr>"

definition in_browser :: "'a msys \<Rightarrow> 'o page \<Rightarrow> 'o browser_state msys" where
  "in_browser s p = \<lparr>cpu = cpu s, ram = ram s, devices = devices s, mmio_ranges = mmio_ranges s, runners = runners s,
     host = \<lparr>mach = mach (host s), handler = BrowserSyscallHandler_init p\<rparr>\<rparr>"

theorem browser_agrees_witness:
  "fst (handle demo_os (demo_call False 64 1 0 3)) =
     fst (browser_handle (\<lambda>d p. (True, p @ d)) (in_browser (demo_call False 64 1 0 3) demo_page))"
proof -
  have m: "same_machine (demo_call False 64 1 0 3) (in_browser (demo_call False 64 1 0 3) demo_page)"
    by (simp add: same_machine_def in_browser_def)
  have c: "shared_call (cpu (demo_call False 64 1 0 3))" by (simp add: shared_call_def demo_call_def Let_def)
  show ?thesis using browser_agrees [OF m c, of "\<lambda>d p. (True, p @ d)" demo_os] by simp
qed

end
