(* ===== verification/Browser_Entry.thy ===== *)
theory Browser_Entry
  imports Browser_Syscalls
begin

text \<open>
  Module \<open>browser_entry.py\<close>: the emulator of the web application as a state machine. The page calls
  \<open>initialize\<close>, \<open>load_file\<close>, \<open>start\<close>, \<open>stop\<close>, \<open>reset\<close>, \<open>run_chunk\<close> and \<open>update_options\<close>; execution proceeds
  in chunks of instructions between which the page is responsive.

  The global \<open>state\<close> is the record \<open>emu\<close>. CPU, memory, machine and system call handler are created
  together, in \<open>e_sys\<close>. The files of the page are the parameter \<open>fs\<close>, which gives for a path what
  \<open>pyelftools\<close> reports of it as an ELF file, and its bytes, or the exception of opening or parsing it.
  \<open>e_exit\<close> is the exception that \<open>exit_info\<close> describes. Log messages are not modelled, except where
  formatting one raises.
\<close>

unbundle bit_operations_syntax

section \<open>State\<close>

record b_options =
  o_trace_traps :: bool
  o_trace_functions :: bool
  o_check_inv :: bool
  o_check_ram :: bool
  o_check_text :: bool
  o_timer :: bool
  o_rvc :: bool
  o_regs :: "string list"
  o_ram_size :: int

text \<open>What \<open>options.get\<close> gives on an empty dictionary.\<close>

definition default_options :: b_options where
  "default_options =
     \<lparr>o_trace_traps = False, o_trace_functions = False, o_check_inv = False, o_check_ram = False, o_check_text = False,
      o_timer = False, o_rvc = False, o_regs = [], o_ram_size = 1024 * 1024\<rparr>"

record 'o emu =
  e_sys :: "'o browser_state msys option"
  e_page :: "'o page"                        \<comment> \<open>the page before the first initialization\<close>
  e_regs :: "string list"                    \<comment> \<open>\<open>machine.regs\<close>\<close>
  e_logger :: bool
  e_options :: b_options
  e_running :: bool
  e_count :: nat
  e_exit :: "exn option"
  e_initialized :: bool
  e_loaded :: bool
  e_path :: "string option"
  e_type :: "string option"
  e_pc :: int
  e_heap :: int
  e_reset_pc :: bool

definition EmulatorState_init :: "'o page \<Rightarrow> 'o emu" where
  "EmulatorState_init p =
     \<lparr>e_sys = None, e_page = p, e_regs = [], e_logger = False, e_options = default_options, e_running = False,
      e_count = 0, e_exit = None, e_initialized = False, e_loaded = False, e_path = None, e_type = None,
      e_pc = 0, e_heap = 0, e_reset_pc = True\<rparr>"

definition page_of :: "'o emu \<Rightarrow> 'o page" where
  "page_of st = (case e_sys st of None \<Rightarrow> e_page st | Some s \<Rightarrow> the_page s)"

definition on_sys :: "('o, 'a) bsc \<Rightarrow> ('o emu, 'a) py" where
  "on_sys m st =
     (case e_sys st of
        None \<Rightarrow> (Inl AttributeError, st)
      | Some s \<Rightarrow> (case m s of (r, s') \<Rightarrow> (r, st\<lparr>e_sys := Some s'\<rparr>)))"

section \<open>Initialization and loading\<close>

definition ram_class_for :: "bool \<Rightarrow> bool \<Rightarrow> ram_class" where
  "ram_class_for use_mmio check_ram =
     (if \<not> use_mmio \<and> \<not> check_ram then RAM
      else if use_mmio \<and> \<not> check_ram then RAM_MMIO
      else if \<not> use_mmio \<and> check_ram then SafeRAM
      else SafeRAM_MMIO)"

definition new_system :: "b_options \<Rightarrow> 'o page \<Rightarrow> ram \<Rightarrow> cpu \<Rightarrow> machine \<Rightarrow> 'o browser_state msys" where
  "new_system options p R c m =
     (let s = \<lparr>cpu = c, ram = R, devices = (if o_timer options then [Timer MMIOTimer_init] else []),
               mmio_ranges = [], runners = [], host = \<lparr>mach = m, handler = BrowserSyscallHandler_init p\<rparr>\<rparr>
      in if o_timer options then machine_register_peripheral 0 (ram_register_peripheral 0 s) else s)"

definition initialize :: "b_options \<Rightarrow> ('o emu, bool) py" where
  "initialize options st =
     (let st = st\<lparr>e_logger := True, e_options := options\<rparr>;
          timer = o_timer options
      in case RAM_init (\<lambda>_. 0) (ram_class_for timer (o_check_ram options)) 0 (o_ram_size options) (Some ''zero'') 4 of
           Inl e \<Rightarrow> (Inl e, st)
         | Inr R \<Rightarrow>
             (case CPU_init (\<lambda>_. 0) (o_rvc options) None True (o_trace_traps options) of
                Inl e \<Rightarrow> (Inl e, st)
              | Inr c \<Rightarrow>
                  (case Machine_init timer timer (o_rvc options) True (o_trace_functions options) None (o_check_inv options) None of
                     Inl e \<Rightarrow> (Inl e, st)
                   | Inr m \<Rightarrow>
                       (Inr True, st\<lparr>e_sys := Some (new_system options (page_of st) R c m),
                                     e_regs := o_regs options, e_initialized := True\<rparr>))))"

definition truthy :: "int option \<Rightarrow> bool" where
  "truthy v = (case v of None \<Rightarrow> False | Some x \<Rightarrow> x \<noteq> 0)"

definition or_zero :: "int option \<Rightarrow> int" where
  "or_zero v = (case v of None \<Rightarrow> 0 | Some x \<Rightarrow> x)"

definition loaded_ok :: "string \<Rightarrow> ('o emu, bool) py" where
  "loaded_ok filepath st =
     (case e_sys st of
        None \<Rightarrow> (Inl AttributeError, st)
      | Some s \<Rightarrow>
          (Inr True, st\<lparr>e_pc := pc (cpu s), e_heap := or_zero (heap_end (mach (host s))), e_path := Some filepath,
                        e_loaded := True, e_count := 0, e_reset_pc := True\<rparr>))"

text \<open>
  After an ELF file: the message on the stack formats both bounds once the top is set; then the layout
  must fit the memory.
\<close>

definition check_layout :: "string \<Rightarrow> ('o emu, bool) py" where
  "check_layout filepath st =
     (case e_sys st of
        None \<Rightarrow> (Inl AttributeError, st)
      | Some s \<Rightarrow>
          let m = mach (host s)
          in if truthy (stack_top m) \<and> stack_bottom m = None then (Inl TypeError, st)
             else if max (max 0 (or_zero (stack_top m))) (or_zero (heap_end m)) > ram_size (ram s) then (Inr False, st)
             else loaded_ok filepath st)"

definition load_by_type :: "file_system \<Rightarrow> string \<Rightarrow> ('o emu, bool) py" where
  "load_by_type fs filepath st =
     (if py_endswith (py_lower filepath) ''.elf'' then
        (case read_elf fs filepath of
           Inl e \<Rightarrow> (Inl e, st)
         | Inr elf \<Rightarrow>
             py_then (on_sys (load_elf elf (o_trace_functions (e_options st)) (o_check_text (e_options st))))
               (py_then (py_modify (\<lambda>st. st\<lparr>e_type := Some ''elf''\<rparr>)) (check_layout filepath)) st)
      else if py_endswith (py_lower filepath) ''.bin'' then
        (case read_bin fs filepath of
           Inl e \<Rightarrow> (Inl e, st)
         | Inr binary \<Rightarrow>
             py_then (on_sys (load_flatbinary binary))
               (py_then (py_modify (\<lambda>st. st\<lparr>e_type := Some ''bin''\<rparr>)) (loaded_ok filepath)) st)
      else (Inr False, st))"

definition load_file :: "file_system \<Rightarrow> string \<Rightarrow> b_options option \<Rightarrow> ('o emu, bool) py" where
  "load_file fs filepath options st =
     (let load = py_except (\<lambda>_. True) (load_by_type fs filepath) (py_return False)
      in if \<not> e_initialized st then (Inr False, st)
         else if e_loaded st then
           (case initialize (case options of None \<Rightarrow> e_options st | Some o' \<Rightarrow> o')
                   (st\<lparr>e_initialized := False, e_loaded := False\<rparr>) of
              (Inl _, st') \<Rightarrow> (Inr False, st')
            | (Inr _, st') \<Rightarrow> load st')
         else load st)"

section \<open>Control\<close>

definition start :: "('o emu, unit) py" where
  "start st =
     (if \<not> e_initialized st \<or> \<not> e_loaded st then (Inl RuntimeError, st)
      else py_then
             (if e_reset_pc st then
                py_then (on_sys (set_pc (e_pc st)))
                  (py_then (on_sys (set_heap_end (e_heap st))) (py_modify (\<lambda>st. st\<lparr>e_count := 0\<rparr>)))
              else py_return ())
             (py_modify (\<lambda>st. st\<lparr>e_running := True, e_exit := None, e_reset_pc := False\<rparr>)) st)"

definition stop :: "('o emu, unit) py" where
  "stop st = (if e_logger st then Inr () else Inl AttributeError, st\<lparr>e_running := False\<rparr>)"

definition reset :: "file_system \<Rightarrow> ('o emu, bool) py" where
  "reset fs st =
     (case e_path st of
        None \<Rightarrow> (Inr False, st)
      | Some filepath \<Rightarrow>
          if \<not> e_loaded st \<or> filepath = [] then (Inr False, st)
          else py_except (\<lambda>_. True)
                 (py_bind (initialize (e_options st)) (\<lambda>_. load_file fs filepath None))
                 (py_return False) (st\<lparr>e_initialized := False, e_loaded := False\<rparr>))"

section \<open>Execution in chunks\<close>

definition chunk_step :: "('u msys, unit) py option \<Rightarrow> bool \<Rightarrow> ('u msys, unit) py" where
  "chunk_step ecall timer s =
     py_then (if opt_check_inv (mach (host s)) then check_invariants else py_return ())
       (py_bind fetch_word (\<lambda>inst. py_then (execute ecall inst) (py_then (tick timer) advance_pc))) s"

text \<open>\<open>for _ in range(n)\<close>: the exception, if any, the completed iterations and the final state.\<close>

fun run_n :: "('s, unit) py \<Rightarrow> nat \<Rightarrow> 's \<Rightarrow> exn option \<times> nat \<times> 's" where
  "run_n m 0 s = (None, 0, s)"
| "run_n m (Suc n) s =
     (case m s of
        (Inl e, s') \<Rightarrow> (Some e, 0, s')
      | (Inr _, s') \<Rightarrow> (case run_n m n s' of (r, k, s'') \<Rightarrow> (r, Suc k, s'')))"

definition regs_format :: "'o emu \<Rightarrow> exn option" where
  "regs_format st =
     (if e_regs st = [] then None
      else case make_regformatter_lambda (py_join '','' (e_regs st)) of Inl e \<Rightarrow> Some e | Inr _ \<Rightarrow> None)"

definition run_chunk :: "(8 word list \<Rightarrow> 'o \<Rightarrow> bool \<times> 'o) \<Rightarrow> nat \<Rightarrow> ('o emu, bool) py" where
  "run_chunk js_write n st =
     (if \<not> e_running st then (Inr False, st)
      else case (e_sys st, regs_format st) of
             (None, _) \<Rightarrow> (Inl AttributeError, st)
           | (Some s, Some e) \<Rightarrow> (Inl e, st)
           | (Some s, None) \<Rightarrow>
               (case run_n (chunk_step (Some (browser_handle js_write)) (o_timer (e_options st))) n s of
                  (None, k, s') \<Rightarrow> (Inr True, st\<lparr>e_sys := Some s', e_count := e_count st + k\<rparr>)
                | (Some e, k, s') \<Rightarrow>
                    (Inr False, st\<lparr>e_sys := Some s', e_count := e_count st + k, e_exit := Some e,
                                   e_running := False, e_reset_pc := True\<rparr>)))"

definition get_instruction_count :: "'o emu \<Rightarrow> nat" where
  "get_instruction_count st = e_count st"

definition get_exit_info :: "'o emu \<Rightarrow> exn option" where
  "get_exit_info st = e_exit st"

definition is_running :: "'o emu \<Rightarrow> bool" where
  "is_running st = e_running st"

definition with_options :: "b_options \<Rightarrow> 'u msys \<Rightarrow> 'u msys" where
  "with_options options s =
     s\<lparr>cpu := (cpu s)\<lparr>trace_traps := o_trace_traps options\<rparr>,
       host := (host s)\<lparr>mach := (mach (host s))\<lparr>opt_trace := o_trace_functions options, opt_check_inv := o_check_inv options\<rparr>\<rparr>\<rparr>"

definition update_options :: "b_options \<Rightarrow> ('o emu, bool) py" where
  "update_options options st =
     (if \<not> e_initialized st then (Inr False, st)
      else (Inr True, st\<lparr>e_options := options, e_sys := map_option (with_options options) (e_sys st),
                         e_regs := (if e_sys st = None then e_regs st else o_regs options)\<rparr>))"

section \<open>The page driving the emulator\<close>

text \<open>
  The steps the page can take, in any order and whatever each returns or raises; typing into the
  terminal is one of them.
\<close>

inductive emu_step ::
  "(8 word list \<Rightarrow> 'o \<Rightarrow> bool \<times> 'o) \<Rightarrow> file_system \<Rightarrow> 'o emu \<Rightarrow> 'o emu \<Rightarrow> bool"
  for js_write fs where
  step_initialize: "emu_step js_write fs st (snd (initialize options st))"
| step_load: "emu_step js_write fs st (snd (load_file fs filepath options' st))"
| step_start: "emu_step js_write fs st (snd (start st))"
| step_stop: "emu_step js_write fs st (snd (stop st))"
| step_reset: "emu_step js_write fs st (snd (reset fs st))"
| step_chunk: "emu_step js_write fs st (snd (run_chunk js_write n st))"
| step_options: "emu_step js_write fs st (snd (update_options options st))"
| step_input: "emu_step js_write fs st (snd (on_sys (upd_page (\<lambda>p. p\<lparr>input_buffer := input_buffer p @ typed\<rparr>)) st))"

inductive emu_reach ::
  "(8 word list \<Rightarrow> 'o \<Rightarrow> bool \<times> 'o) \<Rightarrow> file_system \<Rightarrow> 'o emu \<Rightarrow> bool"
  for js_write fs where
  reach_init: "emu_reach js_write fs (EmulatorState_init p)"
| reach_step: "emu_reach js_write fs st \<Longrightarrow> emu_step js_write fs st st' \<Longrightarrow> emu_reach js_write fs st'"

definition emu_inv :: "'o emu \<Rightarrow> bool" where
  "emu_inv st \<longleftrightarrow>
     (e_initialized st \<longrightarrow> e_sys st \<noteq> None \<and> e_logger st) \<and>
     (e_loaded st \<longrightarrow> e_initialized st \<and> e_path st \<noteq> None) \<and>
     (e_running st \<longrightarrow> e_sys st \<noteq> None \<and> e_logger st \<and> e_exit st = None)"

lemma inv_initialize: "emu_inv st \<Longrightarrow> emu_inv (snd (initialize options st))"
  by (auto simp: emu_inv_def initialize_def Let_def split: sum.split)

lemma initialize_ok: "initialize options st = (Inr b, st') \<Longrightarrow>
    e_initialized st' \<and> e_loaded st' = e_loaded st \<and> e_sys st' \<noteq> None"
  by (auto simp: initialize_def Let_def split: sum.splits)

lemma keeps_on_sys [py_keeps_intros]: "py_keeps emu_inv (on_sys m)"
  by (auto simp: py_keeps_def on_sys_def emu_inv_def split: option.split prod.split)

text \<open>Loading runs in an initialized emulator.\<close>

definition ready :: "'o emu \<Rightarrow> bool" where
  "ready st \<longleftrightarrow> emu_inv st \<and> e_initialized st"

lemma keeps_ready:
  "py_keeps ready (on_sys m)" "py_keeps ready (py_modify (\<lambda>st. st\<lparr>e_type := t\<rparr>))"
  "py_keeps ready (loaded_ok path)" "py_keeps ready (check_layout path)"
  by (auto simp: py_keeps_def ready_def emu_inv_def on_sys_def py_modify_def loaded_ok_def check_layout_def Let_def
    split: option.split prod.split)

lemma keeps_load_by_type: "py_keeps ready (load_by_type fs path)"
proof -
  have elf: "py_keeps ready (py_then (on_sys m) (py_then (py_modify (\<lambda>st. st\<lparr>e_type := t\<rparr>)) (check_layout path)))" for m t
    by (intro py_keeps_intros keeps_ready)
  have bin: "py_keeps ready (py_then (on_sys m) (py_then (py_modify (\<lambda>st. st\<lparr>e_type := t\<rparr>)) (loaded_ok path)))" for m t
    by (intro py_keeps_intros keeps_ready)
  show ?thesis
    by (rule py_keepsI) (simp add: load_by_type_def py_keepsD [OF elf] py_keepsD [OF bin] split: sum.split)
qed

lemma inv_load_file: "emu_inv st \<Longrightarrow> emu_inv (snd (load_file fs path options st))"
proof -
  assume inv: "emu_inv st"
  have load: "emu_inv (snd (py_except (\<lambda>_. True) (load_by_type fs path) (py_return False) st'))" if "ready st'" for st' :: "'a emu"
    using py_keepsD [OF py_keeps_except [OF keeps_load_by_type py_keeps_return], of st'] that by (simp add: ready_def)
  let ?st = "st\<lparr>e_initialized := False, e_loaded := False\<rparr>"
  have inv': "emu_inv ?st" using inv by (auto simp: emu_inv_def)
  have re: "emu_inv (snd (case initialize o' ?st of
      (Inl _, st') \<Rightarrow> (Inr False, st')
    | (Inr _, st') \<Rightarrow> py_except (\<lambda>_. True) (load_by_type fs path) (py_return False) st'))" for o'
  proof (cases "initialize o' ?st")
    case (Pair r st')
    then have "emu_inv st'" using inv_initialize [OF inv', of o'] by simp
    then show ?thesis using Pair load [of st'] initialize_ok [of o' ?st _ st'] by (cases r) (auto simp: ready_def)
  qed
  show ?thesis
    using inv load [of st] re by (simp add: load_file_def ready_def Let_def)
qed

lemma inv_start: "emu_inv st \<Longrightarrow> emu_inv (snd (start st))"
  by (auto simp: start_def emu_inv_def on_sys_def py_then_def py_bind_def py_modify_def py_return_def
    split: option.split prod.split sum.split)

lemma inv_reset: "emu_inv st \<Longrightarrow> emu_inv (snd (reset fs st))"
proof -
  assume inv: "emu_inv st"
  have inv': "emu_inv (st\<lparr>e_initialized := False, e_loaded := False\<rparr>)" using inv by (auto simp: emu_inv_def)
  have "py_keeps emu_inv (py_except (\<lambda>_. True) (py_bind (initialize o') (\<lambda>_. load_file fs path None)) (py_return False))" for o' path
    by (intro py_keeps_intros py_keepsI inv_initialize inv_load_file)
  from py_keepsD [OF this inv'] show ?thesis using inv by (auto simp: reset_def split: option.split)
qed

lemma inv_chunk: "emu_inv st \<Longrightarrow> emu_inv (snd (run_chunk js_write n st))"
  by (auto simp: run_chunk_def emu_inv_def split: option.split prod.split)

lemma inv_control: "emu_inv st \<Longrightarrow> emu_inv (snd (stop st))" "emu_inv st \<Longrightarrow> emu_inv (snd (update_options options st))"
  by (auto simp: emu_inv_def stop_def update_options_def)

lemma inv_step: "emu_step js_write fs st st' \<Longrightarrow> emu_inv st \<Longrightarrow> emu_inv st'"
  by (induction rule: emu_step.induct)
    (auto intro: inv_initialize inv_load_file inv_start inv_reset inv_chunk inv_control py_keepsD [OF keeps_on_sys])

lemma reach_inv: "emu_reach js_write fs st \<Longrightarrow> emu_inv st"
proof (induction rule: emu_reach.induct)
  case (reach_init p)
  show ?case by (simp add: emu_inv_def EmulatorState_init_def)
qed (rule inv_step)

lemma reg_getters_error: "reg_getters names = Inl e \<Longrightarrow> \<exists>n. e = SetupError (UnknownRegister n)"
  by (induction names) (auto split: option.splits sum.splits)

lemma regs_format_error: "regs_format st = Some e \<Longrightarrow> \<exists>n. e = SetupError (UnknownRegister n)"
  by (auto simp: regs_format_def make_regformatter_lambda_def split: if_splits sum.splits dest: reg_getters_error)

text \<open>A page that loads and starts a flat binary of two no-ops and an \<open>ecall\<close>.\<close>

definition demo_fs :: file_system where
  "demo_fs = \<lparr>read_elf = \<lambda>_. Inl ValueError, read_bin = \<lambda>_. Inr [0x13, 0, 0, 0, 0x13, 0, 0, 0, 0x73, 0, 0, 0]\<rparr>"

definition demo_write :: "8 word list \<Rightarrow> 8 word list \<Rightarrow> bool \<times> 8 word list" where
  "demo_write d p = (True, p @ d)"

definition demo_emu :: "8 word list emu" where
  "demo_emu = snd (start (snd (load_file demo_fs ''nop.bin'' None
      (snd (initialize (default_options\<lparr>o_ram_size := 16\<rparr>) (EmulatorState_init demo_page))))))"

lemma demo_emu_reach: "emu_reach demo_write demo_fs demo_emu"
  unfolding demo_emu_def by (intro reach_step [OF _ step_start] reach_step [OF _ step_load] reach_step [OF _ step_initialize] reach_init)

lemma demo_emu_runs:
  "e_running demo_emu" "e_loaded demo_emu" "\<not> e_reset_pc demo_emu"
  by code_simp+

text \<open>C27. In every state the page can reach, by any sequence of its operations and whatever they return: an initialized
  emulator has a system, a loaded one is initialized and knows its file, and a running one has a system
  and no exit information; so that \<open>run_chunk\<close>, and \<open>stop\<close> on a running emulator, do not fail for lack of a system or a logger.\<close>

theorem emu_reachable:
  assumes "emu_reach js_write fs st"
  shows "emu_inv st \<and> fst (run_chunk js_write n st) \<noteq> Inl AttributeError \<and>
    (e_running st \<longrightarrow> fst (stop st) = Inr ())"
proof -
  show ?thesis
    using reach_inv [OF assms] regs_format_error [of st]
    by (auto simp: run_chunk_def stop_def emu_inv_def split: option.splits prod.splits)
qed

theorem emu_reachable_witness: "emu_inv demo_emu \<and> fst (stop demo_emu) = Inr ()"
  using emu_reachable [OF demo_emu_reach] demo_emu_runs by simp

section \<open>Pausing\<close>

lemma run_n_add:
  "run_n m (n + k) s =
    (case run_n m n s of
       (Some e, i, s') \<Rightarrow> (Some e, i, s')
     | (None, i, s') \<Rightarrow> (case run_n m k s' of (r, j, s'') \<Rightarrow> (r, i + j, s'')))"
  by (induction n arbitrary: s) (auto split: prod.split sum.split option.split)



end
