(* ===== verification/Test_Runner.thy ===== *)
theory Test_Runner
  imports Machine_Load
begin

text \<open>
  The runner of the ISA tests, \<open>run_unit_tests.py\<close>: it loads a test into memory at \<open>0x80000000\<close>, puts a
  sentinel at the address of the symbol \<open>tohost\<close>, executes until the guest overwrites it and reads the
  verdict. What \<open>pyelftools\<close> reports of the test is a parameter, as for the loaders. The exceptions of \<open>get_symbol_address\<close> are \<open>Exception\<close>, here \<open>RuntimeError\<close>.
\<close>

unbundle bit_operations_syntax

section \<open>The runner\<close>

definition get_symbol_address :: "elf_file \<Rightarrow> string \<Rightarrow> exn + int" where
  "get_symbol_address elf symbol_name =
     (case symtab elf of
        None \<Rightarrow> Inl RuntimeError
      | Some syms \<Rightarrow>
          (case filter (\<lambda>x. sym_name x = symbol_name) syms of
             [] \<Rightarrow> Inl RuntimeError
           | x # _ \<Rightarrow> Inr (st_value x)))"

definition test_system :: "exn + unit msys" where
  "test_system =
     (case RAM_init (\<lambda>_. 0) SafeRAMOffset 0x80000000 (1024 * 1024) None 4 of
        Inl e \<Rightarrow> Inl e
      | Inr R \<Rightarrow>
          (case CPU_init (\<lambda>_. 0) True None False False of
             Inl e \<Rightarrow> Inl e
           | Inr c \<Rightarrow>
               (case Machine_init False False True False False None False None of
                  Inl e \<Rightarrow> Inl e
                | Inr m \<Rightarrow> Inr \<lparr>cpu = c, ram = R, devices = [], mmio_ranges = [], runners = [], host = \<lparr>mach = m, handler = ()\<rparr>\<rparr>)))"

text \<open>One pass of the loop; the value says whether the sentinel was overwritten.\<close>

definition test_step :: "int \<Rightarrow> ('u msys, bool) py" where
  "test_step tohost s =
     (if pc (cpu s) AND 0x1 \<noteq> 0
      then py_then (on_cpu (trap 0 (pc (cpu s)) True)) (py_then advance_pc (py_return False)) s
      else py_bind fetch_halves (\<lambda>inst.
             py_then (execute None inst)
               (py_then advance_pc
                 (py_bind (load_word tohost) (\<lambda>v. py_return (v \<noteq> 0xFFFFFFFF))))) s)"

partial_function (option) test_loop :: "int \<Rightarrow> 'u msys \<Rightarrow> ((exn + unit) \<times> 'u msys) option" where
  "test_loop tohost s =
     (case test_step tohost s of
        (Inl e, s') \<Rightarrow> Some (Inl e, s')
      | (Inr over, s') \<Rightarrow> if over then Some (Inr (), s') else test_loop tohost s')"

declare test_loop.simps [code]

text \<open>The verdict \<open>test_result\<close>; a test passes with 1.\<close>

definition run_test :: "elf_file \<Rightarrow> ((exn + int) \<times> unit msys option) option" where
  "run_test elf =
     (case test_system of
        Inl e \<Rightarrow> Some (Inl e, None)
      | Inr s \<Rightarrow>
          (case load_elf elf False False s of
             (Inl e, s') \<Rightarrow> Some (Inl e, Some s')
           | (Inr _, s1) \<Rightarrow>
               (case get_symbol_address elf ''tohost'' of
                  Inl e \<Rightarrow> Some (Inl e, Some s1)
                | Inr tohost \<Rightarrow>
                    (case store_word tohost 0xFFFFFFFF s1 of
                       (Inl e, s') \<Rightarrow> Some (Inl e, Some s')
                     | (Inr _, s2) \<Rightarrow>
                         (case test_loop tohost s2 of
                            None \<Rightarrow> None
                          | Some (Inl e, s') \<Rightarrow> Some (Inl e, Some s')
                          | Some (Inr _, s3) \<Rightarrow> (case load_word tohost s3 of (r, s') \<Rightarrow> Some (r, Some s')))))))"

text \<open>The tests to run, where \<open>glob\<close> lists the files that match a pattern, and the report of a test.\<close>

definition select_tests :: "(string \<Rightarrow> string list) \<Rightarrow> string option \<Rightarrow> string list" where
  "select_tests glob executable =
     (case executable of
        Some fname \<Rightarrow> [fname]
      | None \<Rightarrow>
          concat (map (\<lambda>suite. filter (\<lambda>fname. \<not> py_contains fname ''.dump'') (glob (''riscv-tests/isa/'' @ suite @ ''-p-*'')))
            [''rv32ui'', ''rv32mi'', ''rv32um'', ''rv32ua'', ''rv32uc'']))"

definition test_report :: "string \<Rightarrow> int \<Rightarrow> cpu \<Rightarrow> string list" where
  "test_report fname v c =
     (let head = (\<lambda>result. ''Test '' @ ljust 30 (basename fname) @ '': '' @ result) in
      if v \<noteq> 1 then
        [head (''FAIL (test #'' @ dec_int (drop_bit 1 v) @ '')''),
         ''  tohost value: 0x'' @ fmt_hex True 8 v,
         ''  Final PC: 0x'' @ fmt_hex True 8 (pc c),
         ''  mepc: 0x'' @ fmt_hex True 8 (csrs c 0x341),
         ''  mcause: 0x'' @ fmt_hex True 8 (csrs c 0x342),
         ''  mtval: 0x'' @ fmt_hex True 8 (csrs c 0x343)]
      else [head ''PASS''])"

text \<open>All tests: the lines printed and the exception that ended the run, if any; \<open>None\<close> if a test does not end.\<close>

fun run_tests :: "(string \<Rightarrow> exn + elf_file) \<Rightarrow> string list \<Rightarrow> (string list \<times> exn option) option" where
  "run_tests read [] = Some ([], None)"
| "run_tests read (fname # fnames) =
     (case read fname of
        Inl e \<Rightarrow> Some ([], Some e)
      | Inr elf \<Rightarrow>
          (case run_test elf of
             Some (Inr v, Some s) \<Rightarrow> map_option (\<lambda>(ls, e). (test_report fname v (cpu s) @ ls, e)) (run_tests read fnames)
           | Some (Inl e, _) \<Rightarrow> Some ([], Some e)
           | _ \<Rightarrow> None))"

section \<open>What execution leaves alone\<close>

text \<open>
  A property of the system that the CPU registers, the memory contents and the bus accesses do not affect, and
  that the \<open>ecall\<close> handler keeps, is kept by every instruction.
\<close>

locale bus_frame =
  fixes P :: "'h sys \<Rightarrow> bool" and ecall :: "('h sys, unit) py option"
  assumes frame_cpu: "P (s\<lparr>cpu := c\<rparr>) = P s" and frame_ram: "P (s\<lparr>ram := R\<rparr>) = P s"
    and frame_load_word: "py_keeps P (load_word a)" and frame_store_word: "py_keeps P (store_word a v)"
    and frame_ecall: "ecall = Some h \<Longrightarrow> py_keeps P h"
begin

lemma on_cpu_frame: "py_keeps P (on_cpu f)"
  by (auto simp: py_keeps_def on_cpu_def py_zoom_def frame_cpu split: prod.split)

lemma on_ram_frame: "py_keeps P (on_ram f)"
  by (auto simp: py_keeps_def on_ram_def py_zoom_def frame_ram split: prod.split)

lemma access_frame:
  "py_keeps P (load_byte a g)" "py_keeps P (load_half a g)" "py_keeps P (store_byte a v)" "py_keeps P (store_half a v)"
  "py_keeps P (load_cstring a n)" "py_keeps P clear_reservation" "py_keeps P advance_pc"
  unfolding load_byte_def load_half_def store_byte_def store_half_def load_cstring_def clear_reservation_def advance_pc_def
  by (rule on_ram_frame on_cpu_frame)+

lemmas frames = py_keeps_intros on_cpu_frame access_frame frame_load_word frame_store_word

lemma loads_frame: "py_keeps P (exec_loads inst sz rd f3 rs1 rs2 f7)"
  unfolding exec_loads_def [abs_def] Let_def by (rule py_keeps_at) (intro frames)

lemma stores_frame: "py_keeps P (exec_stores inst sz rd f3 rs1 rs2 f7)"
  unfolding exec_stores_def [abs_def] Let_def by (rule py_keeps_at) (intro frames)

lemma AMO_frame: "py_keeps P (exec_AMO inst sz rd f3 rs1 rs2 f7)"
proof (rule py_keepsI)
  fix s assume "P s"
  note D = py_keepsD [where P = P, OF _ this]
  have "P (snd (py_bind (load_word a) (\<lambda>v. on_cpu (f v)) s))"
      "P (snd (py_bind (load_word a) (\<lambda>v. py_then (store_word a (g v)) (py_then (on_cpu (f v)) clear_reservation)) s))"
      "P (snd (py_then (store_word a b) (py_then (on_cpu m) clear_reservation) s))" "P (snd (on_cpu m s))" for a b f g m
    by (rule D, intro frames)+
  then show "P (snd (exec_AMO inst sz rd f3 rs1 rs2 f7 s))"
    by (simp add: exec_AMO_def Let_def del: on_cpu_simps)
qed

lemma SYSTEM_frame: "py_keeps P (exec_SYSTEM ecall inst sz rd f3 rs1 rs2 f7)"
proof -
  have "py_keeps P (exec_ECALL ecall)"
    by (rule py_keepsI)
      (simp add: exec_ECALL_def py_keepsD [OF on_cpu_frame] py_keepsD [OF py_keeps_then [OF frame_ecall on_cpu_frame]]
        del: on_cpu_simps split: option.split)
  moreover have "py_keeps P exec_EBREAK"
    by (rule py_keepsI)
      (simp add: exec_EBREAK_def Let_def frame_cpu py_keepsD [OF on_cpu_frame]
        py_keepsD [OF py_keeps_bind [OF access_frame(5) py_keeps_return]] del: on_cpu_simps)
  ultimately show ?thesis
    unfolding exec_SYSTEM_def by (intro py_keeps_if py_keeps_return on_cpu_frame)
qed

lemma dispatch_frame: "py_keeps P (dispatch ecall inst sz d)"
proof -
  have "py_keeps P (h i z rd f3 rs1 rs2 f7)" if "opcode_handler ecall opc = Some h" for h opc i z rd f3 rs1 rs2 f7
    using that by (auto simp: opcode_handler_def loads_frame stores_frame AMO_frame SYSTEM_frame on_cpu_frame split: if_splits)
  then show ?thesis
    by (auto simp: dispatch_def intro!: py_keeps_then on_cpu_frame split: prod.split option.split)
qed

lemma execute_frame: "py_keeps P (execute ecall inst)"
proof -
  have "py_keeps P (execute_32 ecall i)" for i
    by (rule py_keepsI) (simp add: execute_32_def Let_def py_keepsD [OF dispatch_frame] frame_cpu split: option.split)
  moreover have "py_keeps P (execute_16 ecall i)" for i
    by (rule py_keepsI) (simp add: execute_16_def Let_def py_keepsD [OF dispatch_frame] py_keepsD [OF on_cpu_frame] frame_cpu
      del: on_cpu_simps split: option.split prod.split)
  ultimately show ?thesis by (auto simp: py_keeps_def execute_def)
qed

lemma fetch_halves_frame: "py_keeps P fetch_halves"
  unfolding fetch_halves_def [abs_def] by (rule py_keeps_at) (intro frames)

end

text \<open>Without peripherals a load leaves the system as it is.\<close>

definition plain_bus :: "'u env \<Rightarrow> 'u msys \<Rightarrow> bool" where
  "plain_bus h s \<longleftrightarrow> mmio_ranges s = [] \<and> host s = h"

lemma load_word_pure: "mmio_ranges s = [] \<Longrightarrow> snd (load_word a s) = s"
  by (simp add: load_word_def RAM_MMIO_load_word_def SafeRAM_MMIO_load_word_def MMIO_load_word_def mmio_hit_def
    on_ram_def py_zoom_def SafeRAMOffset_load_word_def SafeRAM_load_word_def RAM_load_word_def mem_load_word_def
    SafeRAM_check_def SafeRAMOffset_check_def py_defs Let_def split: ram_class.split)

lemma store_word_bus: "mmio_ranges s = [] \<Longrightarrow> mmio_ranges (snd (store_word a v s)) = []"
  by (simp add: store_word_def RAM_MMIO_store_word_def SafeRAM_MMIO_store_word_def MMIO_store_word_def mmio_hit_def
    on_ram_def py_zoom_def Let_def split: ram_class.split prod.split)

interpretation plain: bus_frame "plain_bus h" "None :: ('u msys, unit) py option" for h
proof
  show "py_keeps (plain_bus h) (load_word a)" for a :: int
    by (rule py_keepsI) (simp add: plain_bus_def load_word_pure)
  show "py_keeps (plain_bus h) (store_word a v)" for a v :: int
    by (rule py_keepsI) (simp add: plain_bus_def store_word_bus store_word_host)
qed (simp_all add: plain_bus_def)

section \<open>The runner follows the emulator\<close>

abbreviation guest_step :: "int \<Rightarrow> ('u msys, int) py" where
  "guest_step \<equiv> checks_step None False False"

definition overwritten :: "int \<Rightarrow> 'u msys \<Rightarrow> bool" where
  "overwritten tohost s \<longleftrightarrow> (\<exists>v. fst (load_word tohost s) = Inr v \<and> v \<noteq> 0xFFFFFFFF)"

definition untouched :: "int \<Rightarrow> 'u msys \<Rightarrow> bool" where
  "untouched tohost s \<longleftrightarrow> fst (load_word tohost s) = Inr 0xFFFFFFFF"

definition testable :: "'u msys \<Rightarrow> bool" where
  "testable s \<longleftrightarrow> sys_inv False True s \<and> mmio_ranges s = [] \<and> \<not> opt_check_inv (mach (host s))"

lemma testable_step:
  assumes "testable s"
  shows "testable (snd (guest_step cyc s))"
proof -
  have s: "sys_inv False True s" "plain_bus (host s) s" "\<not> opt_check_inv (mach (host s))"
    using assms by (simp_all add: testable_def plain_bus_def)
  have m: "guest_step cyc s = py_bind fetch_halves (\<lambda>inst. py_then (execute None inst) (py_then advance_pc (py_return cyc))) s"
    using s(3) by (simp add: checks_step_def tick_def poll_def py_then_def py_bind_def py_return_def split: prod.split sum.split)
  have "py_keeps (sys_inv False True) (py_bind fetch_halves (\<lambda>inst. py_then (execute None inst) (py_then advance_pc (py_return cyc))))"
    by (intro py_keeps_intros keeps_fetch_halves no_ecall.keeps_execute keeps_advance) simp
  moreover have "py_keeps (plain_bus (host s)) (py_bind fetch_halves (\<lambda>inst. py_then (execute None inst) (py_then advance_pc (py_return cyc))))"
    by (intro py_keeps_intros plain.fetch_halves_frame plain.execute_frame plain.access_frame)
  ultimately show ?thesis
    using s by (auto simp: testable_def m plain_bus_def dest: py_keepsD)
qed

lemma test_step_follows:
  assumes "testable s"
  shows "test_step tohost s =
    (case guest_step 0 s of
       (Inl e, s') \<Rightarrow> (Inl e, s')
     | (Inr _, s') \<Rightarrow> (case fst (load_word tohost s') of Inl e \<Rightarrow> (Inl e, s') | Inr v \<Rightarrow> (Inr (v \<noteq> 0xFFFFFFFF), s')))"
proof -
  have s: "pc (cpu s) AND 1 = 0" "\<not> opt_check_inv (mach (host s))"
    using assms by (auto simp: testable_def sys_inv_def cpu_inv_def aligned_def)
  obtain r s' where st: "guest_step 0 s = (r, s')" by (cases "guest_step 0 s")
  then have p: "snd (load_word tohost s') = s'"
    using testable_step [OF assms, of 0] by (simp add: testable_def load_word_pure)
  show ?thesis
    using st s p
    by (auto simp: test_step_def checks_step_def tick_def poll_def py_then_def py_bind_def py_return_def
      split: prod.splits sum.splits)
qed

text \<open>\<open>first_write n s s'\<close>: the emulator reaches \<open>s'\<close> after \<open>n + 1\<close> instructions, the first ones to leave
  \<open>tohost\<close> overwritten.\<close>

definition first_write :: "int \<Rightarrow> nat \<Rightarrow> 'u msys \<Rightarrow> 'u msys \<Rightarrow> bool" where
  "first_write tohost n s s' \<longleftrightarrow>
     py_iter guest_step (Suc n) 0 s = Inr (0, s') \<and> overwritten tohost s' \<and>
     (\<forall>k < n. \<exists>t. py_iter guest_step (Suc k) 0 s = Inr (0, t) \<and> untouched tohost t)"

lemma guest_step_cycle: "guest_step cyc s = (Inr cyc', s') \<Longrightarrow> cyc' = cyc"
  by (auto simp: checks_step_def py_then_def py_bind_def poll_def split: prod.splits sum.splits if_splits)

lemma first_write_0:
  "first_write tohost 0 s s' \<longleftrightarrow> guest_step 0 s = (Inr 0, s') \<and> overwritten tohost s'"
  by (auto simp: first_write_def split: prod.splits sum.splits)

lemma first_write_Suc:
  "first_write tohost (Suc n) s s' \<longleftrightarrow>
     (\<exists>t. guest_step 0 s = (Inr 0, t) \<and> untouched tohost t \<and> first_write tohost n t s')"
proof (cases "guest_step 0 s")
  case (Pair r t)
  then show ?thesis
    using guest_step_cycle [of 0 s _ t] by (cases r) (auto simp: first_write_def All_less_Suc2)
qed

lemma test_loop_ends:
  "testable s \<Longrightarrow> first_write tohost n s s' \<Longrightarrow> test_loop tohost s = Some (Inr (), s')"
proof (induction n arbitrary: s)
  case 0
  then show ?case
    by (subst test_loop.simps) (auto simp: first_write_0 test_step_follows overwritten_def)
next
  case (Suc n)
  then obtain t where t: "guest_step 0 s = (Inr 0, t)" "untouched tohost t" "first_write tohost n t s'"
    by (auto simp: first_write_Suc)
  have "testable t" using testable_step [OF Suc.prems(1), of 0] t(1) by simp
  with Suc.IH t show ?case
    by (subst test_loop.simps) (simp add: test_step_follows [OF Suc.prems(1)] untouched_def)
qed

lemma test_loop_first_write:
  assumes "test_loop tohost s = Some (Inr (), s')" "testable s"
  shows "\<exists>n. first_write tohost n s s'"
proof -
  have "testable s \<longrightarrow> fst (Inr () :: exn + unit, s') = Inr () \<longrightarrow> (\<exists>n. first_write tohost n s (snd (Inr () :: exn + unit, s')))"
  proof (rule test_loop.raw_induct [where P = "\<lambda>tohost s r. testable s \<longrightarrow> fst r = Inr () \<longrightarrow> (\<exists>n. first_write tohost n s (snd r))", OF _ assms(1)], intro impI)
    fix loop tohost and s :: "'a msys" and r
    assume IH: "\<And>tohost s r. loop tohost s = Some r \<Longrightarrow> testable s \<longrightarrow> fst r = Inr () \<longrightarrow> (\<exists>n. first_write tohost n s (snd r))"
      and eq: "(case test_step tohost s of (Inl e, s') \<Rightarrow> Some (Inl e, s')
               | (Inr over, s') \<Rightarrow> if over then Some (Inr (), s') else loop tohost s') = Some r"
      and s: "testable s" and r: "fst r = Inr ()"
    obtain over t where t: "test_step tohost s = (Inr over, t)"
      using eq r by (cases "test_step tohost s"; cases "fst (test_step tohost s)") auto
    then have st: "guest_step 0 s = (Inr 0, t)" "over = overwritten tohost t" "\<not> over \<longrightarrow> untouched tohost t"
      unfolding test_step_follows [OF s] by (auto simp: overwritten_def untouched_def dest: guest_step_cycle split: prod.splits sum.splits)
    show "\<exists>n. first_write tohost n s (snd r)"
    proof (cases over)
      case True
      then have "first_write tohost 0 s (snd r)" using eq t st by (auto simp: first_write_0)
      then show ?thesis ..
    next
      case False
      then obtain n where "first_write tohost n t (snd r)"
        using IH [of tohost t r] eq t r testable_step [OF s, of 0] st(1) by auto
      then have "first_write tohost (Suc n) s (snd r)" using st False by (auto simp: first_write_Suc)
      then show ?thesis ..
    qed
  qed
  then show ?thesis using assms(2) by simp
qed

text \<open>C29. The test runner judges the emulator and not itself: on a machine without peripherals and checks
  whose state satisfies the invariant, its loop ends exactly if the execution loop of the emulator comes to
  overwrite \<open>tohost\<close>, in the state after the first instruction that does; its own test for a misaligned program
  counter never fires.\<close>

theorem test_loop_follows:
  assumes "sys_inv False True s" "mmio_ranges s = []" "\<not> opt_check_inv (mach (host s))"
  shows "test_loop tohost s = Some (Inr (), s') \<longleftrightarrow> (\<exists>n. first_write tohost n s s')"
  using test_loop_ends [of s tohost] test_loop_first_write [of tohost s s'] assms by (auto simp: testable_def)

text \<open>A test of one instruction, \<open>sw x0, 12(x0)\<close>, with the sentinel at address 12.\<close>

definition demo_test :: "unit msys" where
  "demo_test = (demo_msys SafeRAM True ())\<lparr>ram := (demo_ram SafeRAM)\<lparr>memory :=
     [0x23, 0x26] @ replicate 10 0 @ replicate 4 0xFF @ replicate 4 0\<rparr>\<rparr>"

theorem test_loop_follows_witness: "\<exists>n s'. first_write 12 n demo_test s'"
proof -
  have "map_option fst (test_loop 12 demo_test) = Some (Inr ())" by code_simp
  then obtain s' where s': "test_loop 12 demo_test = Some (Inr (), s')" by auto
  have "sys_inv False True demo_test"
    using demo_msys_inv [of False True SafeRAM "()"] by (simp add: sys_inv_def demo_test_def demo_msys_def ram_wf_def demo_ram_def)
  moreover have "mmio_ranges demo_test = []" "\<not> opt_check_inv (mach (host demo_test))"
    by (simp_all add: demo_test_def demo_msys_def demo_machine_def)
  ultimately show ?thesis using test_loop_follows [of demo_test 12 s'] s' by blast
qed

lemma no_ranges_load_elf: "py_keeps (\<lambda>s. mmio_ranges s = []) (load_elf elf load_symbols check_text)"
proof -
  have store: "py_keeps (\<lambda>s. mmio_ranges s = []) (store_binary a bs)" for a bs
    by (simp add: py_keeps_def store_binary_def on_ram_def py_zoom_def split: prod.split)
  have "py_keeps (\<lambda>s. mmio_ranges s = []) (load_segments segs)" for segs :: "(bool \<times> int \<times> 8 word list) list"
    by (induction segs) (auto intro!: py_keeps_then py_keeps_return store)
  then show ?thesis
    unfolding load_elf_def
    by (intro py_keeps_then) (auto simp: py_keeps_def set_pc_def on_cpu_def on_mach_def py_zoom_def py_modify_def)
qed

text \<open>The verdict of a whole test is the word the guest first wrote to \<open>tohost\<close>, run from the loaded image.\<close>

lemma run_test_verdict:
  assumes "run_test elf = Some (Inr v, Some s)" "e_entry elf AND 1 = 0"
  shows "\<exists>tohost s0 n. get_symbol_address elf ''tohost'' = Inr tohost \<and> first_write tohost n s0 s \<and>
    fst (load_word tohost s) = Inr v \<and> v \<noteq> 0xFFFFFFFF"
proof -
  obtain si s1 tohost s2 s3 where *: "test_system = Inr si" "load_elf elf False False si = (Inr (), s1)"
      "get_symbol_address elf ''tohost'' = Inr tohost" "store_word tohost 0xFFFFFFFF s1 = (Inr (), s2)"
      "test_loop tohost s2 = Some (Inr (), s3)" "load_word tohost s3 = (Inr v, s)"
    using assms(1) by (auto simp: run_test_def split: sum.splits prod.splits option.splits)
  have si: "guest_ok True (opts si) si" "mmio_ranges si = []" "\<not> opt_check_inv (mach (host si))"
    using *(1) RAM_init_wf [of "\<lambda>_. 0" SafeRAMOffset "0x80000000" "1024 * 1024" None]
      cpu_init_invariant [of "\<lambda>_. 0" True None False False]
    by (auto simp: test_system_def guest_ok_def sys_inv_def cpu_inv_relax Machine_init_def Let_def
      split: sum.splits if_splits)
  have s1: "guest_ok True (opts si) s1"
    using py_keepsD [OF guest_loaders(2) si(1), of elf False False] *(2) assms(2) by simp
  have s2: "guest_ok True (opts si) s2" using py_keepsD [OF guest_accesses(1) s1, of tohost "0xFFFFFFFF"] *(4) by simp
  have m: "mmio_ranges s2 = []"
    using py_keepsD [OF no_ranges_load_elf si(2), of elf False False] store_word_bus [of s1 tohost "0xFFFFFFFF"] *(2,4) by simp
  have t: "testable s2" using s2 m si(3) by (auto simp: testable_def guest_ok_def machine_opts_def)
  then obtain n where n: "first_write tohost n s2 s3" using test_loop_first_write *(5) by blast
  have "testable s3"
    using py_iter_keeps [of testable guest_step s2 "Suc n" 0, OF testable_step t] n by (simp add: first_write_def)
  then have "s = s3" using load_word_pure [of s3 tohost] *(6) by (simp add: testable_def)
  then show ?thesis using n *(3,6) by (auto simp: first_write_def overwritten_def)
qed

text \<open>The report of a complete run: as many lines as tests exactly if every test passed.\<close>

lemma run_test_state: "run_test elf = Some (Inr v, so) \<Longrightarrow> so \<noteq> None"
  by (auto simp: run_test_def split: sum.splits prod.splits option.splits)

lemma run_tests_report:
  assumes "run_tests read fnames = Some (ls, None)"
  shows "length fnames \<le> length ls \<and>
    (length ls = length fnames \<longleftrightarrow> (\<forall>f \<in> set fnames. \<exists>elf s. read f = Inr elf \<and> run_test elf = Some (Inr 1, s)))"
  using assms
proof (induction fnames arbitrary: ls)
  case (Cons f fs)
  then obtain elf v s ls' where *: "read f = Inr elf" "run_test elf = Some (Inr v, Some s)" "run_tests read fs = Some (ls', None)"
      "ls = test_report f v (cpu s) @ ls'"
    by (auto split: sum.splits option.splits prod.splits)
  have "length (test_report f v (cpu s)) = (if v = 1 then 1 else 6)" by (simp add: test_report_def)
  then show ?case using Cons.IH [OF *(3)] * by auto
qed simp

end
