(* ===== verification/Spec2Isabelle.thy ===== *)
theory Spec2Isabelle
  imports Isa_Boot Isa_Priv Console Device_Props Browser_Entry Test_Runner
begin

text \<open>
  A verification of the RISC-V emulator \<open>riscv-python\<close>: RV32IMAC with machine-mode traps and timer, memory
  with and without run-time checks and memory-mapped peripherals, Newlib system calls, a debugger stub, a
  command line and a web application. The development follows the Python sources under \<open>src/\<close> definition
  by definition; every definition that models code is executable.

  \<^bold>\<open>The program.\<close> A \<open>CPU\<close> (\<open>cpu.py\<close>) fetches from a memory object (\<open>ram.py\<close>), expands compressed instructions
  (\<open>rvc.py\<close>), dispatches on the opcode and updates registers, CSRs and memory. Word accesses may be answered by
  peripherals (\<open>peripherals.py\<close>). A \<open>Machine\<close> (\<open>machine.py\<close>) owns the options, loads programs and runs one of
  five execution loops, or the debugger loops, which obey a \<open>GDBStub\<close> (\<open>gdbstub.py\<close>). \<open>ECALL\<close> goes to a handler:
  \<open>SyscallHandler\<close> (\<open>syscalls.py\<close>) on the command line (\<open>riscv-emu.py\<close>), \<open>BrowserSyscallHandler\<close> in the web
  application (\<open>advanced/webapp/py\<close>). \<open>run_unit_tests.py\<close> runs the ISA tests.

  \<^bold>\<open>Conventions.\<close> Python integers are \<^typ>\<open>int\<close>, so that a value that leaves its 32 bits is visible; that
  registers stay in range is a theorem, not a type. A method is a function from a state to a result, an
  exception or a value, and the state after it, also after an exception (type \<open>py\<close>, theory \<open>Py_Base\<close>). A loop
  that ends only by an exception is \<open>py_forever\<close>, a \<^theory_text>\<open>partial_function (option)\<close>: \<open>None\<close> is a run that does not
  end, so every statement about the result of a run says that the run ends. No definition that models code uses fuel; the
  reference interpreter \<open>prog_run\<close> does, and what it finds with any amount of it the emulator does. Code
  outside \<open>src/\<close> is a parameter: the operating system (record \<open>os\<close>), the files and \<open>pyelftools\<close> (\<open>file_system\<close>,
  \<open>elf_file\<close>), random numbers, the JavaScript page. Sockets, pseudo-terminals and image files are the byte
  queues and lists that pass through them.

  \<^bold>\<open>Theories.\<close>
  \<^item> \<open>Py_Base\<close>, \<open>Py_Int\<close>, \<open>Py_Str\<close>: the prelude. Exceptions, effects and the invariant rules \<open>py_keeps\<close>, Python
    indexing and slicing, bit fields, \<open>int(s, base)\<close>, string operations and UTF-8.
  \<^item> \<open>Ram\<close>: the memory classes without peripherals. Locale \<open>le_memory\<close> is the contract of a little-endian memory,
    interpreted for \<open>RAM\<close>, \<open>SafeRAM\<close> and \<open>SafeRAMOffset\<close>; accesses in bounds are byte-exact, accesses out of
    bounds raise and change nothing.
  \<^item> \<open>Isa\<close>, \<open>Rvc\<close>: the instruction formats of the manual, and the proof that \<open>expand_compressed\<close> is the table of
    the C extension.
  \<^item> \<open>Cpu_State\<close>, \<open>Cpu_Ops\<close>, \<open>Cpu_Exec\<close>: the class \<open>CPU\<close> and its opcode handlers, with word-level specifications of
    the arithmetic (division through floating point included) and the proof that decoding inverts encoding.
  \<^item> \<open>Peripherals\<close>, \<open>Bus\<close>, \<open>Mem_Access\<close>: timer, UART and block device; the system state with the memory
    object, the peripherals and what the machine adds; accesses as functions on bytes.
  \<^item> \<open>Cpu_Inv\<close>, \<open>Cpu_Props\<close>, \<open>Mem_Props\<close>, \<open>Device_Props\<close>: the system invariant (\<open>sys_inv\<close>: 32-bit registers and CSRs,
    aligned program counters, coherent decode caches, well-formed memory and peripherals) is kept by every
    instruction under the contract \<open>ecall_contract\<close> of the \<open>ecall\<close> handler; what the handlers compute; traps and
    timer; loads, stores and reservations; UART and block device.
  \<^item> \<open>Machine\<close>, \<open>Machine_Props\<close>, \<open>Machine_Load\<close>: the class \<open>Machine\<close>. Induction along loops, the invariant over
    runs of any length, agreement of the execution loops, the image that the loaders and \<open>setup_argv\<close> build.
  \<^item> \<open>Isa_Step\<close>, \<open>Isa_Complete\<close>: RV32IM with atomic memory operations and compressed instructions as an abstract machine on words (\<open>isa_step\<close>), with its
    access faults (\<open>isa_fault\<close>). Locales \<open>forward_simulation\<close> and \<open>stopping_simulation\<close>, interpreted for the fast loop: it
    follows every run of the abstract machine and raises where that faults. Conversely every iteration is
    such a step or fault, an illegal instruction, which traps, or an atomic (reservations are in \<open>Mem_Props\<close>) or system instruction.
  \<^item> \<open>Syscalls\<close>, \<open>Syscalls_Props\<close>: the Newlib system calls; the handler meets \<open>ecall_contract\<close> (interpretation
    \<open>newlib\<close>), descriptors are handed out in increasing order and never reused, \<open>sbrk\<close> hands out disjoint blocks
    below the stack, \<open>fstat\<close> has the layout of the guest.
  \<^item> \<open>Gdb_Packet\<close>, \<open>Gdb_Stub\<close>, \<open>Gdb_Run\<close>, \<open>Gdb_Props\<close>, \<open>Gdb_Session\<close>: packets, commands and loops of the debugger. Packets
    survive noise, commands invert each other, stepping and breakpoints agree with the fast loop, malformed
    commands are answered and change nothing (\<open>careful\<close>), and a session whose input ends, ends.
  \<^item> \<open>Emulator\<close>, \<open>Console\<close>: the command \<open>riscv-emu.py\<close> from the options to the exit status; its log, and the mode of the terminal, which is
    restored on every way out of the run, the interrupt of the user included.
  \<^item> \<open>Isa_Prog\<close>, \<open>Isa_Boot\<close>: whole programs. A reference interpreter adds to the abstract machine the system calls that need nothing from the host (output,
    \<open>sbrk\<close>, \<open>isatty\<close>, \<open>getpid\<close>, \<open>_exit\<close>) and what ends a program. Locale \<open>exec_loop\<close> is what the four execution loops have in common, and is interpreted for
    each of them; \<open>prog_loop\<close> extends it and is a sublocale of \<open>stopping_simulation\<close> (interpretations \<open>fast\<close>, \<open>timed\<close>, \<open>slow\<close>, \<open>watched\<close>), which shows that \<open>run\<close> gives the answers of the
    interpreter. \<open>Isa_Boot\<close> composes this with the construction and the loaders: the process started on a flat image or on an ELF file
    with arguments ends as the interpreter says, with its output.
  \<^item> \<open>Isa_Priv\<close>: trap handlers. An interpreter in machine mode adds to the abstract machine the CSRs of trap handling, traps to the vector, \<open>MRET\<close> and the timer
    interrupt; locale \<open>priv_loop\<close>, another extension of \<open>exec_loop\<close> with the same four interpretations, shows that \<open>run\<close> follows it.
  \<^item> \<open>Browser_Syscalls\<close>, \<open>Browser_Entry\<close>: the web application. Its handler agrees with the Newlib one on the calls
    both serve; the page can call the operations in any order (\<open>emu_step\<close>, \<open>emu_reach\<close>); pausing is invisible.
  \<^item> \<open>Test_Runner\<close>: \<open>run_unit_tests.py\<close>. Locale \<open>bus_frame\<close> is what execution leaves alone; the runner stops exactly
    when the emulator first writes \<open>tohost\<close>.
  \<^item> This theory: the guest and its system calls together.

  \<^bold>\<open>Defects.\<close> Some lemmas show behaviour that the code does not intend: \<open>mtimecmp_csr_stale_mtip\<close> (\<open>Cpu_Props\<close>),
  \<open>sc_failure_keeps_reservation\<close> (\<open>Mem_Props\<close>),
  \<open>setup_argv_utf8_overlap\<close> (\<open>Machine_Load\<close>), \<open>expand_hints_refused\<close> (\<open>Rvc\<close>), \<open>errno_breaks_bne\<close>, \<open>bad_fd_needs_logger\<close> and \<open>openat_overflow\<close> (\<open>Syscalls_Props\<close>),
  \<open>recv_packet_hash_interrupt\<close>, \<open>recv_packet_split_checksum\<close> and \<open>gdb_negative_register\<close> (\<open>Gdb_Props\<close>).

  \<^bold>\<open>Copies.\<close> The web application carries copies of the core. \<open>cpu.py\<close>, \<open>ram.py\<close> and \<open>rvc.py\<close> are the files of \<open>src/\<close>
  byte for byte, \<open>machine.py\<close> is that file without the debugger loops, and \<open>browser_peripherals.py\<close> repeats
  \<open>MMIOTimer\<close>: the definitions of the core stand for both.

  \<^bold>\<open>Not modelled.\<close>
  \<^item> What the components log during a run: traces and the messages of the debugger are pure output. Where formatting or an
    unguarded logger raises, the exception is modelled. The time stamps of the log are given by the host.
  \<^item> The creation of the pseudo-terminal, of the image of the block device, and of the socket up to what binding it raises: the model starts with the
    channels and the file open, and what their creation raises is left out.
  \<^item> Exceptions of the host's standard output in \<open>print\<close> and \<open>flush\<close>, and of a broken connection in \<open>sendall\<close>.
  \<^item> The option parser of \<open>argparse\<close>, whose rules are those of the library: the model starts with the parsed options.
  \<^item> Guest code: assembler sources, linker scripts, and the scripts that run inside emulated interpreters.
  \<^item> The two interpreters leave out \<open>LR\<close> and \<open>SC\<close>, peripherals, accesses to \<open>mip\<close>, to the CSRs of the timer and writes to read-only CSRs, and the system calls that the host
    answers; these are covered by the invariant and by the properties of each component.
\<close>

unbundle bit_operations_syntax

section \<open>The guest and its system calls together\<close>

lemma handle_at_exit:
  "registers (cpu s) 17 = 93 \<Longrightarrow>
    handle os s = (Inl (ExecutionTerminated (ExitCode (to_signed (registers (cpu s) 10)))),
      s\<lparr>cpu := (cpu s)\<lparr>pc := next_pc (cpu s)\<rparr>\<rparr>)"
  by (simp add: handle_def reg_def syscall_handler_def handle_exit_def)

lemma execute_exit:
  assumes "sys_inv r True s" "csrs (cpu s) 0x305 = 0" "registers (cpu s) 17 = 93"
  shows "\<exists>s'. execute_32 (Some (handle os)) 0x73 s = (Inl (ExecutionTerminated (ExitCode (to_signed (registers (cpu s) 10)))), s') \<and>
    pc (cpu s') = (pc (cpu s) + 4) AND 0xFFFFFFFF \<and> registers (cpu s') = registers (cpu s) \<and> ram s' = ram s \<and> host s' = host s"
proof -
  have en: "rvc_enabled (cpu s)" using sys_invD(1) [OF assms(1)] by (simp add: cpu_inv_def)
  have "execute_32 (Some (handle os)) 0x73 s = execute (Some (handle os)) 0x73 s" using en by (simp add: execute_def)
  also have "\<dots> = dispatch (Some (handle os)) 0x73 4 (decode_fields 0x73)
      (s\<lparr>cpu := (cpu s)\<lparr>decode_cache := (decode_cache (cpu s))(drop_bit 2 0x73 \<mapsto> decode_fields 0x73)\<rparr>\<rparr>)"
    using execute_fresh [OF assms(1) en, of "Some (handle os)" "0x73"] by simp
  also have "decode_fields 0x73 = (0x73, 0, 0, 0, 0, 0)" by (simp add: decode_fields_def)
  finally show ?thesis
    using assms(2,3)
    by (simp add: dispatch_def opcode_handler_def exec_SYSTEM_def exec_ECALL_def py_then_def py_bind_def on_cpu_def
        py_zoom_def py_modify_def handle_at_exit)
qed

text \<open>A guest that executes \<open>ECALL\<close> with the number of \<open>_exit\<close> in \<open>a7\<close> stops the machine: the run
  terminates with the exit code, \<open>a0\<close> as a signed word, the program counter past the instruction, and
  memory as it was.\<close>

lemma exit_ends_run:
  assumes "sys_inv r True s" "plain_word s (pc (cpu s))" "safe_valid (ram s) (pc (cpu s)) 4"
    "bytes_at s (pc (cpu s)) [0x73, 0, 0, 0]" "csrs (cpu s) 0x305 = 0" "registers (cpu s) 17 = 93"
    "fits 32 (registers (cpu s) 10)"
  shows "\<exists>s'. run_fast (Some (handle os)) s =
      Some (ExecutionTerminated (ExitCode (sint (word_of_int (registers (cpu s) 10) :: 32 word))), s') \<and>
    pc (cpu s') = (pc (cpu s) + 4) AND 0xFFFFFFFF \<and> ram s' = ram s"
proof -
  have "load_word (pc (cpu s)) s = (Inr 0x73, s)"
    using load_word_at [OF assms(2,3), of "0x73"] assms(4) by (simp add: word_bytes_def fits_def)
  then have f: "fetch_word s = (Inr 0x73, s)" by (simp add: fetch_word_def)
  obtain s' where s': "execute_32 (Some (handle os)) 0x73 s =
        (Inl (ExecutionTerminated (ExitCode (to_signed (registers (cpu s) 10)))), s')"
      "pc (cpu s') = (pc (cpu s) + 4) AND 0xFFFFFFFF" "ram s' = ram s"
    using execute_exit [OF assms(1,5,6), of os] by blast
  have "to_signed (registers (cpu s) 10) = sint (word_of_int (registers (cpu s) 10) :: 32 word)"
    using signed32_uint [of "word_of_int (registers (cpu s) 10)"] reg_word [OF assms(7)]
    by (auto simp: to_signed_def signed32_def)
  then show ?thesis
    using f s' by (subst run_fast_def, subst py_forever.simps) (simp add: py_bind_def py_then_def execute_fetched_def)
qed

end
